(* ===== verification/Prelude.thy ===== *)
theory Prelude
  imports Main "HOL-Library.Word" "HOL-Library.Sublist"
begin

text \<open>
  Prelude of the development: the collections of rewrite rules the component proofs use, the
  names of the model's basic types, and the parts of Go's \<^verbatim>\<open>strings\<close> and \<^verbatim>\<open>strconv\<close> packages that
  the sources call. A Go string is a sequence of bytes, which is what \<^typ>\<open>string\<close> (a list of
  8-bit characters) is; case conversion and white space are modelled on ASCII, the only letters
  the identifiers, URL schemes, host names and numbers of the sources use.
\<close>

named_theorems go_string \<open>laws of the string operations of Go's standard library\<close>
named_theorems rpc_inv \<open>preservation of a component's invariant by its operations\<close>

type_synonym bytes = string
type_synonym 'a go_result = "string + 'a"

section \<open>Go's strings package\<close>

definition HasPrefix :: "string \<Rightarrow> string \<Rightarrow> bool" where
  "HasPrefix s p \<longleftrightarrow> length p \<le> length s \<and> take (length p) s = p"

definition HasSuffix :: "string \<Rightarrow> string \<Rightarrow> bool" where
  "HasSuffix s p \<longleftrightarrow> length p \<le> length s \<and> drop (length s - length p) s = p"

definition TrimSuffix :: "string \<Rightarrow> string \<Rightarrow> string" where
  "TrimSuffix s p = (if HasSuffix s p then take (length s - length p) s else s)"

text \<open>\<^verbatim>\<open>strings.Split(s, sep)\<close> for a separator of one byte.\<close>

fun Split1 :: "char \<Rightarrow> string \<Rightarrow> string list" where
  "Split1 c [] = [[]]"
| "Split1 c (x # xs) =
     (if x = c then [] # Split1 c xs
      else (case Split1 c xs of [] \<Rightarrow> [[x]] | y # ys \<Rightarrow> (x # y) # ys))"

definition is_upper :: "char \<Rightarrow> bool" where
  "is_upper c \<longleftrightarrow> 65 \<le> (of_char c :: nat) \<and> (of_char c :: nat) \<le> 90"

definition is_lower :: "char \<Rightarrow> bool" where
  "is_lower c \<longleftrightarrow> 97 \<le> (of_char c :: nat) \<and> (of_char c :: nat) \<le> 122"

definition is_digit :: "char \<Rightarrow> bool" where
  "is_digit c \<longleftrightarrow> 48 \<le> (of_char c :: nat) \<and> (of_char c :: nat) \<le> 57"

definition lower_char :: "char \<Rightarrow> char" where
  "lower_char c = (if is_upper c then char_of ((of_char c :: nat) + 32) else c)"

definition ToLower :: "string \<Rightarrow> string" where
  "ToLower s = map lower_char s"

text \<open>White space of \<^verbatim>\<open>strings.TrimSpace\<close> (ASCII) and of JSON.\<close>

definition is_space :: "char \<Rightarrow> bool" where
  "is_space c \<longleftrightarrow> c = CHR '' '' \<or> (9 \<le> (of_char c :: nat) \<and> (of_char c :: nat) \<le> 13)"

definition TrimSpace :: "string \<Rightarrow> string" where
  "TrimSpace s = rev (dropWhile is_space (rev (dropWhile is_space s)))"

definition TrimLeft :: "string \<Rightarrow> char \<Rightarrow> string" where
  "TrimLeft s c = dropWhile (\<lambda>x. x = c) s"

section \<open>Numbers as text\<close>

text \<open>\<^verbatim>\<open>strconv.FormatUint\<close> and \<^verbatim>\<open>strconv.ParseUint\<close> in a base of at most 16.\<close>

definition digit_char :: "nat \<Rightarrow> char" where
  "digit_char d = ''0123456789abcdef'' ! d"

fun format_base :: "nat \<Rightarrow> nat \<Rightarrow> string" where
  "format_base b n =
     (if n < b \<or> b < 2 then [digit_char n] else format_base b (n div b) @ [digit_char (n mod b)])"

declare format_base.simps [simp del]

definition digit_val :: "char \<Rightarrow> nat option" where
  "digit_val c =
     (let n = of_char c in
      if 48 \<le> n \<and> n \<le> 57 then Some (n - 48)
      else if 97 \<le> n \<and> n \<le> 102 then Some (n - 87)
      else if 65 \<le> n \<and> n \<le> 70 then Some (n - 55)
      else None)"

fun parse_digits :: "nat \<Rightarrow> nat \<Rightarrow> string \<Rightarrow> nat option" where
  "parse_digits b acc [] = Some acc"
| "parse_digits b acc (c # cs) =
     (case digit_val c of
        None \<Rightarrow> None
      | Some d \<Rightarrow> if d < b then parse_digits b (acc * b + d) cs else None)"

datatype num_error = ErrSyntax | ErrRange

definition ParseUint64 :: "nat \<Rightarrow> string \<Rightarrow> num_error + 64 word" where
  "ParseUint64 b s =
     (if s = [] then Inl ErrSyntax
      else case parse_digits b 0 s of
             None \<Rightarrow> Inl ErrSyntax
           | Some n \<Rightarrow> if n < 2 ^ 64 then Inr (word_of_nat n) else Inl ErrRange)"

definition itoa :: "nat \<Rightarrow> string" where
  "itoa n = format_base 10 n"

definition itoa_int :: "int \<Rightarrow> string" where
  "itoa_int i = (if i < 0 then ''-'' @ itoa (nat (- i)) else itoa (nat i))"

section \<open>Laws of the string operations\<close>

lemma HasPrefix_iff [go_string]: "HasPrefix s p \<longleftrightarrow> (\<exists>r. s = p @ r)"
  by (auto simp: HasPrefix_def) (metis append_take_drop_id)

lemma HasSuffix_iff [go_string]: "HasSuffix s p \<longleftrightarrow> (\<exists>r. s = r @ p)"
  by (auto simp: HasSuffix_def) (metis append_take_drop_id)

lemma HasSuffix_append [simp]: "HasSuffix (r @ p) p"
  by (auto simp: HasSuffix_iff)

lemma TrimSuffix_append [simp]: "TrimSuffix (r @ p) p = r"
  by (simp add: TrimSuffix_def)

lemma Split1_nonempty [simp]: "Split1 c s \<noteq> []"
  by (induction s) (auto split: list.splits)

lemma Split1_none: "c \<notin> set s \<Longrightarrow> Split1 c s = [s]"
  by (induction s) auto

lemma Split1_append: "c \<notin> set a \<Longrightarrow> Split1 c (a @ c # b) = a # Split1 c b"
  by (induction a) auto

lemma Split1_single_iff: "Split1 c s = [a] \<longleftrightarrow> c \<notin> set s \<and> a = s"
proof (induction s arbitrary: a)
  case (Cons x xs)
  then show ?case by (cases "Split1 c xs") (auto split: list.splits)
qed auto

lemma Split1_pair_iff [go_string]:
  "Split1 c s = [a, b] \<longleftrightarrow> s = a @ c # b \<and> c \<notin> set a \<and> c \<notin> set b"
proof (induction s arbitrary: a)
  case (Cons x xs)
  show ?case
  proof (cases "x = c")
    case True
    then show ?thesis by (cases a) (auto simp: Split1_single_iff)
  next
    case False
    then show ?thesis
      using Cons by (cases "Split1 c xs"; cases a) auto
  qed
qed auto

lemma is_space_dropWhile_idem [simp]: "dropWhile P (dropWhile P s) = dropWhile P s"
  by (induction s) auto

lemma is_upper_lower: "is_upper c \<Longrightarrow> is_lower (lower_char c)"
  by (simp add: is_upper_def is_lower_def lower_char_def of_char_of take_bit_nat_def)

lemma lower_char_not_upper [simp]: "\<not> is_upper (lower_char c)"
proof (cases "is_upper c")
  case True
  then show ?thesis
    using is_upper_lower [OF True] by (simp add: is_upper_def is_lower_def)
qed (simp add: lower_char_def)

lemma lower_char_idem [simp]: "lower_char (lower_char c) = lower_char c"
  using lower_char_not_upper by (subst lower_char_def) simp

lemma ToLower_idem [simp]: "ToLower (ToLower s) = ToLower s"
  by (simp add: ToLower_def)

lemma ToLower_length [simp]: "length (ToLower s) = length s"
  by (simp add: ToLower_def)

section \<open>Numbers read back\<close>

lemma unat_bound: "unat (w :: 'a::len word) < 2 ^ LENGTH('a)"
  by (rule unsigned_less)

lemma digit_val_digit_char: "d < 16 \<Longrightarrow> digit_val (digit_char d) = Some d"
proof -
  assume "d < 16"
  then have "d \<in> set [0..<16]" by simp
  moreover have "\<forall>d \<in> set [0..<16]. digit_val (digit_char d) = Some d"
    by code_simp
  ultimately show ?thesis by blast
qed

lemma parse_digits_append:
  "parse_digits b acc (xs @ ys) =
     (case parse_digits b acc xs of None \<Rightarrow> None | Some n \<Rightarrow> parse_digits b n ys)"
  by (induction b acc xs rule: parse_digits.induct) (auto split: option.splits)

lemma format_base_parse:
  assumes "2 \<le> b" "b \<le> 16"
  shows "parse_digits b 0 (format_base b n) = Some n"
  using assms
proof (induction b n rule: format_base.induct)
  case (1 b n)
  show ?case
  proof (cases "n < b")
    case True
    with 1 show ?thesis
      by (simp add: format_base.simps [of b n] digit_val_digit_char)
  next
    case False
    with 1 have IH: "parse_digits b 0 (format_base b (n div b)) = Some (n div b)" by simp
    have m: "n mod b < b" using 1 by simp
    then have "n mod b < 16" using 1 by linarith
    with False m IH 1 show ?thesis
      by (simp add: format_base.simps [of b n] parse_digits_append digit_val_digit_char)
  qed
qed

lemma format_base_nonempty [simp]: "format_base b n \<noteq> []"
  by (subst format_base.simps) simp

lemma format_base_inj: "2 \<le> b \<Longrightarrow> b \<le> 16 \<Longrightarrow> format_base b m = format_base b n \<longleftrightarrow> m = n"
  by (metis format_base_parse option.inject)

lemma itoa_inj [simp]: "itoa m = itoa n \<longleftrightarrow> m = n"
  by (simp add: itoa_def format_base_inj)

lemma format_base_digits:
  assumes "2 \<le> b" "b \<le> 16"
  shows "c \<in> set (format_base b n) \<Longrightarrow> \<exists>d < b. c = digit_char d"
  using assms
proof (induction b n rule: format_base.induct)
  case (1 b n)
  show ?case
  proof (cases "n < b")
    case True
    with 1 show ?thesis by (auto simp: format_base.simps [of b n])
  next
    case False
    with 1 show ?thesis
      by (auto simp: format_base.simps [of b n] intro: exI [of _ "n mod b"])
  qed
qed

text \<open>A positive number is printed with no leading zero.\<close>

lemma format_base_no_leading_zero:
  assumes "2 \<le> b" "b \<le> 16" "0 < n"
  shows "hd (format_base b n) \<noteq> CHR ''0''"
  using assms
proof (induction b n rule: format_base.induct)
  case (1 b n)
  have z: "digit_char d = CHR ''0'' \<Longrightarrow> d < 16 \<Longrightarrow> d = 0" for d
    using digit_val_digit_char [of d] by (cases "d = 0") (auto simp: digit_val_def)
  show ?case
  proof (cases "n < b")
    case True
    with 1 z [of n] show ?thesis by (auto simp: format_base.simps [of b n])
  next
    case False
    then have "0 < n div b" using 1 by (simp add: div_greater_zero_iff)
    with False 1 show ?thesis by (simp add: format_base.simps [of b n])
  qed
qed

section \<open>Machines and their specifications\<close>

text \<open>
  A component with operations \<open>'op\<close> on a state \<open>'s\<close> is a partial step function (\<^term>\<open>None\<close> is a
  panic). \<open>run_ops\<close> performs a sequence of operations.
\<close>

fun run_ops :: "('op \<Rightarrow> 's \<Rightarrow> 's option) \<Rightarrow> 'op list \<Rightarrow> 's \<Rightarrow> 's option" where
  "run_ops step [] s = Some s"
| "run_ops step (op # ops) s = (case step op s of None \<Rightarrow> None | Some s' \<Rightarrow> run_ops step ops s')"

lemma run_ops_append:
  "run_ops step (xs @ ys) s = (case run_ops step xs s of None \<Rightarrow> None | Some s' \<Rightarrow> run_ops step ys s')"
  by (induction step xs s rule: run_ops.induct) (auto split: option.splits)

text \<open>
  A machine implements a total abstract machine when, under its invariant, every operation returns,
  keeps the invariant, and commutes with the abstraction.
\<close>

locale implements_machine =
  fixes inv :: "'s \<Rightarrow> bool"
    and step :: "'op \<Rightarrow> 's \<Rightarrow> 's option"
    and abs :: "'s \<Rightarrow> 'a"
    and spec :: "'op \<Rightarrow> 'a \<Rightarrow> 'a"
  assumes step_total: "inv s \<Longrightarrow> \<exists>s'. step op s = Some s'"
    and step_inv: "inv s \<Longrightarrow> step op s = Some s' \<Longrightarrow> inv s'"
    and step_abs: "inv s \<Longrightarrow> step op s = Some s' \<Longrightarrow> abs s' = spec op (abs s)"
begin

lemma run_total:
  "inv s \<Longrightarrow> \<exists>s'. run_ops step ops s = Some s' \<and> inv s' \<and> abs s' = fold spec ops (abs s)"
proof (induction ops arbitrary: s)
  case (Cons op ops)
  obtain s' where s': "step op s = Some s'" using step_total [OF Cons.prems] by blast
  show ?case
    using Cons.IH [OF step_inv [OF Cons.prems s']] step_abs [OF Cons.prems s'] s' by simp
qed simp

end

end
