(* ===== verification/Hexutil.thy ===== *)
theory Hexutil
  imports Prelude
begin

text \<open>
  Hexadecimal quantities and byte strings: \<^verbatim>\<open>hexutil.go\<close> and the parts of \<^verbatim>\<open>bytes.go\<close> and
  \<^verbatim>\<open>types.go\<close> of the vendored \<^verbatim>\<open>pdx-chain/common\<close> that the RPC types and the transaction tools
  call, with \<^verbatim>\<open>encoding/hex\<close> of Go's standard library. A byte is an \<^typ>\<open>8 word\<close>.
\<close>

datatype decError =
    ErrEmptyString | ErrHexSyntax | ErrMissingPrefix | ErrOddLength | ErrEmptyNumber
  | ErrLeadingZero | ErrUint64Range | ErrBig256Range

fun decErrorText :: "decError \<Rightarrow> string" where
  "decErrorText ErrEmptyString = ''empty hex string''"
| "decErrorText ErrHexSyntax = ''invalid hex string''"
| "decErrorText ErrMissingPrefix = ''hex string without 0x prefix''"
| "decErrorText ErrOddLength = ''hex string of odd length''"
| "decErrorText ErrEmptyNumber = ''hex string '' @ [CHR 0x22] @ ''0x'' @ [CHR 0x22]"
| "decErrorText ErrLeadingZero = ''hex number with leading zero digits''"
| "decErrorText ErrUint64Range = ''hex number > 64 bits''"
| "decErrorText ErrBig256Range = ''hex number > 256 bits''"

definition has0xPrefix :: "string \<Rightarrow> bool" where
  "has0xPrefix s \<longleftrightarrow>
     2 \<le> length s \<and> s ! 0 = CHR ''0'' \<and> (s ! 1 = CHR ''x'' \<or> s ! 1 = CHR ''X'')"

definition checkNumber :: "string \<Rightarrow> decError + string" where
  "checkNumber input =
     (if input = [] then Inl ErrEmptyString
      else if \<not> has0xPrefix input then Inl ErrMissingPrefix
      else let raw = drop 2 input in
           if raw = [] then Inl ErrEmptyNumber
           else if 1 < length raw \<and> raw ! 0 = CHR ''0'' then Inl ErrLeadingZero
           else Inr raw)"

fun mapNumError :: "num_error \<Rightarrow> decError" where
  "mapNumError ErrRange = ErrUint64Range"
| "mapNumError ErrSyntax = ErrHexSyntax"

definition DecodeUint64 :: "string \<Rightarrow> decError + 64 word" where
  "DecodeUint64 input =
     (case checkNumber input of
        Inl e \<Rightarrow> Inl e
      | Inr raw \<Rightarrow> (case ParseUint64 16 raw of Inl e \<Rightarrow> Inl (mapNumError e) | Inr w \<Rightarrow> Inr w))"

definition EncodeUint64 :: "64 word \<Rightarrow> string" where
  "EncodeUint64 i = ''0x'' @ format_base 16 (unat i)"

text \<open>
  \<^verbatim>\<open>DecodeBig\<close> cuts the digits into machine words of 16 nibbles from the right, accumulates
  each word with \<open>words[i] *= 16; words[i] += nib\<close> and assembles them by \<^verbatim>\<open>SetBits\<close>.
  \<^verbatim>\<open>decodeNibble\<close> answers \<^verbatim>\<open>badNibble\<close> where \<open>decodeNibble\<close> here is \<^term>\<open>None\<close>.
\<close>

definition bigWordNibbles :: nat where
  "bigWordNibbles = 16"

definition decodeNibble :: "char \<Rightarrow> 64 word option" where
  "decodeNibble c =
     (let n = (of_char c :: nat) in
      if 48 \<le> n \<and> n \<le> 57 then Some (word_of_nat (n - 48))
      else if 65 \<le> n \<and> n \<le> 70 then Some (word_of_nat (n - 65 + 10))
      else if 97 \<le> n \<and> n \<le> 102 then Some (word_of_nat (n - 97 + 10))
      else None)"

fun decodeWord :: "64 word \<Rightarrow> string \<Rightarrow> 64 word option" where
  "decodeWord w [] = Some w"
| "decodeWord w (c # cs) =
     (case decodeNibble c of None \<Rightarrow> None | Some nib \<Rightarrow> decodeWord (w * 16 + nib) cs)"

fun decodeWords :: "nat \<Rightarrow> string \<Rightarrow> 64 word list option" where
  "decodeWords 0 s = Some []"
| "decodeWords (Suc k) s =
     (let start = length s - bigWordNibbles in
      case decodeWord 0 (drop start s) of
        None \<Rightarrow> None
      | Some w \<Rightarrow> map_option (Cons w) (decodeWords k (take start s)))"

fun SetBits :: "64 word list \<Rightarrow> nat" where
  "SetBits [] = 0"
| "SetBits (w # ws) = unat w + 2 ^ 64 * SetBits ws"

definition DecodeBig :: "string \<Rightarrow> decError + nat" where
  "DecodeBig input =
     (case checkNumber input of
        Inl e \<Rightarrow> Inl e
      | Inr raw \<Rightarrow>
          if 64 < length raw then Inl ErrBig256Range
          else case decodeWords (length raw div bigWordNibbles + 1) raw of
                 None \<Rightarrow> Inl ErrHexSyntax
               | Some ws \<Rightarrow> Inr (SetBits ws))"

text \<open>\<^verbatim>\<open>fmt.Sprintf("%#x", n)\<close> of a big integer writes the sign before the prefix.\<close>

definition EncodeBig :: "int \<Rightarrow> string" where
  "EncodeBig n =
     (if n = 0 then ''0x0''
      else (if n < 0 then ''-'' else '''') @ ''0x'' @ format_base 16 (nat \<bar>n\<bar>))"

section \<open>Byte strings\<close>

fun hexEncodeToString :: "8 word list \<Rightarrow> string" where
  "hexEncodeToString [] = []"
| "hexEncodeToString (b # bs) =
     digit_char (unat b div 16) # digit_char (unat b mod 16) # hexEncodeToString bs"

datatype hex_error = InvalidByteError char | ErrLength

text \<open>
  \<^verbatim>\<open>hex.DecodeString\<close> returns the bytes decoded before the first error beside the error.
\<close>

fun hexDecodeString :: "string \<Rightarrow> 8 word list \<times> hex_error option" where
  "hexDecodeString [] = ([], None)"
| "hexDecodeString [c] =
     (case digit_val c of None \<Rightarrow> ([], Some (InvalidByteError c)) | Some _ \<Rightarrow> ([], Some ErrLength))"
| "hexDecodeString (c # d # cs) =
     (case digit_val c of
        None \<Rightarrow> ([], Some (InvalidByteError c))
      | Some a \<Rightarrow>
          (case digit_val d of
             None \<Rightarrow> ([], Some (InvalidByteError d))
           | Some b \<Rightarrow> (let (bs, e) = hexDecodeString cs in (word_of_nat (16 * a + b) # bs, e))))"

definition Hex2Bytes :: "string \<Rightarrow> 8 word list" where
  "Hex2Bytes str = fst (hexDecodeString str)"

definition Bytes2Hex :: "8 word list \<Rightarrow> string" where
  "Bytes2Hex d = hexEncodeToString d"

definition ToHex :: "8 word list \<Rightarrow> string" where
  "ToHex b = (let hex = Bytes2Hex b in ''0x'' @ (if hex = [] then ''0'' else hex))"

definition FromHex :: "string \<Rightarrow> 8 word list" where
  "FromHex s =
     (let s1 = (if 1 < length s \<and> (take 2 s = ''0x'' \<or> take 2 s = ''0X'') then drop 2 s else s);
          s2 = (if odd (length s1) then CHR ''0'' # s1 else s1)
      in Hex2Bytes s2)"

definition AddressLength :: nat where
  "AddressLength = 20"

definition BytesToAddress :: "8 word list \<Rightarrow> 8 word list" where
  "BytesToAddress b =
     (let b' = (if AddressLength < length b then drop (length b - AddressLength) b else b)
      in replicate (AddressLength - length b') 0 @ b')"

definition HexToAddress :: "string \<Rightarrow> 8 word list" where
  "HexToAddress s = BytesToAddress (FromHex s)"

section \<open>Round trips\<close>

lemma has0xPrefix_0x [simp]: "has0xPrefix (''0x'' @ s)"
  by (simp add: has0xPrefix_def)

lemma checkNumber_0x:
  "s \<noteq> [] \<Longrightarrow> length s = 1 \<or> hd s \<noteq> CHR ''0'' \<Longrightarrow> checkNumber (''0x'' @ s) = Inr s"
  by (cases s) (auto simp: checkNumber_def has0xPrefix_def)

lemma checkNumber_format: "checkNumber (''0x'' @ format_base 16 n) = Inr (format_base 16 n)"
proof (rule checkNumber_0x)
  show "length (format_base 16 n) = 1 \<or> hd (format_base 16 n) \<noteq> CHR ''0''"
    using format_base_no_leading_zero [of 16 n]
    by (cases "n = 0") (auto simp: format_base.simps [of 16 0])
qed simp

lemma DecodeUint64_EncodeUint64: "DecodeUint64 (EncodeUint64 w) = Inr w"
  using unat_bound [of w]
  by (simp add: DecodeUint64_def EncodeUint64_def checkNumber_format [unfolded append.simps]
      ParseUint64_def format_base_parse)

lemma nibbles_of_byte:
  fixes b :: "8 word"
  shows "unat b div 16 < 16" "word_of_nat (16 * (unat b div 16) + unat b mod 16) = b"
  using unat_bound [of b] by auto

lemma hexDecode_Encode: "hexDecodeString (hexEncodeToString bs) = (bs, None)"
proof (induction bs)
  case (Cons b bs)
  then show ?case
    using nibbles_of_byte [of b] by (simp add: digit_val_digit_char)
qed simp

lemma hexEncode_length [simp]: "length (hexEncodeToString bs) = 2 * length bs"
  by (induction bs) auto

lemma hexDecode_length: "length (fst (hexDecodeString s)) \<le> length s div 2"
  by (induction s rule: hexDecodeString.induct)
    (auto split: option.splits prod.splits)

lemma hexDecode_ok_length: "hexDecodeString s = (bs, None) \<Longrightarrow> length s = 2 * length bs"
  by (induction s arbitrary: bs rule: hexDecodeString.induct)
    (auto split: option.splits prod.splits)

lemma BytesToAddress_length [simp]: "length (BytesToAddress b) = AddressLength"
  by (simp add: BytesToAddress_def Let_def AddressLength_def)

section \<open>Big quantities by machine words\<close>

lemma decodeNibble_digit_val: "decodeNibble c = map_option word_of_nat (digit_val c)"
  by (auto simp: decodeNibble_def digit_val_def Let_def)

lemma digit_val_bound: "digit_val c = Some d \<Longrightarrow> d < 16"
  by (auto simp: digit_val_def Let_def split: if_splits)

lemma parse_digits_acc:
  "parse_digits 16 acc s = map_option (\<lambda>n. acc * 16 ^ length s + n) (parse_digits 16 0 s)"
proof (induction s arbitrary: acc)
  case (Cons c cs)
  show ?case
    using Cons [of "acc * 16 + the (digit_val c)"] Cons [of "the (digit_val c)"]
    by (auto split: option.splits simp: algebra_simps option.map_comp comp_def)
qed simp

lemma parse_digits_split:
  "parse_digits 16 0 (a @ b) =
     (case parse_digits 16 0 a of
        None \<Rightarrow> None
      | Some n \<Rightarrow> map_option ((+) (n * 16 ^ length b)) (parse_digits 16 0 b))"
proof (cases "parse_digits 16 0 a")
  case (Some n)
  then show ?thesis
    using parse_digits_append [of 16 0 a b] parse_digits_acc [of n b] by simp
qed (simp add: parse_digits_append)

lemma parse_digits_less: "parse_digits 16 0 s = Some n \<Longrightarrow> n < 16 ^ length s"
proof (induction s arbitrary: n)
  case (Cons c cs)
  then obtain d m where d: "digit_val c = Some d" and m: "parse_digits 16 0 cs = Some m"
    and n: "n = d * 16 ^ length cs + m"
    using parse_digits_acc [of "the (digit_val c)" cs] by (auto split: option.splits if_splits)
  have "m < 16 ^ length cs" using Cons.IH m .
  moreover have "d * 16 ^ length cs \<le> 15 * 16 ^ length cs"
    using digit_val_bound [OF d] by (intro mult_le_mono1) simp
  ultimately have "n < 15 * 16 ^ length cs + 16 ^ length cs"
    unfolding n by (rule add_le_less_mono [rotated])
  then show ?case by simp
qed simp

lemma decodeWord_wrap: "decodeWord w s = map_option (\<lambda>n. w * 16 ^ length s + word_of_nat n) (parse_digits 16 0 s)"
proof (induction s arbitrary: w)
  case (Cons c cs)
  show ?case
    using parse_digits_acc [of "the (digit_val c)" cs] digit_val_bound [of c]
    by (auto simp: Cons decodeNibble_digit_val algebra_simps option.map_comp comp_def
        split: option.splits)
qed simp

lemma decodeWord_value:
  assumes "length s \<le> 16"
  shows "map_option unat (decodeWord 0 s) = parse_digits 16 0 s"
proof (cases "parse_digits 16 0 s")
  case (Some n)
  have "n < 16 ^ length s" using Some by (rule parse_digits_less)
  also have "\<dots> \<le> 16 ^ 16" using assms by (intro power_increasing) auto
  finally have "n < 2 ^ 64" by simp
  then show ?thesis using Some by (simp add: decodeWord_wrap unat_of_nat)
qed (simp add: decodeWord_wrap)

lemma decodeWords_Nil [simp]: "decodeWords k [] = Some (replicate k 0)"
  by (induction k) (auto simp: Let_def)

lemma SetBits_zeros [simp]: "SetBits (replicate k 0) = 0"
  by (induction k) auto

lemma decodeWords_value:
  "length s < 16 * k \<or> s = [] \<Longrightarrow> map_option SetBits (decodeWords k s) = parse_digits 16 0 s"
proof (induction k arbitrary: s)
  case (Suc k)
  let ?a = "take (length s - 16) s" and ?b = "drop (length s - 16) s"
  have IH: "map_option SetBits (decodeWords k ?a) = parse_digits 16 0 ?a"
    using Suc.prems by (intro Suc.IH) auto
  have b: "map_option unat (decodeWord 0 ?b) = parse_digits 16 0 ?b"
    by (rule decodeWord_value) simp
  have s: "parse_digits 16 0 s = (case parse_digits 16 0 ?a of None \<Rightarrow> None
      | Some n \<Rightarrow> map_option ((+) (n * 16 ^ length ?b)) (parse_digits 16 0 ?b))"
    using parse_digits_split [of ?a ?b] by simp
  have len: "?a \<noteq> [] \<Longrightarrow> length ?b = 16" by auto
  show ?case
    unfolding s IH [symmetric] b [symmetric]
    using len by (cases "?a = []"; cases k)
      (auto simp: Let_def bigWordNibbles_def option.map_comp comp_def split: option.splits)
qed auto

lemma DecodeBig_digits:
  "parse_digits 16 0 raw = map_option SetBits (decodeWords (length raw div bigWordNibbles + 1) raw)"
proof -
  have "length raw < 16 * (length raw div 16 + 1)"
    by (metis add.commute dividend_less_div_times mult.commute mult_Suc_right Suc_eq_plus1 zero_less_numeral)
  then show ?thesis
    by (intro decodeWords_value [symmetric]) (simp add: bigWordNibbles_def)
qed

lemma DecodeBig_Inr:
  "checkNumber input = Inr raw \<Longrightarrow> length raw \<le> 64 \<Longrightarrow> parse_digits 16 0 raw = Some n \<Longrightarrow>
     DecodeBig input = Inr n"
  using DecodeBig_digits [of raw] by (auto simp: DecodeBig_def)

text \<open>
  \<^verbatim>\<open>DecodeBig\<close> computes the value of its digits: cutting the text into 64-bit words,
  accumulating each with wrap-around arithmetic and assembling the words is the same as reading
  the digit string in base 16, and no value of more than 256 bits is accepted.
\<close>

theorem DecodeBig_value:
  "DecodeBig input =
     (case checkNumber input of
        Inl e \<Rightarrow> Inl e
      | Inr raw \<Rightarrow>
          if 64 < length raw then Inl ErrBig256Range
          else case parse_digits 16 0 raw of None \<Rightarrow> Inl ErrHexSyntax | Some n \<Rightarrow> Inr n)"
proof (cases "checkNumber input")
  case (Inr raw)
  then show ?thesis
    using DecodeBig_digits [of raw]
    by (cases "decodeWords (length raw div bigWordNibbles + 1) raw") (auto simp: DecodeBig_def)
qed (simp add: DecodeBig_def)

section \<open>Byte strings read back\<close>

text \<open>
  Round trip of byte strings through their 0x-prefixed text: for a non-empty byte string
  the text of \<^verbatim>\<open>ToHex\<close> is decoded back by \<^verbatim>\<open>FromHex\<close>, while the empty one prints as \<^verbatim>\<open>0x0\<close> and
  reads back as one zero byte.
\<close>

lemma FromHex_ToHex: "FromHex (ToHex b) = (if b = [] then [0] else b)"
proof (cases b)
  case Nil
  then show ?thesis
    by (simp add: FromHex_def ToHex_def Bytes2Hex_def Hex2Bytes_def digit_val_def)
next
  case (Cons x xs)
  have "take 2 (''0x'' @ hexEncodeToString b) = ''0x''" by simp
  then show ?thesis
    using Cons hexDecode_Encode [of b]
    by (simp add: FromHex_def ToHex_def Bytes2Hex_def Hex2Bytes_def Let_def)
qed

end
