(* ===== verification/BlockNumber.thy ===== *)
theory BlockNumber
  imports Hexutil
begin

text \<open>
  The \<^verbatim>\<open>BlockNumber\<close> type of \<^verbatim>\<open>src/rpc/types.go\<close>: a signed 64-bit integer whose negative values
  -1 and -2 stand for the latest and the pending block, and its JSON decoding.
\<close>

type_synonym block_number = "64 word"

definition PendingBlockNumber :: block_number where
  "PendingBlockNumber = - 2"

definition LatestBlockNumber :: block_number where
  "LatestBlockNumber = - 1"

definition EarliestBlockNumber :: block_number where
  "EarliestBlockNumber = 0"

definition stripQuotes :: "string \<Rightarrow> string" where
  "stripQuotes s =
     (if 2 \<le> length s \<and> s ! 0 = CHR 0x22 \<and> s ! (length s - 1) = CHR 0x22
      then take (length s - 2) (drop 1 s) else s)"

definition UnmarshalBlockNumber :: "string \<Rightarrow> string + block_number" where
  "UnmarshalBlockNumber data =
     (let input = stripQuotes (TrimSpace data) in
      if input = ''earliest'' then Inr EarliestBlockNumber
      else if input = ''latest'' then Inr LatestBlockNumber
      else if input = ''pending'' then Inr PendingBlockNumber
      else case DecodeUint64 input of
             Inl e \<Rightarrow> Inl (decErrorText e)
           | Inr blckNum \<Rightarrow>
               if 2 ^ 63 - 1 < unat blckNum then Inl ''Blocknumber too high''
               else Inr blckNum)"

definition Int64 :: "block_number \<Rightarrow> int" where
  "Int64 bn = sint bn"

section \<open>Properties\<close>

lemma Int64_nonneg_iff: "0 \<le> Int64 bn \<longleftrightarrow> unat bn < 2 ^ 63"
proof -
  have "sint bn < 0 \<longleftrightarrow> bit (unat bn) 63"
    using bit_last_iff [of bn] by (simp add: bit_unsigned_iff)
  also have "\<dots> \<longleftrightarrow> odd (unat bn div 2 ^ 63)"
    by (simp add: bit_iff_odd)
  also have "\<dots> \<longleftrightarrow> \<not> unat bn < 2 ^ 63"
  proof -
    have "unat bn div 2 ^ 63 < 2"
      using unat_bound [of bn] by (simp add: less_mult_imp_div_less)
    then have "odd (unat bn div 2 ^ 63) \<longleftrightarrow> unat bn div 2 ^ 63 \<noteq> 0"
      by (metis One_nat_def dvd_0_right less_2_cases odd_one)
    then show ?thesis by (simp add: div_eq_0_iff)
  qed
  finally show ?thesis by (auto simp: Int64_def)
qed

lemma stripQuotes_quoted [simp]: "stripQuotes (CHR 0x22 # s @ [CHR 0x22]) = s"
  by (simp add: stripQuotes_def nth_append)

lemma TrimSpace_quoted [simp]: "TrimSpace (CHR 0x22 # s @ [CHR 0x22]) = CHR 0x22 # s @ [CHR 0x22]"
  by (simp add: TrimSpace_def is_space_def)

lemma EncodeUint64_keyword:
  "EncodeUint64 w \<noteq> ''earliest''" "EncodeUint64 w \<noteq> ''latest''" "EncodeUint64 w \<noteq> ''pending''"
  by (simp_all add: EncodeUint64_def)

text \<open>
  Round trip and range of block numbers: the quoted hexadecimal text of any number up to
  the largest signed 64-bit value decodes to that number, and every larger unsigned 64-bit
  value is refused.
\<close>

lemma BlockNumber_roundtrip:
  "UnmarshalBlockNumber (CHR 0x22 # EncodeUint64 w @ [CHR 0x22]) =
     (if unat w < 2 ^ 63 then Inr w else Inl ''Blocknumber too high'')"
proof -
  have "(2 ^ 63 - 1 < unat w) = (\<not> unat w < 2 ^ 63)" by auto
  then show ?thesis
    using EncodeUint64_keyword [of w]
    by (simp add: UnmarshalBlockNumber_def DecodeUint64_EncodeUint64 Let_def)
qed

text \<open>
  The special block numbers cannot be forged by a number: whatever text is decoded, the
  result is non-negative unless the text is the keyword \<^verbatim>\<open>latest\<close> or \<^verbatim>\<open>pending\<close>, and then it is
  that keyword's value.
\<close>

lemma BlockNumber_special:
  assumes "UnmarshalBlockNumber data = Inr bn"
  shows "0 \<le> Int64 bn \<or>
         stripQuotes (TrimSpace data) = ''latest'' \<and> Int64 bn = -1 \<or>
         stripQuotes (TrimSpace data) = ''pending'' \<and> Int64 bn = -2"
proof -
  consider (e) "bn = EarliestBlockNumber"
    | (l) "stripQuotes (TrimSpace data) = ''latest''" "bn = LatestBlockNumber"
    | (p) "stripQuotes (TrimSpace data) = ''pending''" "bn = PendingBlockNumber"
    | (n) "unat bn \<le> 2 ^ 63 - 1"
    using assms
    by (auto simp: UnmarshalBlockNumber_def Let_def not_less split: if_splits sum.splits)
  then show ?thesis
  proof cases
    case n
    then show ?thesis by (simp add: Int64_nonneg_iff)
  qed (simp_all add: Int64_def EarliestBlockNumber_def LatestBlockNumber_def PendingBlockNumber_def)
qed

lemma BlockNumber_special_example:
  "UnmarshalBlockNumber ''latest'' = Inr LatestBlockNumber \<and>
   (0 \<le> Int64 LatestBlockNumber \<or>
    stripQuotes (TrimSpace ''latest'') = ''latest'' \<and> Int64 LatestBlockNumber = -1 \<or>
    stripQuotes (TrimSpace ''latest'') = ''pending'' \<and> Int64 LatestBlockNumber = -2)"
proof -
  have h: "UnmarshalBlockNumber ''latest'' = Inr LatestBlockNumber"
    by code_simp
  show ?thesis using h BlockNumber_special [OF h] by blast
qed

end
