(* ===== verification/Json.thy ===== *)
theory Json
  imports Prelude
begin

text \<open>
  JSON text as \<^verbatim>\<open>encoding/json\<close> of Go's standard library reads and writes it, at the level the
  RPC package uses: a scanner that finds where a value ends, the members of an object and the
  elements of an array as raw text (\<^verbatim>\<open>json.RawMessage\<close>), the decoding of string literals, and
  the encoding of strings. The scanner takes fuel, since a value is scanned inside the scan of
  the value that holds it; \<open>scan_enough\<close> (theory \<open>Json_Laws\<close>) shows that twice the length of
  the text is enough, and \<open>json_scan\<close> gives it that much.
\<close>

type_synonym raw = string

section \<open>Scanner\<close>

definition is_jws :: "char \<Rightarrow> bool" where
  "is_jws c \<longleftrightarrow> c = CHR 0x20 \<or> c = CHR 0x09 \<or> c = CHR 0x0A \<or> c = CHR 0x0D"

definition skip_ws :: "string \<Rightarrow> string" where
  "skip_ws s = dropWhile is_jws s"

definition expect :: "char \<Rightarrow> string \<Rightarrow> string option" where
  "expect c s = (case skip_ws s of [] \<Rightarrow> None | d # r \<Rightarrow> if d = c then Some r else None)"

definition is_hex :: "char \<Rightarrow> bool" where
  "is_hex c \<longleftrightarrow> digit_val c \<noteq> None"

definition simple_escapes :: string where
  "simple_escapes = [CHR 0x22, CHR 0x5C] @ ''/bfnrt''"

text \<open>The rest after the closing quote of a string literal, whose opening quote is read.\<close>

fun scan_str :: "string \<Rightarrow> string option" where
  "scan_str [] = None"
| "scan_str (c # cs) =
     (if c = CHR 0x22 then Some cs
      else if c = CHR 0x5C then
        (case cs of
           [] \<Rightarrow> None
         | e # r \<Rightarrow>
             if e \<in> set simple_escapes then scan_str r
             else if e = CHR ''u'' then
               (case r of
                  h1 # h2 # h3 # h4 # r' \<Rightarrow>
                    if is_hex h1 \<and> is_hex h2 \<and> is_hex h3 \<and> is_hex h4 then scan_str r' else None
                | _ \<Rightarrow> None)
             else None)
      else if (of_char c :: nat) < 32 then None
      else scan_str cs)"

declare scan_str.simps(2) [simp del]

definition scan_digits1 :: "string \<Rightarrow> string option" where
  "scan_digits1 s =
     (case s of [] \<Rightarrow> None | c # r \<Rightarrow> if is_digit c then Some (dropWhile is_digit r) else None)"

definition scan_int :: "string \<Rightarrow> string option" where
  "scan_int s =
     (case s of
        [] \<Rightarrow> None
      | c # r \<Rightarrow> if c = CHR ''0'' then Some r
                else if is_digit c then Some (dropWhile is_digit r) else None)"

definition scan_frac :: "string \<Rightarrow> string option" where
  "scan_frac s =
     (case s of [] \<Rightarrow> Some [] | c # r \<Rightarrow> if c = CHR ''.'' then scan_digits1 r else Some s)"

definition scan_exp :: "string \<Rightarrow> string option" where
  "scan_exp s =
     (case s of
        [] \<Rightarrow> Some []
      | c # r \<Rightarrow>
          if c = CHR ''e'' \<or> c = CHR ''E'' then
            (case r of
               [] \<Rightarrow> None
             | d # r' \<Rightarrow> if d = CHR ''+'' \<or> d = CHR ''-'' then scan_digits1 r' else scan_digits1 r)
          else Some s)"

definition scan_num :: "string \<Rightarrow> string option" where
  "scan_num s =
     (let s' = (case s of [] \<Rightarrow> [] | c # r \<Rightarrow> if c = CHR ''-'' then r else s) in
      case scan_int s' of
        None \<Rightarrow> None
      | Some r \<Rightarrow> (case scan_frac r of None \<Rightarrow> None | Some r' \<Rightarrow> scan_exp r'))"

definition scan_lit :: "string \<Rightarrow> string \<Rightarrow> string option" where
  "scan_lit lit s = (if HasPrefix s lit then Some (drop (length lit) s) else None)"

definition raw_of :: "string \<Rightarrow> string \<Rightarrow> raw" where
  "raw_of s rest = take (length s - length rest) s"

fun scan_value :: "nat \<Rightarrow> string \<Rightarrow> string option"
and scan_elems :: "nat \<Rightarrow> string \<Rightarrow> (raw list \<times> string) option"
and scan_members :: "nat \<Rightarrow> string \<Rightarrow> ((raw \<times> raw) list \<times> string) option" where
  "scan_value 0 s = None"
| "scan_value (Suc n) s =
     (case skip_ws s of
        [] \<Rightarrow> None
      | c # cs \<Rightarrow>
          if c = CHR 0x22 then scan_str cs
          else if c = CHR ''['' then
            (case expect (CHR '']'') cs of
               Some r \<Rightarrow> Some r
             | None \<Rightarrow> map_option snd (scan_elems n cs))
          else if c = CHR ''{'' then
            (case expect (CHR ''}'') cs of
               Some r \<Rightarrow> Some r
             | None \<Rightarrow> map_option snd (scan_members n cs))
          else if c = CHR ''t'' then scan_lit ''true'' (c # cs)
          else if c = CHR ''f'' then scan_lit ''false'' (c # cs)
          else if c = CHR ''n'' then scan_lit ''null'' (c # cs)
          else scan_num (c # cs))"
| "scan_elems 0 s = None"
| "scan_elems (Suc n) s =
     (let s' = skip_ws s in
      case scan_value n s' of
        None \<Rightarrow> None
      | Some r \<Rightarrow>
          (case expect (CHR '','') r of
             Some r' \<Rightarrow> map_option (\<lambda>(vs, t). (raw_of s' r # vs, t)) (scan_elems n r')
           | None \<Rightarrow> map_option (\<lambda>r'. ([raw_of s' r], r')) (expect (CHR '']'') r)))"
| "scan_members 0 s = None"
| "scan_members (Suc n) s =
     (case expect (CHR 0x22) s of
        None \<Rightarrow> None
      | Some k \<Rightarrow>
          (case scan_str k of
             None \<Rightarrow> None
           | Some r0 \<Rightarrow>
               (case expect (CHR '':'') r0 of
                  None \<Rightarrow> None
                | Some s1 \<Rightarrow>
                    (let s' = skip_ws s1; key = butlast (raw_of k r0) in
                     case scan_value n s' of
                       None \<Rightarrow> None
                     | Some r \<Rightarrow>
                         (case expect (CHR '','') r of
                            Some r' \<Rightarrow>
                              map_option (\<lambda>(ms, t). ((key, raw_of s' r) # ms, t)) (scan_members n r')
                          | None \<Rightarrow>
                              map_option (\<lambda>r'. ([(key, raw_of s' r)], r')) (expect (CHR ''}'') r))))))"

declare scan_value.simps(2) [simp del] scan_elems.simps(2) [simp del]
  scan_members.simps(2) [simp del]

definition json_scan :: "string \<Rightarrow> string option" where
  "json_scan s = scan_value (Suc (2 * length s)) s"

text \<open>\<^verbatim>\<open>checkValid\<close>: the text is one JSON value and nothing else.\<close>

definition json_valid :: "string \<Rightarrow> bool" where
  "json_valid s = (case json_scan s of None \<Rightarrow> False | Some r \<Rightarrow> skip_ws r = [])"

text \<open>The elements of an array, the members of an object.\<close>

definition json_array :: "raw \<Rightarrow> raw list option" where
  "json_array s =
     (case expect (CHR ''['') s of
        None \<Rightarrow> None
      | Some cs \<Rightarrow>
          (case expect (CHR '']'') cs of
             Some _ \<Rightarrow> Some []
           | None \<Rightarrow> map_option fst (scan_elems (2 * length s) cs)))"

definition json_object :: "raw \<Rightarrow> (raw \<times> raw) list option" where
  "json_object s =
     (case expect (CHR ''{'') s of
        None \<Rightarrow> None
      | Some cs \<Rightarrow>
          (case expect (CHR ''}'') cs of
             Some _ \<Rightarrow> Some []
           | None \<Rightarrow> map_option fst (scan_members (2 * length s) cs)))"

section \<open>String literals\<close>

fun utf8_encode :: "nat \<Rightarrow> string" where
  "utf8_encode r =
     (if r < 128 then [char_of r]
      else if r < 2048 then [char_of (192 + r div 64), char_of (128 + r mod 64)]
      else if r < 65536 then
        [char_of (224 + r div 4096), char_of (128 + r div 64 mod 64), char_of (128 + r mod 64)]
      else
        [char_of (240 + r div 262144), char_of (128 + r div 4096 mod 64),
         char_of (128 + r div 64 mod 64), char_of (128 + r mod 64)])"

declare utf8_encode.simps [simp del]

definition hex4 :: "char \<Rightarrow> char \<Rightarrow> char \<Rightarrow> char \<Rightarrow> nat" where
  "hex4 a b c d =
     ((the (digit_val a) * 16 + the (digit_val b)) * 16 + the (digit_val c)) * 16 + the (digit_val d)"

definition unescape1 :: "char \<Rightarrow> char" where
  "unescape1 e =
     (if e = CHR ''b'' then CHR 0x08 else if e = CHR ''f'' then CHR 0x0C
      else if e = CHR ''n'' then CHR 0x0A else if e = CHR ''r'' then CHR 0x0D
      else if e = CHR ''t'' then CHR 0x09 else e)"

definition is_surrogate :: "nat \<Rightarrow> bool" where
  "is_surrogate r \<longleftrightarrow> 55296 \<le> r \<and> r < 57344"

text \<open>
  \<^verbatim>\<open>unquote\<close> of the body of a literal the scanner has accepted: escapes are replaced, a
  surrogate pair is joined, a lone surrogate becomes U+FFFD.
\<close>

fun unquote :: "string \<Rightarrow> string" where
  "unquote [] = []"
| "unquote (c # cs) =
     (if c \<noteq> CHR 0x5C then c # unquote cs
      else case cs of
             [] \<Rightarrow> []
           | e # r \<Rightarrow>
               if e \<noteq> CHR ''u'' then unescape1 e # unquote r
               else (case r of
                       h1 # h2 # h3 # h4 # r' \<Rightarrow>
                         (let u = hex4 h1 h2 h3 h4 in
                          if \<not> is_surrogate u then utf8_encode u @ unquote r'
                          else (case r' of
                                  c2 # e2 # g1 # g2 # g3 # g4 # r'' \<Rightarrow>
                                    (let u2 = hex4 g1 g2 g3 g4 in
                                     if c2 = CHR 0x5C \<and> e2 = CHR ''u'' \<and> u < 56320 \<and>
                                        56320 \<le> u2 \<and> u2 < 57344
                                     then utf8_encode (65536 + (u - 55296) * 1024 + (u2 - 56320))
                                            @ unquote r''
                                     else utf8_encode 65533 @ unquote r')
                                | _ \<Rightarrow> utf8_encode 65533 @ unquote r'))
                     | _ \<Rightarrow> []))"

declare unquote.simps(2) [simp del]

text \<open>
  Encoding of a string by \<^verbatim>\<open>json.Marshal\<close>: quotes, backslashes and control characters are
  escaped, and so are the three characters that matter in HTML.
\<close>

definition encode_char :: "char \<Rightarrow> string" where
  "encode_char c =
     (if c = CHR 0x22 \<or> c = CHR 0x5C then [CHR 0x5C, c]
      else if c = CHR 0x0A then [CHR 0x5C, CHR ''n'']
      else if c = CHR 0x0D then [CHR 0x5C, CHR ''r'']
      else if c = CHR 0x09 then [CHR 0x5C, CHR ''t'']
      else if (of_char c :: nat) < 32 \<or> c = CHR ''<'' \<or> c = CHR ''>'' \<or> c = CHR ''&'' then
        [CHR 0x5C, CHR ''u'', CHR ''0'', CHR ''0'',
         digit_char (of_char c div 16), digit_char (of_char c mod 16)]
      else [c])"

definition encode_body :: "string \<Rightarrow> string" where
  "encode_body s = concat (map encode_char s)"

definition json_quote :: "string \<Rightarrow> raw" where
  "json_quote s = CHR 0x22 # encode_body s @ [CHR 0x22]"

text \<open>Arrays and objects as \<^verbatim>\<open>json.Marshal\<close> writes them, from the encodings of their parts.\<close>

fun join_with :: "char \<Rightarrow> string list \<Rightarrow> string" where
  "join_with c [] = []"
| "join_with c [x] = x"
| "join_with c (x # y # zs) = x @ c # join_with c (y # zs)"

definition render_array :: "raw list \<Rightarrow> raw" where
  "render_array vs = CHR ''['' # join_with (CHR '','') vs @ '']''"

definition render_member :: "string \<times> raw \<Rightarrow> string" where
  "render_member m = json_quote (fst m) @ CHR '':'' # snd m"

definition render_object :: "(string \<times> raw) list \<Rightarrow> raw" where
  "render_object ms = CHR ''{'' # join_with (CHR '','') (map render_member ms) @ ''}''"

section \<open>Classes of values\<close>

definition is_null :: "raw \<Rightarrow> bool" where
  "is_null v \<longleftrightarrow> TrimSpace v = ''null''"

definition is_string_lit :: "raw \<Rightarrow> bool" where
  "is_string_lit v \<longleftrightarrow> (case skip_ws v of [] \<Rightarrow> False | c # _ \<Rightarrow> c = CHR 0x22)"

definition is_number_lit :: "raw \<Rightarrow> bool" where
  "is_number_lit v \<longleftrightarrow>
     (case skip_ws v of [] \<Rightarrow> False | c # _ \<Rightarrow> c = CHR ''-'' \<or> is_digit c)"

text \<open>The text of a string literal, without its quotes and escapes.\<close>

definition string_of_lit :: "raw \<Rightarrow> string" where
  "string_of_lit v = (case expect (CHR 0x22) v of
       None \<Rightarrow> [] | Some k \<Rightarrow> (case scan_str k of None \<Rightarrow> [] | Some r \<Rightarrow> unquote (butlast (raw_of k r))))"

end
