(* ===== verification/Json_Laws.thy ===== *)
theory Json_Laws
  imports Json
begin

text \<open>
  Laws of the JSON scanner: every scan consumes text, twice the length of the text is enough
  fuel, a scanned value is found again in front of any text that cannot continue it, and the
  encodings of strings, arrays and objects are read back.
\<close>

section \<open>Scans consume text\<close>

lemma skip_ws_suffix: "\<exists>p. s = p @ skip_ws s"
  unfolding skip_ws_def by (metis takeWhile_dropWhile_id)

lemma skip_ws_length: "length (skip_ws s) \<le> length s"
  by (simp add: skip_ws_def length_dropWhile_le)

lemma skip_ws_idem [simp]: "skip_ws (skip_ws s) = skip_ws s"
  by (simp add: skip_ws_def)

lemma skip_ws_append: "skip_ws s \<noteq> [] \<Longrightarrow> skip_ws (s @ t) = skip_ws s @ t"
  by (induction s) (auto simp: skip_ws_def)

lemma skip_ws_nonws: "s \<noteq> [] \<Longrightarrow> \<not> is_jws (hd s) \<Longrightarrow> skip_ws s = s"
  by (cases s) (auto simp: skip_ws_def)

lemma expect_Some: "expect c s = Some r \<longleftrightarrow> skip_ws s = c # r"
  by (auto simp: expect_def split: list.splits)

lemma expect_suffix: "expect c s = Some r \<Longrightarrow> \<exists>p. s = p @ c # r"
  unfolding expect_Some using skip_ws_suffix [of s] by simp

lemma expect_length: "expect c s = Some r \<Longrightarrow> length r < length s"
  by (auto dest!: expect_suffix)

lemma expect_append: "expect c s = Some r \<Longrightarrow> expect c (s @ t) = Some (r @ t)"
  by (simp add: expect_Some skip_ws_append)

lemma expect_None_append:
  "expect c s = None \<Longrightarrow> skip_ws s \<noteq> [] \<Longrightarrow> expect c (s @ t) = None"
  by (auto simp: expect_def skip_ws_append split: list.splits)

lemma scan_str_cases [consumes 1, case_names close escape unicode plain]:
  assumes "scan_str (c # cs) = Some r"
  obtains "c = CHR 0x22" "r = cs"
  | e q where "c = CHR 0x5C" "cs = e # q" "e \<in> set simple_escapes" "scan_str q = Some r"
  | h1 h2 h3 h4 q where "c = CHR 0x5C" "cs = CHR ''u'' # h1 # h2 # h3 # h4 # q"
      "is_hex h1" "is_hex h2" "is_hex h3" "is_hex h4" "scan_str q = Some r"
  | "c \<noteq> CHR 0x22" "c \<noteq> CHR 0x5C" "\<not> (of_char c :: nat) < 32" "scan_str cs = Some r"
  using assms unfolding scan_str.simps(2) [of c cs] by (auto split: if_splits list.splits)

lemma scan_str_simps [simp]:
  "scan_str (CHR 0x22 # q) = Some q"
  "e \<in> set simple_escapes \<Longrightarrow> scan_str (CHR 0x5C # e # q) = scan_str q"
  "is_hex h1 \<Longrightarrow> is_hex h2 \<Longrightarrow> is_hex h3 \<Longrightarrow> is_hex h4 \<Longrightarrow>
     scan_str (CHR 0x5C # CHR ''u'' # h1 # h2 # h3 # h4 # q) = scan_str q"
  "c \<noteq> CHR 0x22 \<Longrightarrow> c \<noteq> CHR 0x5C \<Longrightarrow> \<not> (of_char c :: nat) < 32 \<Longrightarrow>
     scan_str (c # q) = scan_str q"
  by (simp_all add: scan_str.simps(2) simple_escapes_def)

lemma scan_str_induct [consumes 1, case_names close escape unicode plain]:
  assumes "scan_str s = Some r"
    and "P (CHR 0x22 # r)"
    and "\<And>e q. e \<in> set simple_escapes \<Longrightarrow> scan_str q = Some r \<Longrightarrow> P q \<Longrightarrow> P (CHR 0x5C # e # q)"
    and "\<And>h1 h2 h3 h4 q. is_hex h1 \<Longrightarrow> is_hex h2 \<Longrightarrow> is_hex h3 \<Longrightarrow> is_hex h4 \<Longrightarrow>
      scan_str q = Some r \<Longrightarrow> P q \<Longrightarrow> P (CHR 0x5C # CHR ''u'' # h1 # h2 # h3 # h4 # q)"
    and "\<And>c q. c \<noteq> CHR 0x22 \<Longrightarrow> c \<noteq> CHR 0x5C \<Longrightarrow> \<not> (of_char c :: nat) < 32 \<Longrightarrow>
      scan_str q = Some r \<Longrightarrow> P q \<Longrightarrow> P (c # q)"
  shows "P s"
  using assms(1)
proof (induction s rule: length_induct)
  case (1 s)
  then obtain c cs where s: "s = c # cs" by (cases s) auto
  have IH: "length q < length s \<Longrightarrow> scan_str q = Some r \<Longrightarrow> P q" for q using 1 by blast
  have "scan_str (c # cs) = Some r" using 1 s by blast
  then show ?case
  proof (cases rule: scan_str_cases)
    case close
    then show ?thesis using assms(2) s by simp
  next
    case (escape e q)
    then show ?thesis unfolding s using assms(3) [of e q] IH [of q] s by simp
  next
    case (unicode h1 h2 h3 h4 q)
    then show ?thesis unfolding s using assms(4) [of h1 h2 h3 h4 q] IH [of q] s by simp
  next
    case plain
    then show ?thesis unfolding s using assms(5) [of c cs] IH [of cs] s by simp
  qed
qed

lemma u_not_simple [simp]: "CHR ''u'' \<notin> set simple_escapes"
  by (simp add: simple_escapes_def)

lemma scan_str_suffix: "scan_str s = Some r \<Longrightarrow> \<exists>p. s = p @ CHR 0x22 # r"
proof (induction rule: scan_str_induct)
  case close
  show ?case by (rule exI [of _ "[]"]) simp
next
  case (escape e q)
  then show ?case by (metis append_Cons)
next
  case (unicode h1 h2 h3 h4 q)
  then show ?case by (metis append_Cons)
next
  case (plain c q)
  then show ?case by (metis append_Cons)
qed

lemma scan_str_length: "scan_str s = Some r \<Longrightarrow> length r < length s"
  by (auto dest!: scan_str_suffix)

lemma scan_str_append: "scan_str s = Some r \<Longrightarrow> scan_str (s @ t) = Some (r @ t)"
  by (induction rule: scan_str_induct) simp_all

text \<open>Characters that can continue a number.\<close>

definition num_char :: "char \<Rightarrow> bool" where
  "num_char c \<longleftrightarrow> is_digit c \<or> c \<in> set ''.eE+-''"

definition tail_ok :: "string \<Rightarrow> string \<Rightarrow> bool" where
  "tail_ok r t \<longleftrightarrow> r \<noteq> [] \<or> t = [] \<or> \<not> num_char (hd t)"

lemma dropWhile_append_tail:
  "tail_ok (dropWhile is_digit r) t \<Longrightarrow> dropWhile is_digit (r @ t) = dropWhile is_digit r @ t"
  by (induction r) (cases t; auto simp: tail_ok_def num_char_def)+

lemma scan_digits1_append:
  "scan_digits1 s = Some r \<Longrightarrow> tail_ok r t \<Longrightarrow> scan_digits1 (s @ t) = Some (r @ t)"
  by (auto simp: scan_digits1_def dropWhile_append_tail split: list.splits if_splits)

lemma scan_int_append:
  "scan_int s = Some r \<Longrightarrow> tail_ok r t \<Longrightarrow> scan_int (s @ t) = Some (r @ t)"
  by (auto simp: scan_int_def dropWhile_append_tail split: list.splits if_splits)

lemma scan_frac_append:
  "scan_frac s = Some r \<Longrightarrow> tail_ok r t \<Longrightarrow> scan_frac (s @ t) = Some (r @ t)"
  by (cases s; cases t)
    (auto simp: scan_frac_def tail_ok_def num_char_def scan_digits1_append split: if_splits)

lemma scan_exp_append:
  "scan_exp s = Some r \<Longrightarrow> tail_ok r t \<Longrightarrow> scan_exp (s @ t) = Some (r @ t)"
  by (cases s; cases t)
    (auto simp: scan_exp_def tail_ok_def num_char_def
      dest: scan_digits1_append [of _ r t] split: if_splits list.splits)

lemma scan_digits1_length: "scan_digits1 s = Some r \<Longrightarrow> length r < length s"
  by (auto simp: scan_digits1_def less_Suc_eq_le length_dropWhile_le split: list.splits if_splits)

lemma scan_int_length: "scan_int s = Some r \<Longrightarrow> length r < length s"
  by (auto simp: scan_int_def less_Suc_eq_le length_dropWhile_le split: list.splits if_splits)

lemma scan_frac_length: "scan_frac s = Some r \<Longrightarrow> length r \<le> length s"
  by (auto simp: scan_frac_def split: list.splits if_splits dest: scan_digits1_length)

lemma scan_exp_length: "scan_exp s = Some r \<Longrightarrow> length r \<le> length s"
  by (auto simp: scan_exp_def split: list.splits if_splits dest: scan_digits1_length)

lemma tail_ok_mono: "tail_ok r t \<Longrightarrow> length r \<le> length r' \<Longrightarrow> tail_ok r' t"
  by (auto simp: tail_ok_def)

lemma scan_num_append:
  assumes "scan_num s = Some r" "tail_ok r t"
  shows "scan_num (s @ t) = Some (r @ t)"
proof -
  let ?s = "case s of [] \<Rightarrow> [] | c # r \<Rightarrow> if c = CHR ''-'' then r else s"
  obtain r1 r2 where 1: "scan_int ?s = Some r1" and 2: "scan_frac r1 = Some r2"
    and 3: "scan_exp r2 = Some r"
    using assms by (auto simp: scan_num_def Let_def split: option.splits)
  have t2: "tail_ok r2 t" using assms(2) scan_exp_length [OF 3] by (rule tail_ok_mono)
  have t1: "tail_ok r1 t" using t2 scan_frac_length [OF 2] by (rule tail_ok_mono)
  have "s \<noteq> []" using 1 by (auto simp: scan_int_def)
  then have "(case s @ t of [] \<Rightarrow> [] | c # r \<Rightarrow> if c = CHR ''-'' then r else s @ t) = ?s @ t"
    by (auto split: list.splits)
  then show ?thesis
    using scan_int_append [OF 1 t1] scan_frac_append [OF 2 t2] scan_exp_append [OF 3 assms(2)]
    by (simp add: scan_num_def Let_def)
qed

lemma scan_num_length: "scan_num s = Some r \<Longrightarrow> length r < length s"
  by (auto simp: scan_num_def Let_def split: option.splits list.splits if_splits
      dest!: scan_int_length scan_frac_length scan_exp_length)

lemma scan_lit_append: "scan_lit l s = Some r \<Longrightarrow> scan_lit l (s @ t) = Some (r @ t)"
  by (auto simp: scan_lit_def HasPrefix_iff split: if_splits)

lemma scan_lit_length: "scan_lit l s = Some r \<Longrightarrow> l \<noteq> [] \<Longrightarrow> length r < length s"
  by (auto simp: scan_lit_def HasPrefix_iff split: if_splits)

section \<open>Eliminations\<close>

lemma scan_elems_cases [consumes 1, case_names more last]:
  assumes "scan_elems n s = Some (vs, t)"
  obtains k r r' vs' where "n = Suc k" "scan_value k (skip_ws s) = Some r"
      "expect (CHR '','') r = Some r'" "scan_elems k r' = Some (vs', t)"
      "vs = raw_of (skip_ws s) r # vs'"
  | k r where "n = Suc k" "scan_value k (skip_ws s) = Some r" "expect (CHR '','') r = None"
      "expect (CHR '']'') r = Some t" "vs = [raw_of (skip_ws s) r]"
  using assms by (cases n) (auto simp: scan_elems.simps(2) Let_def split: option.splits)

lemma scan_members_cases [consumes 1, case_names more last]:
  assumes "scan_members n s = Some (ms, t)"
  obtains k b r0 s1 r r' ms' where "n = Suc k" "expect (CHR 0x22) s = Some b"
      "scan_str b = Some r0" "expect (CHR '':'') r0 = Some s1"
      "scan_value k (skip_ws s1) = Some r" "expect (CHR '','') r = Some r'"
      "scan_members k r' = Some (ms', t)"
      "ms = (butlast (raw_of b r0), raw_of (skip_ws s1) r) # ms'"
  | k b r0 s1 r where "n = Suc k" "expect (CHR 0x22) s = Some b"
      "scan_str b = Some r0" "expect (CHR '':'') r0 = Some s1"
      "scan_value k (skip_ws s1) = Some r" "expect (CHR '','') r = None"
      "expect (CHR ''}'') r = Some t" "ms = [(butlast (raw_of b r0), raw_of (skip_ws s1) r)]"
  using assms by (cases n) (auto simp: scan_members.simps(2) Let_def split: option.splits)

lemma scan_value_cases [consumes 1, case_names str arr0 arr obj0 obj lit num]:
  assumes "scan_value n s = Some r"
  obtains k cs where "n = Suc k" "skip_ws s = CHR 0x22 # cs" "scan_str cs = Some r"
  | k cs where "n = Suc k" "skip_ws s = CHR ''['' # cs" "expect (CHR '']'') cs = Some r"
  | k cs vs where "n = Suc k" "skip_ws s = CHR ''['' # cs" "expect (CHR '']'') cs = None"
      "scan_elems k cs = Some (vs, r)"
  | k cs where "n = Suc k" "skip_ws s = CHR ''{'' # cs" "expect (CHR ''}'') cs = Some r"
  | k cs ms where "n = Suc k" "skip_ws s = CHR ''{'' # cs" "expect (CHR ''}'') cs = None"
      "scan_members k cs = Some (ms, r)"
  | k l where "n = Suc k" "l \<in> {''true'', ''false'', ''null''}" "skip_ws s = l @ r"
  | k c cs where "n = Suc k" "skip_ws s = c # cs" "c \<notin> set (CHR 0x22 # ''[{tfn'')"
      "scan_num (c # cs) = Some r"
proof (cases n)
  case (Suc k)
  then obtain c cs where s: "skip_ws s = c # cs"
    using assms by (cases "skip_ws s") (auto simp: scan_value.simps(2))
  have lit: "scan_lit l (c # cs) = Some r \<Longrightarrow> c # cs = l @ r" for l
    by (auto simp: scan_lit_def HasPrefix_iff split: if_splits)
  show ?thesis
    using assms Suc s that lit
    by (auto simp: scan_value.simps(2) split: if_splits option.splits)
qed (use assms in simp)

lemma skip_ws_less: "skip_ws s = c # cs \<Longrightarrow> length cs < length s"
  using skip_ws_length [of s] by simp

lemma scan_length:
  "scan_value n s = Some r \<Longrightarrow> length r < length s"
  "scan_elems n s = Some (vs, t) \<Longrightarrow> length t < length s"
  "scan_members n s = Some (ms, t) \<Longrightarrow> length t < length s"
proof (induction n arbitrary: s r vs t ms)
  case (Suc n)
  note [dest] = expect_length scan_str_length scan_num_length skip_ws_less
  {
    case 1
    then show ?case
    proof (cases rule: scan_value_cases)
      case (lit k l)
      then have "length r < length (skip_ws s)" by auto
      then show ?thesis by (rule less_le_trans [OF _ skip_ws_length])
    next
      case (num k c cs)
      then have "length r < length (skip_ws s)" by auto
      then show ?thesis by (rule less_le_trans [OF _ skip_ws_length])
    qed (use Suc.IH in \<open>fastforce\<close>)+
  next
    case 2
    then show ?case
    proof (cases rule: scan_elems_cases)
      case (more k r r' vs')
      then have "length r < length (skip_ws s)" "length t < length r'" "length r' < length r"
        using Suc.IH by auto
      then show ?thesis using skip_ws_length [of s] by linarith
    next
      case (last k r)
      then have "length r < length (skip_ws s)" "length t < length r"
        using Suc.IH by auto
      then show ?thesis using skip_ws_length [of s] by linarith
    qed
  next
    case 3
    then show ?case
    proof (cases rule: scan_members_cases)
      case (more k b r0 s1 r r' ms')
      then have "length r < length (skip_ws s1)" "length t < length r'" "length r' < length r"
          "length s1 < length r0" "length r0 < length b" "length b < length s"
        using Suc.IH by auto
      then show ?thesis using skip_ws_length [of s1] by linarith
    next
      case (last k b r0 s1 r)
      then have "length r < length (skip_ws s1)" "length t < length r"
          "length s1 < length r0" "length r0 < length b" "length b < length s"
        using Suc.IH by auto
      then show ?thesis using skip_ws_length [of s1] by linarith
    qed
  }
qed simp_all

section \<open>Enough fuel\<close>

text \<open>
  A scan that succeeds with some fuel succeeds with any fuel above twice the length of the
  text: the fuel never decides what the scanner accepts.
\<close>

lemma scan_enough:
  "scan_value n s = Some r \<Longrightarrow> 2 * length s < m \<Longrightarrow> scan_value m s = Some r"
  "scan_elems n s = Some x \<Longrightarrow> 2 * length s + 1 < m \<Longrightarrow> scan_elems m s = Some x"
  "scan_members n s = Some y \<Longrightarrow> 2 * length s + 1 < m \<Longrightarrow> scan_members m s = Some y"
proof (induction n arbitrary: s r x y m)
  case (Suc n)
  {
    case 1
    then obtain m' where m: "m = Suc m'" by (cases m) auto
    have sub: "skip_ws s = c # cs \<Longrightarrow> 2 * length cs + 1 < m'" for c cs
      using 1 m skip_ws_less [of s c cs] by simp
    from 1(1) show ?case
    proof (cases rule: scan_value_cases)
      case (arr k cs vs)
      then have "scan_elems m' cs = Some (vs, r)" using Suc.IH(2) sub by blast
      then show ?thesis using arr m by (simp add: scan_value.simps(2))
    next
      case (obj k cs ms)
      then have "scan_members m' cs = Some (ms, r)" using Suc.IH(3) sub by blast
      then show ?thesis using obj m by (simp add: scan_value.simps(2))
    next
      case (lit k l)
      then show ?thesis using m
        by (auto simp: scan_value.simps(2) scan_lit_def HasPrefix_def)
    qed (auto simp: m scan_value.simps(2))
  next
    case 2
    then obtain m' vs t where m: "m = Suc m'" and x: "x = (vs, t)" by (cases m; cases x) auto
    have le: "2 * length (skip_ws s) < m'"
      using 2(2) m skip_ws_length [of s] by linarith
    from 2(1) x have "scan_elems (Suc n) s = Some (vs, t)" by simp
    then show ?case
    proof (cases rule: scan_elems_cases)
      case (more k r r' vs')
      have "length r' < length r" "length r < length (skip_ws s)"
        using more scan_length(1) expect_length by blast+
      then have "2 * length r' + 1 < m'" using le by linarith
      then have "scan_elems m' r' = Some (vs', t)" "scan_value m' (skip_ws s) = Some r"
        using more Suc.IH(1,2) le by blast+
      then show ?thesis
        using more m x by (simp add: scan_elems.simps(2) Let_def)
    next
      case (last k r)
      then have "scan_value m' (skip_ws s) = Some r" using Suc.IH(1) le by blast
      then show ?thesis using last m x by (simp add: scan_elems.simps(2) Let_def)
    qed
  next
    case 3
    then obtain m' ms t where m: "m = Suc m'" and y: "y = (ms, t)" by (cases m; cases y) auto
    from 3(1) y have "scan_members (Suc n) s = Some (ms, t)" by simp
    then show ?case
    proof (cases rule: scan_members_cases)
      case (more k b r0 s1 r r' ms')
      have l: "length s1 < length s"
        using more expect_length scan_str_length by (meson less_trans)
      then have le: "2 * length (skip_ws s1) < m'"
        using 3(2) m skip_ws_length [of s1] by linarith
      have "length r' < length r" "length r < length (skip_ws s1)"
        using more scan_length(1) expect_length by blast+
      then have "2 * length r' + 1 < m'" using le by linarith
      then have "scan_members m' r' = Some (ms', t)" "scan_value m' (skip_ws s1) = Some r"
        using more Suc.IH(1,3) le by blast+
      then show ?thesis
        using more m y by (simp add: scan_members.simps(2) Let_def)
    next
      case (last k b r0 s1 r)
      have l: "length s1 < length s"
        using last expect_length scan_str_length by (meson less_trans)
      then have le: "2 * length (skip_ws s1) < m'"
        using 3(2) m skip_ws_length [of s1] by linarith
      then have "scan_value m' (skip_ws s1) = Some r" using last Suc.IH(1) by blast
      then show ?thesis
        using last m y by (simp add: scan_members.simps(2) Let_def)
    qed
  }
qed simp_all

lemma json_scan_iff: "json_scan s = Some r \<longleftrightarrow> (\<exists>n. scan_value n s = Some r)"
  unfolding json_scan_def using scan_enough(1) by (metis lessI)

section \<open>A value in front of other text\<close>

lemma raw_of_append: "length r \<le> length s \<Longrightarrow> raw_of (s @ t) (r @ t) = raw_of s r"
  by (simp add: raw_of_def)

lemma scan_skip_nonempty:
  "scan_value n s = Some r \<Longrightarrow> skip_ws s \<noteq> []"
  "scan_elems n s = Some x \<Longrightarrow> skip_ws s \<noteq> []"
  "scan_members n s = Some y \<Longrightarrow> skip_ws s \<noteq> []"
proof -
  show v: "scan_value n s = Some r \<Longrightarrow> skip_ws s \<noteq> []" for n s r
    by (erule scan_value_cases) auto
  show "scan_elems n s = Some x \<Longrightarrow> skip_ws s \<noteq> []"
  proof (cases x)
    case (Pair vs t)
    assume "scan_elems n s = Some x"
    then obtain k r where "scan_value k (skip_ws s) = Some r"
      unfolding Pair by (rule scan_elems_cases)
    then have "skip_ws (skip_ws s) \<noteq> []" by (rule v)
    then show ?thesis by simp
  qed
  show "scan_members n s = Some y \<Longrightarrow> skip_ws s \<noteq> []"
    by (cases y, simp only:, erule scan_members_cases) (simp_all add: expect_Some)
qed

lemma scan_append:
  "scan_value n s = Some r \<Longrightarrow> tail_ok r t \<Longrightarrow> scan_value n (s @ t) = Some (r @ t)"
  "scan_elems n s = Some (vs, u) \<Longrightarrow> scan_elems n (s @ t) = Some (vs, u @ t)"
  "scan_members n s = Some (ms, u) \<Longrightarrow> scan_members n (s @ t) = Some (ms, u @ t)"
proof (induction n arbitrary: s r vs u ms)
  case (Suc n)
  have nz: "expect c r = Some r' \<Longrightarrow> tail_ok r t" for c r r'
    by (auto simp: tail_ok_def dest!: expect_length)
  {
    case 1
    have sk: "skip_ws (s @ t) = skip_ws s @ t"
      using 1(1) scan_skip_nonempty(1) skip_ws_append by blast
    from 1(1) show ?case
    proof (cases rule: scan_value_cases)
      case (arr k cs vs)
      then have "scan_elems n (cs @ t) = Some (vs, r @ t)" using Suc.IH(2) by blast
      then show ?thesis
        using arr expect_None_append [OF arr(3)] scan_skip_nonempty(2) [OF arr(4)]
        by (simp add: scan_value.simps(2) sk)
    next
      case (obj k cs ms)
      then have "scan_members n (cs @ t) = Some (ms, r @ t)" using Suc.IH(3) by blast
      then show ?thesis
        using obj expect_None_append [OF obj(3)] scan_skip_nonempty(3) [OF obj(4)]
        by (simp add: scan_value.simps(2) sk)
    next
      case (lit k l)
      then show ?thesis by (auto simp: scan_value.simps(2) sk scan_lit_def HasPrefix_def)
    next
      case (num k c cs)
      then show ?thesis
        using scan_num_append [OF num(4) 1(2)] by (simp add: scan_value.simps(2) sk)
    qed (simp_all add: scan_value.simps(2) sk scan_str_append expect_append)
  next
    case 2
    have sk: "skip_ws (s @ t) = skip_ws s @ t"
      using 2(1) scan_skip_nonempty(2) skip_ws_append by blast
    from 2(1) show ?case
    proof (cases rule: scan_elems_cases)
      case (more k r r' vs')
      then have "scan_value n (skip_ws s @ t) = Some (r @ t)"
          "scan_elems n (r' @ t) = Some (vs', u @ t)"
        using Suc.IH(1,2) nz by blast+
      then show ?thesis
        using more scan_length(1) [OF more(2)]
        by (simp add: scan_elems.simps(2) sk Let_def expect_append raw_of_append)
    next
      case (last k r)
      then have "skip_ws r \<noteq> []" by (simp add: expect_Some)
      moreover have "scan_value n (skip_ws s @ t) = Some (r @ t)"
        using last Suc.IH(1) nz by blast
      ultimately show ?thesis
        using last scan_length(1) [OF last(2)]
        by (simp add: scan_elems.simps(2) sk Let_def expect_append expect_None_append raw_of_append)
    qed
  next
    case 3
    from 3(1) show ?case
    proof (cases rule: scan_members_cases)
      case (more k b r0 s1 r r' ms')
      have sk: "skip_ws (s1 @ t) = skip_ws s1 @ t"
        using scan_skip_nonempty(1) [OF more(5)] skip_ws_append [of s1] by simp
      moreover have "scan_value n (skip_ws s1 @ t) = Some (r @ t)"
          "scan_members n (r' @ t) = Some (ms', u @ t)"
        using more Suc.IH(1,3) nz by blast+
      ultimately show ?thesis
        using more scan_length(1) [OF more(5)] scan_str_length [OF more(3)]
        by (simp add: scan_members.simps(2) sk Let_def expect_append scan_str_append raw_of_append)
    next
      case (last k b r0 s1 r)
      then have "skip_ws r \<noteq> []" by (simp add: expect_Some)
      moreover have sk: "skip_ws (s1 @ t) = skip_ws s1 @ t"
        using scan_skip_nonempty(1) [OF last(5)] skip_ws_append [of s1] by simp
      moreover have "scan_value n (skip_ws s1 @ t) = Some (r @ t)"
        using last Suc.IH(1) nz by blast
      ultimately show ?thesis
        using last scan_length(1) [OF last(5)] scan_str_length [OF last(3)]
        by (simp add: scan_members.simps(2) sk Let_def expect_append expect_None_append
            scan_str_append raw_of_append)
    qed
  }
qed simp_all

section \<open>Strings are read back\<close>

lemma is_hex_digit_char [simp]: "d < 16 \<Longrightarrow> is_hex (digit_char d)"
  by (simp add: is_hex_def digit_val_digit_char)

lemma is_hex_zero [simp]: "is_hex (CHR ''0'')"
  by (simp add: is_hex_def digit_val_def)

lemma char_div16 [simp]: "(of_char (c :: char) :: nat) div 16 < 16"
  by (simp add: less_mult_imp_div_less)

lemma scan_str_encode_char [simp]: "scan_str (encode_char c @ q) = scan_str q"
  by (simp add: encode_char_def simple_escapes_def)

lemma unquote_simps [simp]:
  "c \<noteq> CHR 0x5C \<Longrightarrow> unquote (c # q) = c # unquote q"
  "e \<noteq> CHR ''u'' \<Longrightarrow> unquote (CHR 0x5C # e # q) = unescape1 e # unquote q"
  "\<not> is_surrogate (hex4 h1 h2 h3 h4) \<Longrightarrow>
     unquote (CHR 0x5C # CHR ''u'' # h1 # h2 # h3 # h4 # q) = utf8_encode (hex4 h1 h2 h3 h4) @ unquote q"
  by (simp_all add: unquote.simps(2))

lemma hex4_low:
  "a < 16 \<Longrightarrow> b < 16 \<Longrightarrow> hex4 (CHR ''0'') (CHR ''0'') (digit_char a) (digit_char b) = 16 * a + b"
  by (simp add: hex4_def digit_val_digit_char) (simp add: digit_val_def)

lemma unquote_encode_char [simp]: "unquote (encode_char c @ q) = c # unquote q"
proof -
  let ?n = "of_char c :: nat"
  have h: "hex4 (CHR ''0'') (CHR ''0'') (digit_char (?n div 16)) (digit_char (?n mod 16)) = ?n"
    by (subst hex4_low) simp_all
  have "?n < 128 \<Longrightarrow> utf8_encode ?n = [c]" by (simp add: utf8_encode.simps)
  moreover have "?n < 128 \<Longrightarrow> \<not> is_surrogate ?n" by (simp add: is_surrogate_def)
  ultimately show ?thesis
    using h by (auto simp: encode_char_def unescape1_def)
qed

lemma scan_str_encode: "scan_str (encode_body s @ CHR 0x22 # t) = Some t"
  by (induction s) (simp_all add: encode_body_def)

lemma unquote_encode [simp]: "unquote (encode_body s) = s"
proof -
  have "unquote (encode_body s @ t) = s @ unquote t" for t
    by (induction s) (simp_all add: encode_body_def)
  from this [of "[]"] show ?thesis by simp
qed

lemma raw_of_self [simp]: "raw_of (a @ t) t = a"
  by (simp add: raw_of_def)

lemma skip_ws_quote [simp]: "skip_ws (CHR 0x22 # t) = CHR 0x22 # t"
  by (simp add: skip_ws_def is_jws_def)

lemma string_of_lit_quote [simp]: "string_of_lit (json_quote s) = s"
proof -
  have "raw_of (encode_body s @ [CHR 0x22]) [] = encode_body s @ [CHR 0x22]"
    by (simp add: raw_of_def)
  then show ?thesis
    using scan_str_encode [of s "[]"]
    by (simp add: string_of_lit_def json_quote_def expect_def)
qed

section \<open>Arrays and objects are read back\<close>

definition compact :: "raw \<Rightarrow> bool" where
  "compact v \<longleftrightarrow> v \<noteq> [] \<and> \<not> is_jws (hd v) \<and> json_scan v = Some []"

lemma compact_skip [simp]: "compact v \<Longrightarrow> skip_ws (v @ t) = v @ t"
  by (intro skip_ws_nonws) (auto simp: compact_def)

lemma compact_scan: "compact v \<Longrightarrow> 2 * length v < n \<Longrightarrow> tail_ok [] t \<Longrightarrow> scan_value n (v @ t) = Some t"
proof -
  assume c: "compact v" and n: "2 * length v < n" and t: "tail_ok [] t"
  from c obtain m where "scan_value m v = Some []" by (auto simp: compact_def json_scan_iff)
  then have "scan_value n v = Some []" using n by (rule scan_enough(1))
  then show ?thesis using scan_append(1) t by fastforce
qed

lemma scan_num_first: "scan_num (c # cs) = Some r \<Longrightarrow> c = CHR ''-'' \<or> is_digit c"
  by (auto simp: scan_num_def scan_int_def is_digit_def split: option.splits if_splits list.splits)

lemma compact_not_closing: "compact v \<Longrightarrow> v = c # cs \<Longrightarrow> c \<noteq> CHR '']'' \<and> c \<noteq> CHR ''}''"
proof -
  assume v: "compact v" "v = c # cs"
  have sk: "skip_ws v = c # cs" using compact_skip [OF v(1), of "[]"] v(2) by simp
  from v obtain n where "scan_value n v = Some []" by (auto simp: compact_def json_scan_iff)
  then show ?thesis
  proof (cases rule: scan_value_cases)
    case (num k d ds)
    have "d = c" using num(2) sk by simp
    then have "c = CHR ''-'' \<or> is_digit c" using scan_num_first [OF num(4)] by simp
    then show ?thesis by (auto simp: is_digit_def)
  next
    case (lit k l)
    then show ?thesis using sk by auto
  qed (use sk in simp_all)
qed

lemma tail_ok_punct [simp]: "c \<in> set '',]}'' \<Longrightarrow> tail_ok [] (c # t)"
  by (auto simp: tail_ok_def num_char_def is_digit_def)

lemma expect_hd [simp]: "\<not> is_jws c \<Longrightarrow> expect d (c # r) = (if c = d then Some r else None)"
  by (simp add: expect_def skip_ws_def)

lemma is_jws_punct [simp]: "\<not> is_jws (CHR '','')" "\<not> is_jws (CHR '']'')" "\<not> is_jws (CHR ''}'')"
    "\<not> is_jws (CHR ''['')" "\<not> is_jws (CHR ''{'')" "\<not> is_jws (CHR '':'')" "\<not> is_jws (CHR 0x22)"
  by (simp_all add: is_jws_def)

lemma scan_elems_render:
  "vs \<noteq> [] \<Longrightarrow> \<forall>v \<in> set vs. compact v \<Longrightarrow>
   2 * length (join_with (CHR '','') vs) + 1 < n \<Longrightarrow>
   scan_elems n (join_with (CHR '','') vs @ CHR '']'' # t) = Some (vs, t)"
proof (induction vs arbitrary: n rule: list_nonempty_induct)
  case (single v)
  then obtain k where "n = Suc k" by (cases n) auto
  with single show ?case by (simp add: scan_elems.simps(2) compact_scan)
next
  case (cons v vs)
  then obtain k where n: "n = Suc k" by (cases n) auto
  have j: "join_with (CHR '','') (v # vs) = v @ CHR '','' # join_with (CHR '','') vs"
    using cons(1) by (cases vs) auto
  have "scan_elems k (join_with (CHR '','') vs @ CHR '']'' # t) = Some (vs, t)"
    using cons j n by (intro cons.IH) auto
  moreover have "scan_value k (v @ CHR '','' # join_with (CHR '','') vs @ CHR '']'' # t) =
      Some (CHR '','' # join_with (CHR '','') vs @ CHR '']'' # t)"
    using cons j n by (intro compact_scan) auto
  ultimately show ?case
    using cons.prems unfolding n j by (simp add: scan_elems.simps(2))
qed

lemma scan_members_step:
  assumes "compact v" "2 * length v < k" "tail_ok [] u"
  shows "scan_members (Suc k) (render_member (x, v) @ u) =
    (case expect (CHR '','') u of
       Some r' \<Rightarrow> map_option (\<lambda>(ms, t). ((encode_body x, v) # ms, t)) (scan_members k r')
     | None \<Rightarrow> map_option (\<lambda>r'. ([(encode_body x, v)], r')) (expect (CHR ''}'') u))"
proof -
  have r: "raw_of (encode_body x @ CHR 0x22 # CHR '':'' # v @ u) (CHR '':'' # v @ u) =
      encode_body x @ [CHR 0x22]"
    using raw_of_self [of "encode_body x @ [CHR 0x22]" "CHR '':'' # v @ u"] by simp
  show ?thesis
    using assms
    by (cases "expect (CHR '','') u") (simp_all add: scan_members.simps(2) render_member_def
        json_quote_def scan_str_encode compact_scan r Let_def)
qed

lemma scan_members_render:
  "ms \<noteq> [] \<Longrightarrow> \<forall>(k, v) \<in> set ms. compact v \<Longrightarrow>
   2 * length (join_with (CHR '','') (map render_member ms)) + 1 < n \<Longrightarrow>
   scan_members n (join_with (CHR '','') (map render_member ms) @ CHR ''}'' # t) =
     Some (map (\<lambda>(k, v). (encode_body k, v)) ms, t)"
proof (induction ms arbitrary: n rule: list_nonempty_induct)
  case (single m)
  then obtain k x v where "n = Suc k" "m = (x, v)" by (cases n; cases m) auto
  with single show ?case
    using scan_members_step [of v k "CHR ''}'' # t" x] by (simp add: render_member_def)
next
  case (cons m ms)
  then obtain k x v where n: "n = Suc k" and m: "m = (x, v)" by (cases n; cases m) auto
  have j: "join_with (CHR '','') (map render_member (m # ms)) =
      render_member m @ CHR '','' # join_with (CHR '','') (map render_member ms)"
    using cons(1) by (cases ms) auto
  have "scan_members k (join_with (CHR '','') (map render_member ms) @ CHR ''}'' # t) =
      Some (map (\<lambda>(k, v). (encode_body k, v)) ms, t)"
    using cons j n by (intro cons.IH) auto
  moreover have "2 * length v < k"
    using cons.prems(2) unfolding j n by (simp add: m render_member_def)
  ultimately show ?case
    using cons.prems scan_members_step
      [of v k "CHR '','' # join_with (CHR '','') (map render_member ms) @ CHR ''}'' # t" x]
    unfolding n j by (simp add: m)
qed

lemma hd_join_compact:
  assumes "vs \<noteq> []" "\<forall>v \<in> set vs. compact v"
  shows "expect (CHR '']'') (join_with (CHR '','') vs @ u) = None"
proof -
  obtain v ws where vs: "vs = v # ws" using assms(1) by (cases vs) auto
  then obtain c cs where v: "v = c # cs" using assms(2) by (cases v) (auto simp: compact_def)
  have "\<exists>w. join_with (CHR '','') vs @ u = c # w" unfolding vs v by (cases ws) auto
  moreover have "c \<noteq> CHR '']''" "\<not> is_jws c"
    using compact_not_closing [of v] assms(2) vs v by (auto simp: compact_def)
  ultimately show ?thesis by auto
qed

lemma json_array_render:
  assumes "\<forall>v \<in> set vs. compact v"
  shows "json_array (render_array vs) = Some vs" "compact (render_array vs)"
proof -
  let ?j = "join_with (CHR '','') vs"
  have e: "vs \<noteq> [] \<Longrightarrow> 2 * length ?j + 1 < n \<Longrightarrow> scan_elems n (?j @ '']'') = Some (vs, [])" for n
    using scan_elems_render assms by blast
  have x: "vs \<noteq> [] \<Longrightarrow> expect (CHR '']'') (?j @ '']'') = None"
    using hd_join_compact assms by blast
  show "json_array (render_array vs) = Some vs"
    using e x by (cases "vs = []") (simp_all add: json_array_def render_array_def)
  have "skip_ws (render_array vs) = render_array vs"
    by (simp add: render_array_def skip_ws_def)
  then have "json_scan (render_array vs) = Some []"
    unfolding json_scan_def scan_value.simps(2)
    using e x by (cases "vs = []") (simp_all add: render_array_def)
  then show "compact (render_array vs)" by (simp add: compact_def render_array_def)
qed

lemma json_object_render:
  assumes "\<forall>(k, v) \<in> set ms. compact v"
  shows "json_object (render_object ms) = Some (map (\<lambda>(k, v). (encode_body k, v)) ms)"
    "compact (render_object ms)"
proof -
  let ?j = "join_with (CHR '','') (map render_member ms)"
  have e: "ms \<noteq> [] \<Longrightarrow> 2 * length ?j + 1 < n \<Longrightarrow>
      scan_members n (?j @ ''}'') = Some (map (\<lambda>(k, v). (encode_body k, v)) ms, [])" for n
    using scan_members_render assms by blast
  have x: "ms \<noteq> [] \<Longrightarrow> expect (CHR ''}'') (?j @ ''}'') = None"
  proof -
    assume "ms \<noteq> []"
    then obtain w where "?j @ ''}'' = CHR 0x22 # w"
      by (cases ms; cases "tl ms") (auto simp: render_member_def json_quote_def)
    then show ?thesis by simp
  qed
  show "json_object (render_object ms) = Some (map (\<lambda>(k, v). (encode_body k, v)) ms)"
    using e x by (cases "ms = []") (simp_all add: json_object_def render_object_def)
  have "skip_ws (render_object ms) = render_object ms"
    by (simp add: render_object_def skip_ws_def)
  then have "json_scan (render_object ms) = Some []"
    unfolding json_scan_def scan_value.simps(2)
    using e x by (cases "ms = []") (simp_all add: render_object_def)
  then show "compact (render_object ms)" by (simp add: compact_def render_object_def)
qed

lemma compact_quote [simp]: "compact (json_quote s)"
  using scan_str_encode [of s "[]"]
  by (simp add: compact_def json_quote_def json_scan_def scan_value.simps(2))

lemma compact_valid: "compact v \<Longrightarrow> json_valid v"
  by (auto simp: compact_def json_valid_def skip_ws_def)

end
