(* ===== verification/Errors.thy ===== *)
theory Errors
  imports Prelude
begin

text \<open>
  The error values of the RPC package (\<^verbatim>\<open>src/rpc/errors.go\<close>), the \<^verbatim>\<open>Error\<close> interface they
  implement (\<^verbatim>\<open>src/rpc/types.go\<close>) and the constants of \<^verbatim>\<open>src/rpc/json.go\<close> their texts use.
  Each Go struct that implements the interface is one constructor.
\<close>

definition jsonrpcVersion :: string where
  "jsonrpcVersion = ''2.0''"

definition serviceMethodSeparator :: string where
  "serviceMethodSeparator = ''_''"

definition subscribeMethodSuffix :: string where
  "subscribeMethodSuffix = ''_subscribe''"

definition unsubscribeMethodSuffix :: string where
  "unsubscribeMethodSuffix = ''_unsubscribe''"

definition notificationMethodSuffix :: string where
  "notificationMethodSuffix = ''_subscription''"

datatype rpc_error =
    methodNotFoundError (service: string) (method_name: string)
  | invalidRequestError (message: string)
  | invalidMessageError (message: string)
  | invalidParamsError (message: string)
  | callbackError (message: string)
  | shutdownError

fun ErrorCode :: "rpc_error \<Rightarrow> int" where
  "ErrorCode (methodNotFoundError _ _) = -32601"
| "ErrorCode (invalidRequestError _) = -32600"
| "ErrorCode (invalidMessageError _) = -32700"
| "ErrorCode (invalidParamsError _) = -32602"
| "ErrorCode (callbackError _) = -32000"
| "ErrorCode shutdownError = -32000"

fun ErrorText :: "rpc_error \<Rightarrow> string" where
  "ErrorText (methodNotFoundError svc m) =
     ''The method '' @ svc @ serviceMethodSeparator @ m @ '' does not exist/is not available''"
| "ErrorText (invalidRequestError m) = m"
| "ErrorText (invalidMessageError m) = m"
| "ErrorText (invalidParamsError m) = m"
| "ErrorText (callbackError m) = m"
| "ErrorText shutdownError = ''server is shutting down''"

lemmas suffix_defs = subscribeMethodSuffix_def unsubscribeMethodSuffix_def
  notificationMethodSuffix_def serviceMethodSeparator_def

lemma ErrorCode_reserved: "ErrorCode e \<in> {-32768..-32000}"
  by (cases e) auto

text \<open>No method name carries both the subscribe and the unsubscribe suffix.\<close>

lemma suffixes_exclusive:
  assumes "HasSuffix s unsubscribeMethodSuffix"
  shows "\<not> HasSuffix s subscribeMethodSuffix"
proof
  assume "HasSuffix s subscribeMethodSuffix"
  with assms obtain a b where "a @ unsubscribeMethodSuffix = b @ subscribeMethodSuffix"
    by (auto simp: HasSuffix_iff)
  then have "rev unsubscribeMethodSuffix @ rev a = rev subscribeMethodSuffix @ rev b"
    by (metis rev_append)
  then show False by (simp add: suffix_defs)
qed

end
