(* ===== verification/Reflect.thy ===== *)
theory Reflect
  imports Errors Hexutil
begin

text \<open>
  The reflection helpers of \<^verbatim>\<open>src/rpc/utils.go\<close>: which methods of a registered object become RPC
  callbacks or subscriptions, and the generator of subscription identifiers.

  A Go type is modelled by what \<^verbatim>\<open>reflect.Type\<close> is asked for: pointers are nested, any other type
  has a name, a package path, a kind, and whether it implements \<^verbatim>\<open>error\<close>. A method carries its
  name, its package path (empty when it is exported), the types of its inputs (the receiver
  first) and outputs, and a number that identifies its code.
\<close>

datatype kind = KBool | KInt | KString | KStruct | KSlice | KMap | KInterface | KFunc | KChan

datatype gotype =
    Ptr gotype
  | Ty (Name: string) (PkgPath: string) (Kind: kind) (ImplementsError: bool)

record gomethod =
  mName :: string
  mPkgPath :: string
  mIn :: "gotype list"
  mOut :: "gotype list"
  mFun :: nat

record callback =
  rcvr :: nat
  cmethod :: gomethod
  argTypes :: "gotype list"
  hasCtx :: bool
  errPos :: int
  isSubscribe :: bool

type_synonym callbacks = "string \<rightharpoonup> callback"
type_synonym subscriptions = "string \<rightharpoonup> callback"

section \<open>Classification of types\<close>

fun Elem :: "gotype \<Rightarrow> gotype" where
  "Elem (Ptr t) = Elem t"
| "Elem t = t"

definition contextType :: gotype where
  "contextType = Ty ''Context'' ''context'' KInterface False"

definition errorType :: gotype where
  "errorType = Ty ''error'' '''' KInterface True"

definition subscriptionType :: gotype where
  "subscriptionType = Ty ''Subscription'' ''go-eth/rpc'' KStruct False"

definition isExported :: "string \<Rightarrow> bool" where
  "isExported name \<longleftrightarrow> (case name of [] \<Rightarrow> False | c # _ \<Rightarrow> is_upper c)"

definition isExportedOrBuiltinType :: "gotype \<Rightarrow> bool" where
  "isExportedOrBuiltinType t \<longleftrightarrow> isExported (Name (Elem t)) \<or> PkgPath (Elem t) = ''''"

definition isContextType :: "gotype \<Rightarrow> bool" where
  "isContextType t \<longleftrightarrow> Elem t = contextType"

definition isErrorType :: "gotype \<Rightarrow> bool" where
  "isErrorType t \<longleftrightarrow> ImplementsError (Elem t)"

definition isSubscriptionType :: "gotype \<Rightarrow> bool" where
  "isSubscriptionType t \<longleftrightarrow> Elem t = subscriptionType"

definition isPubSub :: "gomethod \<Rightarrow> bool" where
  "isPubSub m \<longleftrightarrow>
     \<not> (length (mIn m) < 2 \<or> length (mOut m) \<noteq> 2) \<and>
     isContextType (mIn m ! 1) \<and> isSubscriptionType (mOut m ! 0) \<and> isErrorType (mOut m ! 1)"

definition formatName :: "string \<Rightarrow> string" where
  "formatName name = (case name of [] \<Rightarrow> [] | c # cs \<Rightarrow> lower_char c # cs)"

section \<open>Methods that become callbacks\<close>

fun errIndex :: "nat \<Rightarrow> gotype list \<Rightarrow> int" where
  "errIndex i [] = -1"
| "errIndex i (t # ts) = (if isErrorType t then int i else errIndex (Suc i) ts)"

text \<open>
  One turn of the loop over the methods: \<^term>\<open>None\<close> where the code continues with the next
  method, otherwise whether the method is a subscription and the callback to store.
\<close>

definition suitableMethod :: "nat \<Rightarrow> gomethod \<Rightarrow> (bool \<times> callback) option" where
  "suitableMethod rv m =
     (if mPkgPath m \<noteq> '''' then None
      else
        let numIn = length (mIn m);
            ctx = (2 \<le> numIn \<and> mIn m ! 1 = contextType);
            firstArg = (if ctx then 2 else 1);
            args = drop firstArg (mIn m);
            h = \<lparr>rcvr = rv, cmethod = m, argTypes = args, hasCtx = ctx, errPos = -1,
                 isSubscribe = isPubSub m\<rparr>
        in
        if isSubscribe h then
          (if list_all isExportedOrBuiltinType args then Some (True, h) else None)
        else if \<not> list_all isExportedOrBuiltinType args then None
        else if \<not> list_all isExportedOrBuiltinType (mOut m) then None
        else
          let h' = h\<lparr>errPos := errIndex 0 (mOut m)\<rparr>; numOut = int (length (mOut m)) in
          if 0 \<le> errPos h' \<and> errPos h' \<noteq> numOut - 1 then None
          else if numOut \<le> 2 then
            (if numOut = 2 \<and> errPos h' = -1 then None else Some (False, h'))
          else None)"

definition storeMethod ::
  "nat \<Rightarrow> gomethod \<Rightarrow> callbacks \<times> subscriptions \<Rightarrow> callbacks \<times> subscriptions" where
  "storeMethod rv m st =
     (case suitableMethod rv m of
        None \<Rightarrow> st
      | Some (b, h) \<Rightarrow>
          if b then (fst st, (snd st)(formatName (mName m) \<mapsto> h))
          else ((fst st)(formatName (mName m) \<mapsto> h), snd st))"

fun suitableLoop ::
  "nat \<Rightarrow> gomethod list \<Rightarrow> callbacks \<times> subscriptions \<Rightarrow> callbacks \<times> subscriptions" where
  "suitableLoop rv [] st = st"
| "suitableLoop rv (m # ms) st = suitableLoop rv ms (storeMethod rv m st)"

definition suitableCallbacks :: "nat \<Rightarrow> gomethod list \<Rightarrow> callbacks \<times> subscriptions" where
  "suitableCallbacks rv ms = suitableLoop rv ms (Map.empty, Map.empty)"

section \<open>Subscription identifiers\<close>

type_synonym ID = string

text \<open>
  The random source (\<^verbatim>\<open>subscriptionIDGen.Int63\<close>) is the stream \<open>rnd\<close> of its successive values;
  \<open>byte(val); val >>= 8\<close> takes the bytes of a value from the least significant one.
\<close>

fun le_bytes :: "nat \<Rightarrow> nat \<Rightarrow> 8 word list" where
  "le_bytes 0 val = []"
| "le_bytes (Suc k) val = word_of_nat val # le_bytes k (val div 256)"

function newIDBytes :: "(nat \<Rightarrow> nat) \<Rightarrow> nat \<Rightarrow> nat \<Rightarrow> 8 word list" where
  "newIDBytes rnd i draw =
     (if i < 16 then le_bytes (min 7 (16 - i)) (rnd draw) @ newIDBytes rnd (i + 7) (draw + 1)
      else [])"
  by pat_completeness auto
termination
  by (relation "measure (\<lambda>(rnd, i, draw). 16 - i)") auto

declare newIDBytes.simps [simp del]

definition NewID :: "(nat \<Rightarrow> nat) \<Rightarrow> ID" where
  "NewID rnd =
     (let rpcId = TrimLeft (hexEncodeToString (newIDBytes rnd 0 0)) (CHR ''0'')
      in ''0x'' @ (if rpcId = '''' then ''0'' else rpcId))"

section \<open>Lemmas on the classification\<close>

lemma errIndex_range: "errIndex i ts = -1 \<or> (int i \<le> errIndex i ts \<and> errIndex i ts < int (i + length ts))"
  by (induction i ts rule: errIndex.induct) auto

lemma errIndex_none: "errIndex i ts = -1 \<longleftrightarrow> list_all (\<lambda>t. \<not> isErrorType t) ts"
  by (induction i ts rule: errIndex.induct) auto

lemma errIndex_hit:
  "errIndex i ts = int (i + k) \<longleftrightarrow>
     k < length ts \<and> isErrorType (ts ! k) \<and> (\<forall>j < k. \<not> isErrorType (ts ! j))"
proof (induction i ts arbitrary: k rule: errIndex.induct)
  case (2 i t ts)
  show ?case
  proof (cases "isErrorType t")
    case True
    then show ?thesis by (cases k) auto
  next
    case False
    then show ?thesis
      using 2 [OF False, of "k - 1"] errIndex_range [of "Suc i" ts]
      by (cases k) (auto simp: less_Suc_eq_0_disj)
  qed
qed auto

lemma formatName_Cons [simp]: "formatName (c # cs) = lower_char c # cs"
  by (simp add: formatName_def)

text \<open>
  The criteria \<^verbatim>\<open>doc.go\<close> gives for a method to be called remotely, read off a method: it is
  exported; its arguments (after the receiver and an optional leading context) and its results
  are exported or builtin types; it returns nothing, one value, or a value and an error.
\<close>

definition doc_criteria :: "gomethod \<Rightarrow> bool" where
  "doc_criteria m \<longleftrightarrow>
     mPkgPath m = '''' \<and> \<not> isPubSub m \<and>
     (\<forall>t \<in> set (drop (if 2 \<le> length (mIn m) \<and> mIn m ! 1 = contextType then 2 else 1) (mIn m)).
        isExportedOrBuiltinType t) \<and>
     (\<forall>t \<in> set (mOut m). isExportedOrBuiltinType t) \<and>
     (mOut m = [] \<or> length (mOut m) = 1 \<or>
      (\<exists>r e. mOut m = [r, e] \<and> \<not> isErrorType r \<and> isErrorType e))"

definition doc_sub_criteria :: "gomethod \<Rightarrow> bool" where
  "doc_sub_criteria m \<longleftrightarrow>
     mPkgPath m = '''' \<and> isPubSub m \<and>
     (\<forall>t \<in> set (drop (if mIn m ! 1 = contextType then 2 else 1) (mIn m)).
        isExportedOrBuiltinType t)"

lemma suitableMethod_shape:
  "suitableMethod rv m = Some (b, h) \<Longrightarrow>
     cmethod h = m \<and> rcvr h = rv \<and> b = isPubSub m \<and> isSubscribe h = b \<and>
     hasCtx h = (2 \<le> length (mIn m) \<and> mIn m ! 1 = contextType) \<and>
     argTypes h = drop (if hasCtx h then 2 else 1) (mIn m)"
  by (auto simp: suitableMethod_def Let_def split: if_splits)

lemma suitableMethod_sub:
  "(\<exists>h. suitableMethod rv m = Some (True, h)) \<longleftrightarrow> doc_sub_criteria m"
  by (auto simp: suitableMethod_def doc_sub_criteria_def Let_def list_all_iff isPubSub_def)

lemma errPos_outs:
  "(0 \<le> errIndex 0 ts \<longrightarrow> errIndex 0 ts = int (length ts) - 1) \<and> length ts \<le> 2 \<and>
     (length ts = 2 \<longrightarrow> errIndex 0 ts \<noteq> -1) \<longleftrightarrow>
   ts = [] \<or> length ts = 1 \<or> (\<exists>r e. ts = [r, e] \<and> \<not> isErrorType r \<and> isErrorType e)"
  by (cases ts; cases "tl ts"; cases "tl (tl ts)") auto

lemma suitableMethod_call:
  "(\<exists>h. suitableMethod rv m = Some (False, h)) \<longleftrightarrow> doc_criteria m"
proof -
  have "(\<exists>h. suitableMethod rv m = Some (False, h)) \<longleftrightarrow>
      mPkgPath m = '''' \<and> \<not> isPubSub m \<and>
      list_all isExportedOrBuiltinType
        (drop (if 2 \<le> length (mIn m) \<and> mIn m ! 1 = contextType then 2 else 1) (mIn m)) \<and>
      list_all isExportedOrBuiltinType (mOut m) \<and>
      (0 \<le> errIndex 0 (mOut m) \<longrightarrow> errIndex 0 (mOut m) = int (length (mOut m)) - 1) \<and>
      length (mOut m) \<le> 2 \<and> (length (mOut m) = 2 \<longrightarrow> errIndex 0 (mOut m) \<noteq> -1)"
    by (auto simp: suitableMethod_def Let_def)
  then show ?thesis
    unfolding errPos_outs doc_criteria_def by (simp add: list_all_iff)
qed

lemma suitableMethod_errPos:
  assumes "suitableMethod rv m = Some (False, h)"
  shows "errPos h = -1 \<and> length (mOut m) \<le> 1 \<or>
         errPos h = int (length (mOut m)) - 1 \<and> mOut m \<noteq> []"
  using assms errIndex_range [of 0 "mOut m"]
  by (auto simp: suitableMethod_def Let_def split: if_splits)

section \<open>Lemmas on the loop\<close>

lemma storeMethod_None [simp]: "suitableMethod rv m = None \<Longrightarrow> storeMethod rv m st = st"
  by (simp add: storeMethod_def)

lemma storeMethod_other:
  "formatName (mName m) \<noteq> k \<Longrightarrow>
     fst (storeMethod rv m st) k = fst st k \<and> snd (storeMethod rv m st) k = snd st k"
  by (auto simp: storeMethod_def split: option.splits)

lemma storeMethod_Some:
  "suitableMethod rv m = Some (b, h) \<Longrightarrow>
     (if b then snd else fst) (storeMethod rv m st) (formatName (mName m)) = Some h"
  by (simp add: storeMethod_def)

lemma storeMethod_range:
  "fst (storeMethod rv m st) k = Some h \<Longrightarrow>
     fst st k = Some h \<or> formatName (mName m) = k \<and> suitableMethod rv m = Some (False, h)"
  "snd (storeMethod rv m st) k = Some h \<Longrightarrow>
     snd st k = Some h \<or> formatName (mName m) = k \<and> suitableMethod rv m = Some (True, h)"
  by (auto simp: storeMethod_def split: option.splits if_splits)

lemma suitableLoop_append:
  "suitableLoop rv (xs @ ys) st = suitableLoop rv ys (suitableLoop rv xs st)"
  by (induction xs arbitrary: st) simp_all

lemma suitableLoop_none:
  "\<forall>m \<in> set ms. formatName (mName m) \<noteq> k \<Longrightarrow>
   fst (suitableLoop rv ms st) k = fst st k \<and> snd (suitableLoop rv ms st) k = snd st k"
  by (induction ms arbitrary: st) (simp_all add: storeMethod_other)

lemma suitableLoop_range:
  "(fst (suitableLoop rv ms st) k = Some h \<longrightarrow>
      fst st k = Some h \<or> (\<exists>m \<in> set ms. formatName (mName m) = k \<and> suitableMethod rv m = Some (False, h))) \<and>
   (snd (suitableLoop rv ms st) k = Some h \<longrightarrow>
      snd st k = Some h \<or> (\<exists>m \<in> set ms. formatName (mName m) = k \<and> suitableMethod rv m = Some (True, h)))"
proof (induction ms arbitrary: st)
  case (Cons m ms)
  show ?case
    using Cons.IH [of "storeMethod rv m st"] storeMethod_range [of rv m st k h]
    unfolding suitableLoop.simps list.set by blast
qed simp

lemma suitableLoop_distinct:
  assumes "distinct (map (formatName \<circ> mName) ms)" "m \<in> set ms"
    "suitableMethod rv m = Some (b, h)"
  shows "(if b then snd else fst) (suitableLoop rv ms st) (formatName (mName m)) = Some h"
proof -
  obtain xs ys where ms: "ms = xs @ m # ys" using assms(2) by (auto simp: in_set_conv_decomp)
  have ys: "\<forall>m' \<in> set ys. formatName (mName m') \<noteq> formatName (mName m)"
    using assms(1) unfolding ms by (simp add: image_iff) (metis comp_apply)
  show ?thesis
    using storeMethod_Some [OF assms(3), of "suitableLoop rv xs st"]
      suitableLoop_none [OF ys, of rv "storeMethod rv m (suitableLoop rv xs st)"]
    by (simp add: ms suitableLoop_append split: if_splits)
qed



section \<open>Identifiers are quantities\<close>

definition be_value :: "8 word list \<Rightarrow> nat" where
  "be_value bs = foldl (\<lambda>a b. a * 256 + unat b) 0 bs"

lemma le_bytes_length [simp]: "length (le_bytes k v) = k"
  by (induction k arbitrary: v) auto

lemma newIDBytes_length [simp]: "length (newIDBytes rnd 0 0) = 16"
  by (simp add: newIDBytes.simps)

lemma be_value_snoc: "be_value (bs @ [b]) = be_value bs * 256 + unat b"
  by (simp add: be_value_def)

lemma be_value_inj: "length as = length bs \<Longrightarrow> be_value as = be_value bs \<Longrightarrow> as = bs"
proof (induction as arbitrary: bs rule: rev_induct)
  case (snoc a as)
  obtain b bs' where bs: "bs = bs' @ [b]" using snoc.prems(1) by (cases bs rule: rev_cases) auto
  have lt: "unat a < 256" "unat b < 256" using unat_bound [of a] unat_bound [of b] by simp_all
  have eq: "be_value as * 256 + unat a = be_value bs' * 256 + unat b"
    using snoc.prems(2) by (simp add: bs be_value_snoc)
  from arg_cong [OF eq, of "\<lambda>n. n div 256"] lt have "be_value as = be_value bs'" by simp
  with eq have "unat a = unat b" by simp
  then have "a = b" by (simp only: word_unat_eq_iff)
  then show ?case using snoc.IH [of bs'] snoc.prems(1) \<open>be_value as = be_value bs'\<close> by (simp add: bs)
qed simp

lemma parse_hexEncode:
  "parse_digits 16 acc (hexEncodeToString bs) = Some (foldl (\<lambda>a b. a * 256 + unat b) acc bs)"
proof (induction bs arbitrary: acc)
  case (Cons b bs)
  have "unat b < 256" using unat_bound [of b] by simp
  then have "unat b div 16 < 16" by simp
  moreover have "(acc * 16 + unat b div 16) * 16 + unat b mod 16 = acc * 256 + unat b"
    by (simp add: algebra_simps)
  ultimately show ?case using Cons by (simp add: digit_val_digit_char algebra_simps)
qed simp

lemma parse_digits_TrimLeft: "parse_digits 16 0 (TrimLeft s CHR ''0'') = parse_digits 16 0 s"
  by (induction s) (auto simp: TrimLeft_def digit_val_def)

lemma NewID_decodes: "DecodeBig (NewID rnd) = Inr (be_value (newIDBytes rnd 0 0))"
proof -
  let ?h = "hexEncodeToString (newIDBytes rnd 0 0)"
  let ?t = "TrimLeft ?h CHR ''0''"
  have len: "length ?t \<le> 32"
    using length_dropWhile_le [of "\<lambda>x. x = CHR ''0''" ?h] by (simp add: TrimLeft_def)
  have val: "parse_digits 16 0 ?t = Some (be_value (newIDBytes rnd 0 0))"
    by (simp add: parse_digits_TrimLeft parse_hexEncode be_value_def)
  show ?thesis
  proof (cases "?t = []")
    case True
    then have "checkNumber (NewID rnd) = Inr ''0''" "parse_digits 16 0 ''0'' = Some 0"
      by (simp_all add: NewID_def Let_def checkNumber_def has0xPrefix_def digit_val_def)
    moreover have "be_value (newIDBytes rnd 0 0) = 0" using val True by simp
    ultimately show ?thesis using DecodeBig_Inr [of "NewID rnd" "''0''" 0] by simp
  next
    case False
    then have "hd ?t \<noteq> CHR ''0''" unfolding TrimLeft_def by (rule hd_dropWhile)
    then have "checkNumber (NewID rnd) = Inr ?t"
      using False by (simp add: NewID_def Let_def checkNumber_def has0xPrefix_def hd_conv_nth)
    then show ?thesis using DecodeBig_Inr [OF _ _ val] len by simp
  qed
qed

text \<open>
  A generated identifier is a valid RPC quantity that loses nothing of the randomness: it is
  built from 16 bytes, it is accepted by the quantity decoder (prefix, no leading zero, at most
  32 digits) and decodes to the big-endian value of these bytes, and two identifiers are equal
  only when their 16 bytes are equal.
\<close>

theorem NewID_quantity:
  "length (newIDBytes rnd 0 0) = 16 \<and>
   DecodeBig (NewID rnd) = Inr (be_value (newIDBytes rnd 0 0)) \<and>
   (NewID rnd = NewID rnd' \<longleftrightarrow> newIDBytes rnd 0 0 = newIDBytes rnd' 0 0)"
proof -
  have "newIDBytes rnd 0 0 = newIDBytes rnd' 0 0" if "NewID rnd = NewID rnd'"
    using NewID_decodes [of rnd] NewID_decodes [of rnd'] that
    by (intro be_value_inj) simp_all
  moreover have "NewID rnd = NewID rnd'" if "newIDBytes rnd 0 0 = newIDBytes rnd' 0 0"
    using that by (simp add: NewID_def)
  ultimately show ?thesis using NewID_decodes by auto
qed

end
