(* ===== verification/Codec.thy ===== *)
theory Codec
  imports Errors Reflect Json_Laws
begin

text \<open>
  The JSON-RPC codec, \<^verbatim>\<open>src/rpc/json.go\<close>: reading requests from a connection, decoding their
  arguments, building and writing responses.

  What the codec takes from \<^verbatim>\<open>encoding/json\<close> by reflection on the types of the registered services
  is the record \<open>jsonlib\<close>, an argument of the definitions: the text of the error for a
  text that cannot be decoded, the decoding of one argument into a Go type (which may run the
  \<^verbatim>\<open>UnmarshalJSON\<close> method of that type), and the encoding of a result. Everything else (the scanner,
  strings, the fields of the messages) is the model of \<^verbatim>\<open>encoding/json\<close> in theory \<open>Json\<close>. Keys of
  objects are matched to fields up to the case of ASCII letters.
\<close>

section \<open>Messages\<close>

text \<open>
  Go values as far as the package looks into them: \<^verbatim>\<open>nil\<close>, the zero value of a type, strings,
  booleans, subscription identifiers, error values by their text, \<^verbatim>\<open>*Subscription\<close> values by their
  identifier, and any other value by its JSON text.
\<close>

datatype govalue =
    GNil
  | GZero gotype
  | GStr string
  | GBool bool
  | GId ID
  | GError string
  | GSub ID
  | GVal raw

record jsonlib =
  unmarshalErr :: "raw \<Rightarrow> string"
  decodeArg :: "gotype \<Rightarrow> raw \<Rightarrow> string + govalue"
  marshal :: "govalue \<Rightarrow> string + raw"

record jsonRequest =
  jMethod :: string
  jVersion :: string
  jId :: raw
  jPayload :: raw

record rpcRequest =
  rqService :: string
  rqMethod :: string
  rqId :: "raw option"
  rqPubSub :: bool
  rqParams :: "raw option"
  rqErr :: "rpc_error option"

definition zeroRequest :: jsonRequest where
  "zeroRequest = \<lparr>jMethod = [], jVersion = [], jId = [], jPayload = []\<rparr>"

definition zeroRpcRequest :: rpcRequest where
  "zeroRpcRequest = \<lparr>rqService = [], rqMethod = [], rqId = None, rqPubSub = False,
     rqParams = None, rqErr = None\<rparr>"

text \<open>
  A response holds the raw identifier it answers (\<^term>\<open>None\<close> for the \<^verbatim>\<open>nil\<close> that
  \<^verbatim>\<open>omitempty\<close> leaves out).
\<close>

datatype response =
    jsonSuccessResponse (respId: "raw option") (respResult: govalue)
  | jsonErrResponse (respId: "raw option") (errCode: int) (errMessage: string) (errData: "govalue option")
  | jsonNotification (ntfMethod: string) (ntfSubscription: string) (ntfResult: "govalue option")

section \<open>Decoding a request object\<close>

definition decodeString :: "raw \<Rightarrow> string \<Rightarrow> string option" where
  "decodeString v old =
     (if is_null v then Some old else if is_string_lit v then Some (string_of_lit v) else None)"

text \<open>
  One member of the object. The state is the struct and whether a type error was saved: the
  decoder goes on after such an error and reports the first one at the end.
\<close>

definition decodeMember :: "jsonRequest \<times> bool \<Rightarrow> raw \<times> raw \<Rightarrow> jsonRequest \<times> bool" where
  "decodeMember st kv =
     (let (r, ok) = st; key = ToLower (unquote (fst kv)); v = snd kv in
      if key = ''method'' then
        (case decodeString v (jMethod r) of Some s \<Rightarrow> (r\<lparr>jMethod := s\<rparr>, ok) | None \<Rightarrow> (r, False))
      else if key = ''jsonrpc'' then
        (case decodeString v (jVersion r) of Some s \<Rightarrow> (r\<lparr>jVersion := s\<rparr>, ok) | None \<Rightarrow> (r, False))
      else if key = ''id'' then (r\<lparr>jId := v\<rparr>, ok)
      else if key = ''params'' then (r\<lparr>jPayload := v\<rparr>, ok)
      else (r, ok))"

definition decodeRequest :: "raw \<Rightarrow> jsonRequest option" where
  "decodeRequest v =
     (if is_null v then Some zeroRequest
      else case json_object v of
             None \<Rightarrow> None
           | Some ms \<Rightarrow>
               (let (r, ok) = foldl decodeMember (zeroRequest, True) ms
                in if ok then Some r else None))"

definition unmarshalRequest :: "jsonlib \<Rightarrow> raw \<Rightarrow> string + jsonRequest" where
  "unmarshalRequest lib s =
     (if json_valid s then
        (case decodeRequest s of None \<Rightarrow> Inl (unmarshalErr lib s) | Some r \<Rightarrow> Inr r)
      else Inl (unmarshalErr lib s))"

definition unmarshalRequests :: "jsonlib \<Rightarrow> raw \<Rightarrow> string + jsonRequest list" where
  "unmarshalRequests lib s =
     (if json_valid s then
        (case json_array s of
           None \<Rightarrow> Inl (unmarshalErr lib s)
         | Some vs \<Rightarrow>
             (case those (map decodeRequest vs) of
                None \<Rightarrow> Inl (unmarshalErr lib s) | Some rs \<Rightarrow> Inr rs))
      else Inl (unmarshalErr lib s))"

text \<open>\<open>var subscribeMethod [1]string\<close>: the first element, or the empty string.\<close>

definition unmarshalString1 :: "raw \<Rightarrow> string option" where
  "unmarshalString1 s =
     (if \<not> json_valid s then None
      else if is_null s then Some []
      else case json_array s of
             None \<Rightarrow> None
           | Some [] \<Rightarrow> Some []
           | Some (v # _) \<Rightarrow> decodeString v [])"

section \<open>Request identifiers\<close>

text \<open>
  \<^verbatim>\<open>strconv.ParseFloat\<close> on a JSON number: it fails only on a value that rounds to an infinity,
  that is on one of at least \<open>2^1024 - 2^970\<close> in magnitude.
\<close>

definition digits_nat :: "string \<Rightarrow> nat" where
  "digits_nat s = (case parse_digits 10 0 s of Some n \<Rightarrow> n | None \<Rightarrow> 0)"

definition exponent_of :: "string \<Rightarrow> int" where
  "exponent_of r =
     (case r of
        [] \<Rightarrow> 0
      | c # q \<Rightarrow>
          if c = CHR ''e'' \<or> c = CHR ''E'' then
            (case q of
               [] \<Rightarrow> 0
             | d # q' \<Rightarrow>
                 if d = CHR ''-'' then - int (digits_nat q')
                 else if d = CHR ''+'' then int (digits_nat q')
                 else int (digits_nat q))
          else 0)"

definition float_in_range :: "raw \<Rightarrow> bool" where
  "float_in_range v =
     (let s = (if HasPrefix v ''-'' then tl v else v);
          i = takeWhile is_digit s; r = dropWhile is_digit s;
          f = (if HasPrefix r ''.'' then takeWhile is_digit (tl r) else []);
          r' = (if HasPrefix r ''.'' then dropWhile is_digit (tl r) else r);
          mant = int (digits_nat (i @ f)); e = exponent_of r' - int (length f);
          limit = 2 ^ 1024 - 2 ^ 970 :: int
      in if 0 \<le> e then mant * 10 ^ nat e < limit else mant < limit * 10 ^ nat (- e))"

definition checkReqId :: "raw \<Rightarrow> string option" where
  "checkReqId reqId =
     (if length reqId = 0 then Some ''missing request id''
      else if is_number_lit reqId \<and> float_in_range reqId then None
      else if json_valid reqId \<and> decodeString reqId [] \<noteq> None then None
      else Some ''invalid request id'')"

section \<open>Parsing requests\<close>

fun isBatch :: "raw \<Rightarrow> bool" where
  "isBatch [] = False"
| "isBatch (c # cs) =
     (if c = CHR 0x20 \<or> c = CHR 0x09 \<or> c = CHR 0x0A \<or> c = CHR 0x0D then isBatch cs
      else c = CHR ''['')"

type_synonym headers = "rpcRequest list \<times> bool \<times> rpc_error option"

definition parseRequest :: "jsonlib \<Rightarrow> raw \<Rightarrow> headers" where
  "parseRequest lib incomingMsg =
     (case unmarshalRequest lib incomingMsg of
        Inl e \<Rightarrow> ([], False, Some (invalidMessageError e))
      | Inr r \<Rightarrow>
          (case checkReqId (jId r) of
             Some e \<Rightarrow> ([], False, Some (invalidMessageError e))
           | None \<Rightarrow>
               if HasSuffix (jMethod r) subscribeMethodSuffix then
                 (if 0 < length (jPayload r) then
                    (case unmarshalString1 (jPayload r) of
                       None \<Rightarrow> ([], False, Some (invalidRequestError ''Unable to parse subscription request''))
                     | Some subscribeMethod \<Rightarrow>
                         ([zeroRpcRequest\<lparr>rqId := Some (jId r), rqPubSub := True,
                             rqService := TrimSuffix (jMethod r) subscribeMethodSuffix,
                             rqMethod := subscribeMethod, rqParams := Some (jPayload r)\<rparr>], False, None))
                  else ([], False, Some (invalidRequestError ''Unable to parse subscription request'')))
               else if HasSuffix (jMethod r) unsubscribeMethodSuffix then
                 ([zeroRpcRequest\<lparr>rqId := Some (jId r), rqPubSub := True, rqMethod := jMethod r,
                     rqParams := Some (jPayload r)\<rparr>], False, None)
               else
                 (case Split1 (hd serviceMethodSeparator) (jMethod r) of
                    [a, b] \<Rightarrow>
                      if length (jPayload r) = 0 then
                        ([zeroRpcRequest\<lparr>rqService := a, rqMethod := b, rqId := Some (jId r)\<rparr>], False, None)
                      else
                        ([zeroRpcRequest\<lparr>rqService := a, rqMethod := b, rqId := Some (jId r),
                            rqParams := Some (jPayload r)\<rparr>], False, None)
                  | _ \<Rightarrow> ([], False, Some (methodNotFoundError (jMethod r) [])))))"

text \<open>
  One turn of the loop over a batch: a request to store, or the flag and the error with which the
  function returns at once.
\<close>

definition batchRequest :: "jsonRequest \<Rightarrow> (bool \<times> rpc_error) + rpcRequest" where
  "batchRequest r =
     (case checkReqId (jId r) of
        Some e \<Rightarrow> Inl (False, invalidMessageError e)
      | None \<Rightarrow>
          if HasSuffix (jMethod r) subscribeMethodSuffix then
            (if 0 < length (jPayload r) then
               (case unmarshalString1 (jPayload r) of
                  None \<Rightarrow> Inl (False, invalidRequestError ''Unable to parse subscription request'')
                | Some subscribeMethod \<Rightarrow>
                    Inr (zeroRpcRequest\<lparr>rqId := Some (jId r), rqPubSub := True,
                           rqService := TrimSuffix (jMethod r) subscribeMethodSuffix,
                           rqMethod := subscribeMethod, rqParams := Some (jPayload r)\<rparr>))
             else Inl (True, invalidRequestError ''Unable to parse (un)subscribe request arguments''))
          else if HasSuffix (jMethod r) unsubscribeMethodSuffix then
            Inr (zeroRpcRequest\<lparr>rqId := Some (jId r), rqPubSub := True, rqMethod := jMethod r,
                   rqParams := Some (jPayload r)\<rparr>)
          else
            let q = (if length (jPayload r) = 0 then zeroRpcRequest\<lparr>rqId := Some (jId r)\<rparr>
                     else zeroRpcRequest\<lparr>rqId := Some (jId r), rqParams := Some (jPayload r)\<rparr>)
            in (case Split1 (hd serviceMethodSeparator) (jMethod r) of
                  [a, b] \<Rightarrow> Inr (q\<lparr>rqService := a, rqMethod := b\<rparr>)
                | _ \<Rightarrow> Inr (q\<lparr>rqErr := Some (methodNotFoundError (jMethod r) [])\<rparr>)))"

fun batchLoop :: "jsonRequest list \<Rightarrow> (bool \<times> rpc_error) + rpcRequest list" where
  "batchLoop [] = Inr []"
| "batchLoop (r # rs) =
     (case batchRequest r of
        Inl e \<Rightarrow> Inl e
      | Inr q \<Rightarrow> (case batchLoop rs of Inl e \<Rightarrow> Inl e | Inr qs \<Rightarrow> Inr (q # qs)))"

definition parseBatchRequest :: "jsonlib \<Rightarrow> raw \<Rightarrow> headers" where
  "parseBatchRequest lib incomingMsg =
     (case unmarshalRequests lib incomingMsg of
        Inl e \<Rightarrow> ([], False, Some (invalidMessageError e))
      | Inr rs \<Rightarrow>
          (case batchLoop rs of
             Inl (b, e) \<Rightarrow> ([], b, Some e)
           | Inr qs \<Rightarrow> (qs, True, None)))"

section \<open>Arguments\<close>

fun isPtr :: "gotype \<Rightarrow> bool" where
  "isPtr (Ptr t) = True"
| "isPtr _ = False"

definition missingArg :: "nat \<Rightarrow> rpc_error" where
  "missingArg i = invalidParamsError (''missing value for required argument '' @ itoa i)"

text \<open>
  Decoding one argument: the builtin string type is decoded here (it is the type of
  a subscription identifier), any other type by the library.
\<close>

definition stringType :: gotype where
  "stringType = Ty ''string'' '''' KString False"

definition decodeValue :: "jsonlib \<Rightarrow> gotype \<Rightarrow> raw \<Rightarrow> string + govalue" where
  "decodeValue lib t v =
     (if t = stringType then
        (case decodeString v [] of Some s \<Rightarrow> Inr (GStr s) | None \<Rightarrow> Inl (unmarshalErr lib v))
      else decodeArg lib t v)"

text \<open>
  The loop that reads the arguments. The code also refuses a value for which
  \<open>argval.IsNil()\<close> holds and whose type is not a pointer; \<open>argval\<close> is the result of
  \<^verbatim>\<open>reflect.New\<close>, a pointer that is never nil, so that branch is never taken.
\<close>

fun readArgs :: "jsonlib \<Rightarrow> gotype list \<Rightarrow> nat \<Rightarrow> raw list \<Rightarrow> rpc_error + govalue list" where
  "readArgs lib types i [] = Inr []"
| "readArgs lib types i (v # vs) =
     (if length types \<le> i then
        Inl (invalidParamsError (''too many arguments, want at most '' @ itoa (length types)))
      else case decodeValue lib (types ! i) v of
             Inl e \<Rightarrow> Inl (invalidParamsError (''invalid argument '' @ itoa i @ '': '' @ e))
           | Inr a \<Rightarrow>
               (case readArgs lib types (i + 1) vs of Inl e \<Rightarrow> Inl e | Inr as \<Rightarrow> Inr (a # as)))"

fun fillArgs :: "nat \<Rightarrow> gotype list \<Rightarrow> rpc_error + govalue list" where
  "fillArgs i [] = Inr []"
| "fillArgs i (t # ts) =
     (if \<not> isPtr t then Inl (missingArg i)
      else case fillArgs (i + 1) ts of Inl e \<Rightarrow> Inl e | Inr as \<Rightarrow> Inr (GZero t # as))"

definition parsePositionalArguments :: "jsonlib \<Rightarrow> raw \<Rightarrow> gotype list \<Rightarrow> rpc_error + govalue list" where
  "parsePositionalArguments lib rawArgs types =
     (case json_array rawArgs of
        None \<Rightarrow> Inl (invalidParamsError ''non-array args'')
      | Some vs \<Rightarrow>
          (case readArgs lib types 0 vs of
             Inl e \<Rightarrow> Inl e
           | Inr args \<Rightarrow>
               (case fillArgs (length args) (drop (length args) types) of
                  Inl e \<Rightarrow> Inl e
                | Inr rest \<Rightarrow> Inr (args @ rest))))"

definition ParseRequestArguments ::
  "jsonlib \<Rightarrow> gotype list \<Rightarrow> raw option \<Rightarrow> rpc_error + govalue list" where
  "ParseRequestArguments lib types params =
     (case params of
        None \<Rightarrow> Inl (invalidParamsError ''Invalid params supplied'')
      | Some args \<Rightarrow> parsePositionalArguments lib args types)"

section \<open>Responses\<close>

definition CreateResponse :: "raw option \<Rightarrow> govalue \<Rightarrow> response" where
  "CreateResponse i reply = jsonSuccessResponse i reply"

definition CreateErrorResponse :: "raw option \<Rightarrow> rpc_error \<Rightarrow> response" where
  "CreateErrorResponse i err = jsonErrResponse i (ErrorCode err) (ErrorText err) None"

definition CreateErrorResponseWithInfo :: "raw option \<Rightarrow> rpc_error \<Rightarrow> govalue option \<Rightarrow> response" where
  "CreateErrorResponseWithInfo i err info = jsonErrResponse i (ErrorCode err) (ErrorText err) info"

definition CreateNotification :: "string \<Rightarrow> string \<Rightarrow> govalue option \<Rightarrow> response" where
  "CreateNotification subid namespace event =
     jsonNotification (namespace @ notificationMethodSuffix) subid event"

definition jsonErrorText :: "int \<Rightarrow> string \<Rightarrow> string" where
  "jsonErrorText code msg = (if msg = '''' then ''json-rpc error '' @ itoa_int code else msg)"

text \<open>
  The encoding of the messages. A raw identifier (a string, a number or \<open>null\<close>) is copied, with
  the three HTML characters escaped as \<^verbatim>\<open>json.Marshal\<close> does for the output of a
  \<^verbatim>\<open>RawMessage\<close>.
\<close>

definition escapeHTML :: "raw \<Rightarrow> raw" where
  "escapeHTML v =
     concat (map (\<lambda>c. if c \<in> {CHR ''<'', CHR ''>'', CHR ''&''} then encode_char c else [c]) v)"

definition idMember :: "raw option \<Rightarrow> (string \<times> raw) list" where
  "idMember i = (case i of None \<Rightarrow> [] | Some v \<Rightarrow> [(''id'', escapeHTML v)])"

definition versionMember :: "string \<times> raw" where
  "versionMember = (''jsonrpc'', json_quote jsonrpcVersion)"

fun marshalValue :: "jsonlib \<Rightarrow> govalue \<Rightarrow> string + raw" where
  "marshalValue lib GNil = Inr ''null''"
| "marshalValue lib (GStr s) = Inr (json_quote s)"
| "marshalValue lib (GBool b) = Inr (if b then ''true'' else ''false'')"
| "marshalValue lib (GId i) = Inr (json_quote i)"
| "marshalValue lib v = marshal lib v"

definition marshalOptional :: "jsonlib \<Rightarrow> string \<Rightarrow> govalue option \<Rightarrow> string + (string \<times> raw) list" where
  "marshalOptional lib name v =
     (case v of None \<Rightarrow> Inr []
      | Some x \<Rightarrow> (case marshalValue lib x of Inl e \<Rightarrow> Inl e | Inr r \<Rightarrow> Inr [(name, r)]))"

fun marshalResponse :: "jsonlib \<Rightarrow> response \<Rightarrow> string + raw" where
  "marshalResponse lib (jsonSuccessResponse i v) =
     (case marshalValue lib v of
        Inl e \<Rightarrow> Inl e
      | Inr r \<Rightarrow> Inr (render_object (versionMember # idMember i @ [(''result'', r)])))"
| "marshalResponse lib (jsonErrResponse i code msg info) =
     (case marshalOptional lib ''data'' info of
        Inl e \<Rightarrow> Inl e
      | Inr d \<Rightarrow>
          Inr (render_object (versionMember # idMember i @
            [(''error'', render_object ([(''code'', itoa_int code), (''message'', json_quote msg)] @ d))])))"
| "marshalResponse lib (jsonNotification m sub v) =
     (case marshalOptional lib ''result'' v of
        Inl e \<Rightarrow> Inl e
      | Inr d \<Rightarrow>
          Inr (render_object [versionMember, (''method'', json_quote m),
            (''params'', render_object ((''subscription'', json_quote sub) # d))]))"

text \<open>A batch of responses is written as one array.\<close>

fun marshalResponses :: "jsonlib \<Rightarrow> response list \<Rightarrow> string + raw list" where
  "marshalResponses lib [] = Inr []"
| "marshalResponses lib (r # rs) =
     (case marshalResponse lib r of
        Inl e \<Rightarrow> Inl e
      | Inr v \<Rightarrow> (case marshalResponses lib rs of Inl e \<Rightarrow> Inl e | Inr vs \<Rightarrow> Inr (v # vs)))"

datatype message = Single response | Batch "response list"

fun marshalMessage :: "jsonlib \<Rightarrow> message \<Rightarrow> string + raw" where
  "marshalMessage lib (Single r) = marshalResponse lib r"
| "marshalMessage lib (Batch rs) =
     (case marshalResponses lib rs of Inl e \<Rightarrow> Inl e | Inr vs \<Rightarrow> Inr (render_array vs))"

section \<open>The codec on a connection\<close>

text \<open>
  The state of a \<^verbatim>\<open>jsonCodec\<close>: the bytes its peer sends (the decoder is at their front, the stream
  ends after them), the messages written so far with the bytes they put on the connection,
  whether \<^verbatim>\<open>Close\<close> was called, and whether the connection accepts writes.
\<close>

record codec =
  cIn :: string
  cOut :: string
  cSent :: "message list"
  cClosed :: bool
  cWritable :: bool

definition NewCodec :: "string \<Rightarrow> codec" where
  "NewCodec input = \<lparr>cIn = input, cOut = [], cSent = [], cClosed = False, cWritable = True\<rparr>"

text \<open>
  \<^verbatim>\<open>dec.Decode(&incomingMsg)\<close>: the next value of the stream, \<open>EOF\<close> when nothing but white space
  is left, otherwise the decoder's error.
\<close>

definition decodeRaw :: "jsonlib \<Rightarrow> string \<Rightarrow> string + raw \<times> string" where
  "decodeRaw lib s =
     (let s' = skip_ws s in
      if s' = [] then Inl ''EOF''
      else case json_scan s' of
             None \<Rightarrow> Inl (unmarshalErr lib s')
           | Some rest \<Rightarrow> Inr (raw_of s' rest, rest))"

definition ReadRequestHeaders :: "jsonlib \<Rightarrow> codec \<Rightarrow> headers \<times> codec" where
  "ReadRequestHeaders lib c =
     (case decodeRaw lib (cIn c) of
        Inl e \<Rightarrow> (([], False, Some (invalidRequestError e)), c)
      | Inr (incomingMsg, rest) \<Rightarrow>
          ((if isBatch incomingMsg then parseBatchRequest lib incomingMsg
            else parseRequest lib incomingMsg), c\<lparr>cIn := rest\<rparr>))"

definition writeError :: string where
  "writeError = ''use of closed network connection''"

definition Write :: "jsonlib \<Rightarrow> message \<Rightarrow> codec \<Rightarrow> string option \<times> codec" where
  "Write lib msg c =
     (case marshalMessage lib msg of
        Inl e \<Rightarrow> (Some e, c)
      | Inr v \<Rightarrow>
          if cClosed c \<or> \<not> cWritable c then (Some writeError, c)
          else (None, c\<lparr>cOut := cOut c @ v @ [CHR 0x0A], cSent := cSent c @ [msg]\<rparr>))"

definition Close :: "codec \<Rightarrow> codec" where
  "Close c = c\<lparr>cClosed := True\<rparr>"

section \<open>Lemmas on arguments\<close>

lemma readArgs_Inr:
  "readArgs lib types i vs = Inr as \<longleftrightarrow>
     (vs = [] \<or> i + length vs \<le> length types) \<and> length as = length vs \<and>
     (\<forall>j < length vs. decodeValue lib (types ! (i + j)) (vs ! j) = Inr (as ! j))"
proof (induction vs arbitrary: i as)
  case (Cons v vs)
  show ?case
  proof (cases "length types \<le> i \<or> isl (decodeValue lib (types ! i) v)")
    case True
    then show ?thesis by (auto simp: isl_def)
  next
    case False
    then obtain a where a: "decodeValue lib (types ! i) v = Inr a"
      by (cases "decodeValue lib (types ! i) v") auto
    have "readArgs lib types i (v # vs) = Inr as \<longleftrightarrow>
        (\<exists>as'. as = a # as' \<and> readArgs lib types (i + 1) vs = Inr as')"
      using False a by (auto split: sum.splits)
    also have "\<dots> \<longleftrightarrow> (\<exists>as'. as = a # as' \<and> i + 1 + length vs \<le> length types \<and> length as' = length vs \<and>
         (\<forall>j < length vs. decodeValue lib (types ! (i + 1 + j)) (vs ! j) = Inr (as' ! j)))"
      unfolding Cons.IH using False by auto
    finally show ?thesis
      using a by (cases as) (auto simp: All_less_Suc2)
  qed
qed auto

text \<open>The error reported is that of the first argument that is missing.\<close>

lemma fillArgs_eq:
  "fillArgs i ts =
     (if list_all isPtr ts then Inr (map GZero ts)
      else Inl (missingArg (i + length (takeWhile isPtr ts))))"
  by (induction ts arbitrary: i) auto

text \<open>
  C36. Arguments are positional, of the declared types, and only a pointer may be left out: the
  parameters are accepted with the result \<open>args\<close> exactly when they are an array of at most as
  many values as the method has arguments, each value decodes into the type of its position, and
  every position beyond the given values has a pointer type and gets its zero value.
\<close>

theorem parsePositionalArguments_iff:
  "parsePositionalArguments lib rawArgs types = Inr args \<longleftrightarrow>
     (\<exists>vs. json_array rawArgs = Some vs \<and> length vs \<le> length types \<and> length args = length types \<and>
        (\<forall>i < length vs. decodeValue lib (types ! i) (vs ! i) = Inr (args ! i)) \<and>
        (\<forall>i < length types. length vs \<le> i \<longrightarrow> isPtr (types ! i) \<and> args ! i = GZero (types ! i)))"
  (is "?L \<longleftrightarrow> (\<exists>vs. ?P vs)")
proof (cases "json_array rawArgs")
  case (Some vs)
  have "?L \<longleftrightarrow> (\<exists>as. readArgs lib types 0 vs = Inr as \<and>
      list_all isPtr (drop (length as) types) \<and> args = as @ map GZero (drop (length as) types))"
    using Some
    by (cases "readArgs lib types 0 vs") (auto simp: parsePositionalArguments_def fillArgs_eq)
  also have "\<dots> \<longleftrightarrow> ?P vs"
  proof
    assume "\<exists>as. readArgs lib types 0 vs = Inr as \<and>
      list_all isPtr (drop (length as) types) \<and> args = as @ map GZero (drop (length as) types)"
    then obtain as where as: "length as = length vs" "length vs \<le> length types"
        "\<forall>j < length vs. decodeValue lib (types ! j) (vs ! j) = Inr (as ! j)"
        "list_all isPtr (drop (length vs) types)" "args = as @ map GZero (drop (length vs) types)"
      by (auto simp: readArgs_Inr)
    have "isPtr (types ! i)" if "length vs \<le> i" "i < length types" for i
      using as(4) that nth_mem [of "i - length vs" "drop (length vs) types"]
      by (auto simp: list_all_iff)
    with as Some show "?P vs" by (auto simp: nth_append)
  next
    assume P: "?P vs"
    let ?as = "take (length vs) args"
    have "args = ?as @ map GZero (drop (length vs) types)"
    proof (rule nth_equalityI)
      show "length args = length (?as @ map GZero (drop (length vs) types))" using P by simp
      show "args ! i = (?as @ map GZero (drop (length vs) types)) ! i" if "i < length args" for i
        using P that by (cases "i < length vs") (auto simp: nth_append)
    qed
    moreover have "list_all isPtr (drop (length vs) types)"
      using P by (auto simp: list_all_length)
    moreover have "readArgs lib types 0 vs = Inr ?as" "length ?as = length vs"
      using P by (auto simp: readArgs_Inr)
    ultimately show "\<exists>as. readArgs lib types 0 vs = Inr as \<and>
      list_all isPtr (drop (length as) types) \<and> args = as @ map GZero (drop (length as) types)"
      by metis
  qed
  finally show ?thesis using Some by auto
qed (simp add: parsePositionalArguments_def)

section \<open>Lemmas on requests\<close>

lemma isBatch_array [simp]: "isBatch (render_array vs)"
  by (simp add: render_array_def)

lemma parseRequest_batchRequest:
  assumes "parseRequest lib v = ([q], False, None)"
  shows "\<exists>r. unmarshalRequest lib v = Inr r \<and> batchRequest r = Inr q"
proof (cases "unmarshalRequest lib v")
  case (Inl e)
  then show ?thesis using assms by (simp add: parseRequest_def)
next
  case (Inr r)
  show ?thesis
  proof (cases "checkReqId (jId r)")
    case None
    have "batchRequest r = Inr q"
      using assms Inr None
      unfolding parseRequest_def batchRequest_def
      by (auto simp: zeroRpcRequest_def split: if_splits option.splits list.splits)
    then show ?thesis using Inr by blast
  qed (use assms Inr in \<open>simp add: parseRequest_def\<close>)
qed

lemma batchLoop_all2: "list_all2 (\<lambda>r q. batchRequest r = Inr q) rs qs \<Longrightarrow> batchLoop rs = Inr qs"
  by (induction rs qs rule: list_all2_induct) auto

lemma those_all2: "list_all2 (\<lambda>x y. f x = Some y) xs ys \<Longrightarrow> those (map f xs) = Some ys"
  by (induction xs ys rule: list_all2_induct) auto

lemma unmarshalRequest_Inr: "unmarshalRequest lib v = Inr r \<longleftrightarrow> json_valid v \<and> decodeRequest v = Some r"
  by (auto simp: unmarshalRequest_def split: option.splits)

text \<open>
  A batch is parsed as its elements are alone: when each of the texts \<open>vs\<close> is a request that
  is accepted on its own, the array of them is recognised as a batch and accepted as the list of
  the same requests, in the same order.
\<close>

theorem parseBatchRequest_pointwise:
  assumes "list_all2 (\<lambda>v q. compact v \<and> parseRequest lib v = ([q], False, None)) vs qs"
  shows "isBatch (render_array vs) \<and> parseBatchRequest lib (render_array vs) = (qs, True, None)"
proof -
  have "\<exists>rs. list_all2 (\<lambda>v r. compact v \<and> decodeRequest v = Some r) vs rs \<and>
      list_all2 (\<lambda>r q. batchRequest r = Inr q) rs qs"
    using assms
  proof (induction vs qs rule: list_all2_induct)
    case (Cons v vs q qs)
    then show ?case
      using parseRequest_batchRequest [of lib v q]
      by (auto simp: unmarshalRequest_Inr intro: list.rel_intros(2))
  qed auto
  then obtain rs where rs: "list_all2 (\<lambda>v r. compact v \<and> decodeRequest v = Some r) vs rs"
      "list_all2 (\<lambda>r q. batchRequest r = Inr q) rs qs" by blast
  have comp: "\<forall>v \<in> set vs. compact v"
    using rs(1) by (induction vs rs rule: list_all2_induct) auto
  have "those (map decodeRequest vs) = Some rs"
    by (rule those_all2) (use rs(1) in \<open>auto elim: list_all2_mono\<close>)
  then have "unmarshalRequests lib (render_array vs) = Inr rs"
    using json_array_render [OF comp] by (simp add: unmarshalRequests_def compact_valid)
  then show ?thesis
    using batchLoop_all2 [OF rs(2)] by (simp add: parseBatchRequest_def)
qed

section \<open>Lemmas on the stream\<close>

lemma decodeRaw_compact:
  assumes "compact v" "tail_ok [] t"
  shows "decodeRaw lib (v @ t) = Inr (v, t)"
proof -
  have "json_scan (v @ t) = Some t"
    using compact_scan [OF assms(1) _ assms(2), of "Suc (2 * length (v @ t))"]
    by (simp add: json_scan_def)
  then show ?thesis
    using assms(1) by (simp add: decodeRaw_def Let_def) (simp add: compact_def)
qed

lemma decodeRaw_rest: "decodeRaw lib s = Inr (v, rest) \<Longrightarrow> length rest < length s"
  using skip_ws_length [of s] scan_length(1)
  by (fastforce simp: decodeRaw_def json_scan_def Let_def split: if_splits option.splits)

lemma ReadRequestHeaders_progress:
  "ReadRequestHeaders lib c = ((qs, b, None), c') \<Longrightarrow> length (cIn c') < length (cIn c)"
  using decodeRaw_rest [of lib "cIn c"]
  by (auto simp: ReadRequestHeaders_def split: sum.splits prod.splits)

section \<open>An instance of the library\<close>

text \<open>
  A library for examples: integers are read from and written as number literals, any other
  value by its raw text.
\<close>

definition basicLib :: jsonlib where
  "basicLib =
     \<lparr>unmarshalErr = (\<lambda>_. ''json: cannot unmarshal''),
      decodeArg = (\<lambda>t v. if is_null v then Inr (GZero t)
         else if Kind (Elem t) = KInt \<and> \<not> is_number_lit v then Inl ''json: cannot unmarshal''
         else Inr (GVal v)),
      marshal = (\<lambda>v. case v of GVal r \<Rightarrow> Inr r | GZero _ \<Rightarrow> Inr ''null'' | _ \<Rightarrow> Inr ''{}'')\<rparr>"

theorem parsePositionalArguments_iff_witness:
  "parsePositionalArguments basicLib ''[1]''
      [Ty ''int'' '''' KInt False, Ptr (Ty ''int'' '''' KInt False)] =
     Inr [GVal ''1'', GZero (Ptr (Ty ''int'' '''' KInt False))]"
proof -
  have "json_array ''[1]'' = Some [''1'']" by code_simp
  moreover have "decodeValue basicLib (Ty ''int'' '''' KInt False) ''1'' = Inr (GVal ''1'')"
    by code_simp
  ultimately show ?thesis
    unfolding parsePositionalArguments_iff by (simp add: less_Suc_eq)
qed

theorem parseBatchRequest_pointwise_witness:
  "parseBatchRequest basicLib (render_array [''{\"id\":1,\"method\":\"rpc_modules\"}'']) =
     ([zeroRpcRequest\<lparr>rqService := ''rpc'', rqMethod := ''modules'', rqId := Some ''1''\<rparr>], True, None)"
proof -
  have "compact ''{\"id\":1,\"method\":\"rpc_modules\"}''" by code_simp
  moreover have "parseRequest basicLib ''{\"id\":1,\"method\":\"rpc_modules\"}'' =
      ([zeroRpcRequest\<lparr>rqService := ''rpc'', rqMethod := ''modules'', rqId := Some ''1''\<rparr>], False, None)"
    by code_simp
  ultimately show ?thesis
    using parseBatchRequest_pointwise
      [of basicLib "[''{\"id\":1,\"method\":\"rpc_modules\"}'']"
        "[zeroRpcRequest\<lparr>rqService := ''rpc'', rqMethod := ''modules'', rqId := Some ''1''\<rparr>]"]
    by simp
qed

end
