(* ===== verification/Subscription.thy ===== *)
theory Subscription
  imports Codec
begin

text \<open>
  Subscriptions of one connection, \<^verbatim>\<open>src/rpc/subscription.go\<close>. A subscription object is modelled by
  its identifier, its namespace and the channel that is closed when the client unsubscribes;
  channels are numbered in the order they are made. Closing a channel twice panics in Go: the
  operations that close a channel return \<^term>\<open>None\<close> for the panic.
\<close>

definition ErrNotificationsUnsupported :: string where
  "ErrNotificationsUnsupported = ''notifications not supported''"

definition ErrSubscriptionNotFound :: string where
  "ErrSubscriptionNotFound = ''subscription not found''"

record Subscription =
  sID :: ID
  sNamespace :: string
  sErr :: nat

record Notifier =
  nActive :: "ID \<rightharpoonup> Subscription"
  nInactive :: "ID \<rightharpoonup> Subscription"
  nChans :: nat
  nClosedChans :: "nat list"

definition newNotifier :: Notifier where
  "newNotifier = \<lparr>nActive = Map.empty, nInactive = Map.empty, nChans = 0, nClosedChans = []\<rparr>"

text \<open>\<^verbatim>\<open>CreateSubscription\<close> takes the identifier that \<^verbatim>\<open>NewID()\<close> returned as an argument.\<close>

definition CreateSubscription :: "ID \<Rightarrow> Notifier \<Rightarrow> Subscription \<times> Notifier" where
  "CreateSubscription newID n =
     (let s = \<lparr>sID = newID, sNamespace = '''', sErr = nChans n\<rparr>
      in (s, n\<lparr>nInactive := (nInactive n)(newID \<mapsto> s), nChans := nChans n + 1\<rparr>))"

definition Notify :: "jsonlib \<Rightarrow> ID \<Rightarrow> govalue option \<Rightarrow> Notifier \<Rightarrow> codec \<Rightarrow> string option \<times> codec" where
  "Notify lib i data n c =
     (case nActive n i of
        None \<Rightarrow> (None, c)
      | Some sub \<Rightarrow>
          (case Write lib (Single (CreateNotification i (sNamespace sub) data)) c of
             (Some err, c') \<Rightarrow> (Some err, Close c')
           | (None, c') \<Rightarrow> (None, c')))"

definition closeChan :: "nat \<Rightarrow> Notifier \<Rightarrow> Notifier option" where
  "closeChan ch n =
     (if ch \<in> set (nClosedChans n) then None
      else Some (n\<lparr>nClosedChans := ch # nClosedChans n\<rparr>))"

definition unsubscribe :: "ID \<Rightarrow> Notifier \<Rightarrow> (string option \<times> Notifier) option" where
  "unsubscribe i n =
     (case nActive n i of
        None \<Rightarrow> Some (Some ErrSubscriptionNotFound, n)
      | Some s \<Rightarrow>
          (case closeChan (sErr s) n of
             None \<Rightarrow> None
           | Some n' \<Rightarrow> Some (None, n'\<lparr>nActive := (nActive n')(i := None)\<rparr>)))"

definition activate :: "ID \<Rightarrow> string \<Rightarrow> Notifier \<Rightarrow> Notifier" where
  "activate i namespace n =
     (case nInactive n i of
        None \<Rightarrow> n
      | Some sub \<Rightarrow>
          n\<lparr>nActive := (nActive n)(i \<mapsto> sub\<lparr>sNamespace := namespace\<rparr>),
            nInactive := (nInactive n)(i := None)\<rparr>)"

section \<open>Invariant\<close>

text \<open>
  Every subscription is filed under its own identifier, the channels of the subscriptions that are
  filed are open, were made by this notifier, and no two of them are the same.
\<close>

definition filed :: "Notifier \<Rightarrow> bool \<times> ID \<Rightarrow> Subscription option" where
  "filed n k = (if fst k then nActive n (snd k) else nInactive n (snd k))"

definition notifier_inv :: "Notifier \<Rightarrow> bool" where
  "notifier_inv n \<longleftrightarrow>
     (\<forall>k s. filed n k = Some s \<longrightarrow>
        sID s = snd k \<and> sErr s < nChans n \<and> sErr s \<notin> set (nClosedChans n)) \<and>
     (\<forall>k k' s s'. filed n k = Some s \<and> filed n k' = Some s' \<and> sErr s = sErr s' \<longrightarrow> k = k') \<and>
     (\<forall>ch \<in> set (nClosedChans n). ch < nChans n)"

lemma filed_simps [simp]:
  "filed n (True, i) = nActive n i" "filed n (False, i) = nInactive n i"
  by (simp_all add: filed_def)

lemma notifier_invD:
  assumes "notifier_inv n" "filed n k = Some s"
  shows "sID s = snd k" "sErr s < nChans n" "sErr s \<notin> set (nClosedChans n)"
    "filed n k' = Some s' \<Longrightarrow> sErr s = sErr s' \<Longrightarrow> k = k'"
  using assms unfolding notifier_inv_def by blast+

lemma notifier_inv_new [rpc_inv]: "notifier_inv newNotifier"
  by (auto simp: notifier_inv_def newNotifier_def filed_def)

lemma filed_create:
  "CreateSubscription i n = (s, n') \<Longrightarrow>
     filed n' k = (if k = (False, i) then Some s else filed n k)"
  by (cases k) (auto simp: CreateSubscription_def filed_def Let_def)

lemma notifier_inv_create [rpc_inv]:
  assumes "notifier_inv n" "CreateSubscription i n = (s, n')"
  shows "notifier_inv n'"
proof -
  have f: "filed n' k = (if k = (False, i) then Some s else filed n k)" for k
    using assms(2) by (rule filed_create)
  have s: "sID s = i" "sErr s = nChans n" "nChans n' = nChans n + 1" "nClosedChans n' = nClosedChans n"
    using assms(2) by (auto simp: CreateSubscription_def Let_def)
  have lt: "\<forall>ch \<in> set (nClosedChans n). ch < nChans n" using assms(1) by (simp add: notifier_inv_def)
  have old: "sErr t \<noteq> nChans n" if "filed n k = Some t" for k t
    using notifier_invD(2) [OF assms(1) that] by simp
  show ?thesis
    unfolding notifier_inv_def
  proof (intro conjI allI impI ballI)
    fix k t assume "filed n' k = Some t"
    then show "sID t = snd k" "sErr t < nChans n'" "sErr t \<notin> set (nClosedChans n')"
      using notifier_invD(1-3) [OF assms(1), of k t] s lt by (auto simp: f split: if_splits)
  next
    fix k k' t t' assume "filed n' k = Some t \<and> filed n' k' = Some t' \<and> sErr t = sErr t'"
    then show "k = k'"
      using notifier_invD(4) [OF assms(1), of k t k' t'] old [of k t] old [of k' t'] s
      by (auto simp: f split: if_splits)
  next
    fix ch assume "ch \<in> set (nClosedChans n')"
    then show "ch < nChans n'" using lt s by auto
  qed
qed

text \<open>Moving or dropping filed subscriptions keeps the invariant.\<close>

lemma notifier_inv_sub:
  assumes "notifier_inv n" "nChans n' = nChans n" "nClosedChans n' = cs"
    and "\<And>k s. filed n' k = Some s \<Longrightarrow>
           \<exists>k' s'. filed n k' = Some s' \<and> sErr s' = sErr s \<and> sID s' = sID s \<and> snd k' = snd k \<and>
             sErr s \<notin> set cs"
    and "\<And>k k' s s'. filed n' k = Some s \<Longrightarrow> filed n' k' = Some s' \<Longrightarrow> sErr s = sErr s' \<Longrightarrow> k = k'"
    and "\<forall>ch \<in> set cs. ch < nChans n"
  shows "notifier_inv n'"
  unfolding notifier_inv_def
proof (intro conjI allI impI ballI)
  fix k s assume k: "filed n' k = Some s"
  then obtain k' s' where s': "filed n k' = Some s'" "sErr s' = sErr s" "sID s' = sID s"
      "snd k' = snd k" "sErr s \<notin> set cs"
    using assms(4) by blast
  show "sID s = snd k" "sErr s < nChans n'" "sErr s \<notin> set (nClosedChans n')"
    using notifier_invD(1-3) [OF assms(1) s'(1)] s' assms(2,3) by auto
next
  fix k k' s s' assume "filed n' k = Some s \<and> filed n' k' = Some s' \<and> sErr s = sErr s'"
  then show "k = k'" using assms(5) by blast
next
  fix ch assume "ch \<in> set (nClosedChans n')"
  then show "ch < nChans n'" using assms(2,3,6) by auto
qed

lemma closeChan_open:
  "ch \<notin> set (nClosedChans n) \<Longrightarrow> closeChan ch n = Some (n\<lparr>nClosedChans := ch # nClosedChans n\<rparr>)"
  by (simp add: closeChan_def)

text \<open>Under the invariant unsubscribing does not panic; this is its result.\<close>

lemma unsubscribe_eq:
  assumes "notifier_inv n"
  shows "unsubscribe i n =
     Some (case nActive n i of
        None \<Rightarrow> (Some ErrSubscriptionNotFound, n)
      | Some s \<Rightarrow> (None, n\<lparr>nActive := (nActive n)(i := None), nClosedChans := sErr s # nClosedChans n\<rparr>))"
proof (cases "nActive n i")
  case (Some s)
  then have "sErr s \<notin> set (nClosedChans n)"
    using notifier_invD(3) [OF assms, of "(True, i)" s] by simp
  then show ?thesis using Some by (simp add: unsubscribe_def closeChan_open)
qed (simp add: unsubscribe_def)

lemma notifier_inv_unsubscribe [rpc_inv]:
  assumes inv: "notifier_inv n" and u: "unsubscribe i n = Some (e, n')"
  shows "notifier_inv n'"
proof (cases "nActive n i")
  case None
  then show ?thesis using inv u by (simp add: unsubscribe_eq)
next
  case (Some s)
  have n': "n' = n\<lparr>nActive := (nActive n)(i := None), nClosedChans := sErr s # nClosedChans n\<rparr>"
    using u Some inv by (simp add: unsubscribe_eq)
  have s: "filed n (True, i) = Some s" using Some by simp
  have f: "filed n' k = Some t \<longleftrightarrow> k \<noteq> (True, i) \<and> filed n k = Some t" for k t
    by (cases k) (auto simp: n' filed_def)
  show ?thesis
  proof (rule notifier_inv_sub [OF inv, where cs = "sErr s # nClosedChans n"])
    fix k t assume "filed n' k = Some t"
    then have k: "k \<noteq> (True, i)" "filed n k = Some t" using f by simp_all
    then have "sErr t \<noteq> sErr s" using notifier_invD(4) [OF inv k(2) s] by blast
    then show "\<exists>k' s'. filed n k' = Some s' \<and> sErr s' = sErr t \<and> sID s' = sID t \<and> snd k' = snd k \<and>
        sErr t \<notin> set (sErr s # nClosedChans n)"
      using k notifier_invD(3) [OF inv k(2)] by (intro exI [of _ k] exI [of _ t]) simp
  next
    show "\<forall>ch \<in> set (sErr s # nClosedChans n). ch < nChans n"
      using inv notifier_invD(2) [OF inv s] by (auto simp: notifier_inv_def)
  qed (use notifier_invD(4) [OF inv] f in \<open>simp_all add: n'\<close>)
qed

lemma activate_cases [case_names absent moved]:
  obtains "nInactive n i = None" "activate i ns n = n"
  | s where "nInactive n i = Some s"
      "activate i ns n = n\<lparr>nActive := (nActive n)(i \<mapsto> s\<lparr>sNamespace := ns\<rparr>),
         nInactive := (nInactive n)(i := None)\<rparr>"
  by (cases "nInactive n i") (auto simp: activate_def)

lemma notifier_inv_activate [rpc_inv]:
  assumes inv: "notifier_inv n"
  shows "notifier_inv (activate i ns n)"
proof (cases rule: activate_cases [of n i ns])
  case (moved s)
  let ?n = "activate i ns n"
  have f: "filed ?n k = (if k = (True, i) then Some (s\<lparr>sNamespace := ns\<rparr>)
      else if k = (False, i) then None else filed n k)" for k
    by (cases k) (auto simp: moved(2) filed_def)
  have s: "filed n (False, i) = Some s" using moved(1) by simp
  show ?thesis
  proof (rule notifier_inv_sub [OF inv, where cs = "nClosedChans n"])
    fix k t assume k: "filed ?n k = Some t"
    let ?k = "if k = (True, i) then (False, i) else k" and ?s = "if k = (True, i) then s else t"
    have "filed n ?k = Some ?s" "sErr ?s = sErr t" "sID ?s = sID t" "snd ?k = snd k"
      using k s by (auto simp: f split: if_splits)
    then show "\<exists>k' s'. filed n k' = Some s' \<and> sErr s' = sErr t \<and> sID s' = sID t \<and> snd k' = snd k \<and>
        sErr t \<notin> set (nClosedChans n)"
      using notifier_invD(3) [OF inv, of ?k ?s] by metis
  next
    fix k k' t t' assume *: "filed ?n k = Some t" "filed ?n k' = Some t'" "sErr t = sErr t'"
    have "(if k = (True, i) then (False, i) else k) = (if k' = (True, i) then (False, i) else k')"
    proof (rule notifier_invD(4) [OF inv])
      show "filed n (if k = (True, i) then (False, i) else k) = Some (if k = (True, i) then s else t)"
        "filed n (if k' = (True, i) then (False, i) else k') = Some (if k' = (True, i) then s else t')"
        using * s by (auto simp: f split: if_splits)
      show "sErr (if k = (True, i) then s else t) = sErr (if k' = (True, i) then s else t')"
        using * by (auto simp: f split: if_splits)
    qed
    then show "k = k'" using * by (auto simp: f split: if_splits)
  next
    show "\<forall>ch \<in> set (nClosedChans n). ch < nChans n" using inv by (simp add: notifier_inv_def)
  qed (simp_all add: moved(2))
qed (use inv in simp)

section \<open>Specification\<close>

text \<open>
  What the notifier promises: it keeps a set of active and a set of inactive identifiers, and a
  count of the channels that were closed.
\<close>

datatype notifier_op = OpCreate ID | OpActivate ID string | OpUnsubscribe ID

fun notifierStep :: "notifier_op \<Rightarrow> Notifier \<Rightarrow> Notifier option" where
  "notifierStep (OpCreate i) n = Some (snd (CreateSubscription i n))"
| "notifierStep (OpActivate i ns) n = Some (activate i ns n)"
| "notifierStep (OpUnsubscribe i) n = map_option snd (unsubscribe i n)"

record notifier_spec =
  spActive :: "ID set"
  spInactive :: "ID set"
  spClosed :: nat

fun specStep :: "notifier_op \<Rightarrow> notifier_spec \<Rightarrow> notifier_spec" where
  "specStep (OpCreate i) a = a\<lparr>spInactive := insert i (spInactive a)\<rparr>"
| "specStep (OpActivate i ns) a =
     (if i \<in> spInactive a
      then a\<lparr>spActive := insert i (spActive a), spInactive := spInactive a - {i}\<rparr> else a)"
| "specStep (OpUnsubscribe i) a =
     (if i \<in> spActive a
      then a\<lparr>spActive := spActive a - {i}, spClosed := spClosed a + 1\<rparr> else a)"

definition notifierAbs :: "Notifier \<Rightarrow> notifier_spec" where
  "notifierAbs n = \<lparr>spActive = dom (nActive n), spInactive = dom (nInactive n),
     spClosed = length (nClosedChans n)\<rparr>"

lemma specStep_create: "notifierAbs (snd (CreateSubscription i n)) = specStep (OpCreate i) (notifierAbs n)"
  by (simp add: notifierAbs_def CreateSubscription_def Let_def)

lemma specStep_activate: "notifierAbs (activate i ns n) = specStep (OpActivate i ns) (notifierAbs n)"
  by (cases rule: activate_cases [of n i ns]) (auto simp: notifierAbs_def)

lemma specStep_unsubscribe:
  "notifier_inv n \<Longrightarrow> unsubscribe i n = Some (e, n') \<Longrightarrow>
     notifierAbs n' = specStep (OpUnsubscribe i) (notifierAbs n)"
  by (cases "nActive n i") (auto simp: unsubscribe_eq notifierAbs_def split: if_splits)

interpretation notifier_machine: implements_machine notifier_inv notifierStep notifierAbs specStep
proof
  fix s s' :: Notifier and op
  assume inv: "notifier_inv s"
  show "\<exists>s'. notifierStep op s = Some s'"
    by (cases op) (simp_all add: unsubscribe_eq [OF inv])
  show "notifier_inv s'" if "notifierStep op s = Some s'"
    using that inv notifier_inv_create [OF inv surjective_pairing]
    by (cases op) (auto intro: rpc_inv)
  show "notifierAbs s' = specStep op (notifierAbs s)" if "notifierStep op s = Some s'"
    using that inv
    by (cases op) (auto simp: specStep_create specStep_activate specStep_unsubscribe simp del: specStep.simps)
qed

text \<open>
  C33. Whatever the order in which subscriptions are created, activated and cancelled, the notifier
  of a connection never panics (no error channel is closed twice, even when identifiers collide),
  its active and inactive identifiers are those of the specification, and each successful
  unsubscribe closes exactly one channel.
\<close>

theorem notifier_refines:
  "\<exists>n. run_ops notifierStep ops newNotifier = Some n \<and> notifier_inv n \<and>
     notifierAbs n = fold specStep ops \<lparr>spActive = {}, spInactive = {}, spClosed = 0\<rparr>"
proof -
  have "notifierAbs newNotifier = \<lparr>spActive = {}, spInactive = {}, spClosed = 0\<rparr>"
    by (simp add: notifierAbs_def newNotifier_def)
  then show ?thesis using notifier_machine.run_total [OF notifier_inv_new] by metis
qed

end
