(* ===== verification/Server.thy ===== *)
theory Server
  imports Subscription "HOL-Library.Multiset"
begin

text \<open>
  The RPC server, \<^verbatim>\<open>src/rpc/server.go\<close> with the types of \<^verbatim>\<open>src/rpc/types.go\<close>: registration of
  services, verification of requests against the registry, execution of requests and batches, and
  the loop that serves a connection.

  The code behind a callback is not part of the package: it is the argument \<open>call\<close> of the
  definitions, which maps the callback, its arguments and a state of the outside world to a new
  state, the calls it makes on the notifier it finds in its context, and its results, or to
  \<^term>\<open>None\<close> when it panics. All other panics of the code (a call with the wrong number of inputs, a
  missing result, a nil notifier) are \<^term>\<open>None\<close> as well.
\<close>

section \<open>Services\<close>

record service =
  svName :: string
  svCallbacks :: callbacks
  svSubscriptions :: subscriptions

type_synonym serviceRegistry = "string \<rightharpoonup> service"

definition MetadataApi :: string where
  "MetadataApi = ''rpc''"

text \<open>An object to register: its identity, its type and the method set of that type.\<close>

record gobject =
  oRcvr :: nat
  oType :: gotype
  oMethods :: "gomethod list"

fun Indirect :: "gotype \<Rightarrow> gotype" where
  "Indirect (Ptr t) = t"
| "Indirect t = t"

fun typeName :: "gotype \<Rightarrow> string" where
  "typeName (Ptr _) = ''''"
| "typeName (Ty n _ _ _) = n"

fun typeString :: "gotype \<Rightarrow> string" where
  "typeString (Ptr t) = ''*'' @ typeString t"
| "typeString (Ty n p _ _) = (if p = '''' then n else last (Split1 (CHR ''/'') p) @ ''.'' @ n)"

text \<open>No method of the object is in either table.\<close>

definition exposesNothing :: "gomethod list \<Rightarrow> callbacks \<times> subscriptions \<Rightarrow> bool" where
  "exposesNothing ms t \<longleftrightarrow>
     list_all (\<lambda>m. fst t (formatName (mName m)) = None \<and> snd t (formatName (mName m)) = None) ms"

definition RegisterName ::
  "string \<Rightarrow> gobject \<Rightarrow> serviceRegistry \<Rightarrow> string option \<times> serviceRegistry" where
  "RegisterName name obj services =
     (if name = '''' then (Some (''no service name for type '' @ typeString (oType obj)), services)
      else if \<not> isExported (typeName (Indirect (oType obj))) then
        (Some (typeName (Indirect (oType obj)) @ '' is not exported''), services)
      else
        let t = suitableCallbacks (oRcvr obj) (oMethods obj) in
        if exposesNothing (oMethods obj) t then
          (Some (''Service '' @ typeString (oType obj) @
             '' doesn't have any suitable methods/subscriptions to expose''), services)
        else
          (case services name of
             Some regsvc \<Rightarrow>
               (None, services(name \<mapsto> regsvc\<lparr>svCallbacks := svCallbacks regsvc ++ fst t,
                  svSubscriptions := svSubscriptions regsvc ++ snd t\<rparr>))
           | None \<Rightarrow>
               (None, services(name \<mapsto>
                  \<lparr>svName = name, svCallbacks = fst t, svSubscriptions = snd t\<rparr>))))"

definition Modules :: "serviceRegistry \<Rightarrow> string \<rightharpoonup> string" where
  "Modules services name = map_option (\<lambda>_. ''1.0'') (services name)"

text \<open>The metadata service that every server registers for itself.\<close>

definition rpcService :: gobject where
  "rpcService =
     \<lparr>oRcvr = 0, oType = Ptr (Ty ''RPCService'' ''go-eth/rpc'' KStruct False),
      oMethods = [\<lparr>mName = ''Modules'', mPkgPath = '''',
         mIn = [Ptr (Ty ''RPCService'' ''go-eth/rpc'' KStruct False)],
         mOut = [Ty '''' '''' KMap False], mFun = 0\<rparr>]\<rparr>"

record Server =
  services :: serviceRegistry
  running :: bool
  codecs :: "nat set"

definition NewServer :: Server where
  "NewServer = \<lparr>services = snd (RegisterName MetadataApi rpcService Map.empty),
     running = True, codecs = {}\<rparr>"

section \<open>Verification of requests\<close>

record serverRequest =
  srId :: "raw option"
  srSvcname :: string
  srCallb :: "callback option"
  srArgs :: "govalue list"
  srIsUnsubscribe :: bool
  srErr :: "rpc_error option"

definition newServerRequest :: "raw option \<Rightarrow> serverRequest" where
  "newServerRequest i = \<lparr>srId = i, srSvcname = '''', srCallb = None, srArgs = [],
     srIsUnsubscribe = False, srErr = None\<rparr>"

text \<open>Storing the result of parsing the arguments in a request.\<close>

definition withArgs :: "rpc_error + govalue list \<Rightarrow> serverRequest \<Rightarrow> serverRequest" where
  "withArgs res q =
     (case res of
        Inr args \<Rightarrow> q\<lparr>srArgs := args\<rparr>
      | Inl err \<Rightarrow> q\<lparr>srErr := Some (invalidParamsError (ErrorText err))\<rparr>)"

definition verifyRequest :: "jsonlib \<Rightarrow> serviceRegistry \<Rightarrow> rpcRequest \<Rightarrow> serverRequest" where
  "verifyRequest lib svcs r =
     (let q = newServerRequest (rqId r);
          notFound = q\<lparr>srErr := Some (methodNotFoundError (rqService r) (rqMethod r))\<rparr> in
      case rqErr r of
        Some e \<Rightarrow> q\<lparr>srErr := Some e\<rparr>
      | None \<Rightarrow>
          if rqPubSub r \<and> HasSuffix (rqMethod r) unsubscribeMethodSuffix then
            withArgs (ParseRequestArguments lib [stringType] (rqParams r)) (q\<lparr>srIsUnsubscribe := True\<rparr>)
          else
            (case svcs (rqService r) of
               None \<Rightarrow> notFound
             | Some svc \<Rightarrow>
                 if rqPubSub r then
                   (case svSubscriptions svc (rqMethod r) of
                      None \<Rightarrow> notFound
                    | Some callb \<Rightarrow>
                        let q' = q\<lparr>srSvcname := svName svc, srCallb := Some callb\<rparr> in
                        if rqParams r \<noteq> None \<and> 0 < length (argTypes callb) then
                          withArgs (map_sum id tl
                            (ParseRequestArguments lib (stringType # argTypes callb) (rqParams r))) q'
                        else q')
                 else
                   (case svCallbacks svc (rqMethod r) of
                      None \<Rightarrow> notFound
                    | Some callb \<Rightarrow>
                        let q' = q\<lparr>srSvcname := svName svc, srCallb := Some callb\<rparr> in
                        if rqParams r \<noteq> None \<and> 0 < length (argTypes callb) then
                          withArgs (ParseRequestArguments lib (argTypes callb) (rqParams r)) q'
                        else q')))"

definition readRequest ::
  "jsonlib \<Rightarrow> serviceRegistry \<Rightarrow> codec \<Rightarrow> (serverRequest list \<times> bool \<times> rpc_error option) \<times> codec" where
  "readRequest lib svcs c =
     (case ReadRequestHeaders lib c of
        ((reqs, batch, Some err), c') \<Rightarrow> (([], batch, Some err), c')
      | ((reqs, batch, None), c') \<Rightarrow> ((map (verifyRequest lib svcs) reqs, batch, None), c'))"

section \<open>Execution\<close>

text \<open>
  The state of a connection: the notifier that the context carries (none for HTTP), the codec,
  and the outside world.
\<close>

record 'w conn =
  cnNotifier :: "Notifier option"
  cnCodec :: codec
  cnWorld :: 'w

datatype act = ActCreate ID | ActNotify ID "govalue option"

type_synonym 'w code = "callback \<Rightarrow> govalue list \<Rightarrow> 'w \<Rightarrow> ('w \<times> act list \<times> govalue list) option"

definition runAct :: "jsonlib \<Rightarrow> act \<Rightarrow> 'w conn \<Rightarrow> 'w conn" where
  "runAct lib a cn =
     (case cnNotifier cn of
        None \<Rightarrow> cn
      | Some n \<Rightarrow>
          (case a of
             ActCreate i \<Rightarrow> cn\<lparr>cnNotifier := Some (snd (CreateSubscription i n))\<rparr>
           | ActNotify i d \<Rightarrow> cn\<lparr>cnCodec := snd (Notify lib i d n (cnCodec cn))\<rparr>))"

text \<open>\<^verbatim>\<open>reflect.Value.Call\<close> with \<open>nIn\<close> inputs; it panics when the method takes another number.\<close>

definition reflectCall ::
  "jsonlib \<Rightarrow> 'w code \<Rightarrow> callback \<Rightarrow> nat \<Rightarrow> govalue list \<Rightarrow> 'w conn \<Rightarrow> (govalue list \<times> 'w conn) option" where
  "reflectCall lib call cb nIn args cn =
     (if nIn \<noteq> length (mIn (cmethod cb)) then None
      else case call cb args (cnWorld cn) of
             None \<Rightarrow> None
           | Some (w, acts, reply) \<Rightarrow> Some (reply, fold (runAct lib) acts (cn\<lparr>cnWorld := w\<rparr>)))"

definition createSubscription ::
  "jsonlib \<Rightarrow> 'w code \<Rightarrow> callback \<Rightarrow> govalue list \<Rightarrow> 'w conn \<Rightarrow> ((string + ID) \<times> 'w conn) option" where
  "createSubscription lib call cb args cn =
     (case reflectCall lib call cb (2 + length args) args cn of
        None \<Rightarrow> None
      | Some (reply, cn') \<Rightarrow>
          (case reply of
             [r0, r1] \<Rightarrow>
               if r1 \<noteq> GNil then (case r1 of GError e \<Rightarrow> Some (Inl e, cn') | _ \<Rightarrow> None)
               else (case r0 of GSub i \<Rightarrow> Some (Inr i, cn') | _ \<Rightarrow> None)
           | _ \<Rightarrow> None))"

text \<open>
  \<^verbatim>\<open>handle\<close> returns the response and, for a subscription, the identifier and the namespace with
  which the function it returns activates the subscription.
\<close>

type_synonym activation = "(ID \<times> string) option"

definition handleUnsubscribe ::
  "serverRequest \<Rightarrow> 'w conn \<Rightarrow> (response \<times> activation \<times> 'w conn) option" where
  "handleUnsubscribe req cn =
     (case srArgs req of
        GStr subid # _ \<Rightarrow>
          (case cnNotifier cn of
             None \<Rightarrow> Some (CreateErrorResponse (srId req) (callbackError ErrNotificationsUnsupported), None, cn)
           | Some n \<Rightarrow>
               (case unsubscribe subid n of
                  None \<Rightarrow> None
                | Some (Some e, n') \<Rightarrow>
                    Some (CreateErrorResponse (srId req) (callbackError e), None, cn\<lparr>cnNotifier := Some n'\<rparr>)
                | Some (None, n') \<Rightarrow>
                    Some (CreateResponse (srId req) (GBool True), None, cn\<lparr>cnNotifier := Some n'\<rparr>)))
      | _ \<Rightarrow> Some (CreateErrorResponse (srId req)
               (invalidParamsError ''Expected subscription id as first argument''), None, cn))"

definition handleCall ::
  "jsonlib \<Rightarrow> 'w code \<Rightarrow> serverRequest \<Rightarrow> callback \<Rightarrow> 'w conn \<Rightarrow> (response \<times> activation \<times> 'w conn) option" where
  "handleCall lib call req cb cn =
     (if length (srArgs req) \<noteq> length (argTypes cb) then
        Some (CreateErrorResponse (srId req)
          (invalidParamsError (srSvcname req @ serviceMethodSeparator @ mName (cmethod cb) @ '' expects '' @
             itoa (length (argTypes cb)) @ '' parameters, got '' @ itoa (length (srArgs req)))), None, cn)
      else case reflectCall lib call cb
                  (1 + (if hasCtx cb then 1 else 0) + length (srArgs req)) (srArgs req) cn of
             None \<Rightarrow> None
           | Some (reply, cn') \<Rightarrow>
               if length reply = 0 then Some (CreateResponse (srId req) GNil, None, cn')
               else if 0 \<le> errPos cb \<and> length reply \<le> nat (errPos cb) then None
               else if 0 \<le> errPos cb \<and> reply ! nat (errPos cb) \<noteq> GNil then
                 (case reply ! nat (errPos cb) of
                    GError e \<Rightarrow> Some (CreateErrorResponse (srId req) (callbackError e), None, cn')
                  | _ \<Rightarrow> None)
               else Some (CreateResponse (srId req) (reply ! 0), None, cn'))"

definition handle ::
  "jsonlib \<Rightarrow> 'w code \<Rightarrow> serverRequest \<Rightarrow> 'w conn \<Rightarrow> (response \<times> activation \<times> 'w conn) option" where
  "handle lib call req cn =
     (case srErr req of
        Some e \<Rightarrow> Some (CreateErrorResponse (srId req) e, None, cn)
      | None \<Rightarrow>
          if srIsUnsubscribe req then handleUnsubscribe req cn
          else
            (case srCallb req of
               None \<Rightarrow> None
             | Some cb \<Rightarrow>
                 if isSubscribe cb then
                   (case createSubscription lib call cb (srArgs req) cn of
                      None \<Rightarrow> None
                    | Some (Inl e, cn') \<Rightarrow>
                        Some (CreateErrorResponse (srId req) (callbackError e), None, cn')
                    | Some (Inr subid, cn') \<Rightarrow>
                        Some (CreateResponse (srId req) (GId subid), Some (subid, srSvcname req), cn'))
                 else handleCall lib call req cb cn))"

text \<open>The function that \<^verbatim>\<open>handle\<close> returns for a subscription; a nil notifier panics.\<close>

definition runActivation :: "ID \<times> string \<Rightarrow> 'w conn \<Rightarrow> 'w conn option" where
  "runActivation a cn =
     (case cnNotifier cn of
        None \<Rightarrow> None
      | Some n \<Rightarrow> Some (cn\<lparr>cnNotifier := Some (activate (fst a) (snd a) n)\<rparr>))"

definition writeMessage :: "jsonlib \<Rightarrow> message \<Rightarrow> 'w conn \<Rightarrow> 'w conn" where
  "writeMessage lib msg cn =
     (case Write lib msg (cnCodec cn) of
        (Some err, c) \<Rightarrow> cn\<lparr>cnCodec := Close c\<rparr>
      | (None, c) \<Rightarrow> cn\<lparr>cnCodec := c\<rparr>)"

definition exec :: "jsonlib \<Rightarrow> 'w code \<Rightarrow> serverRequest \<Rightarrow> 'w conn \<Rightarrow> 'w conn option" where
  "exec lib call req cn =
     (case (case srErr req of
              Some e \<Rightarrow> Some (CreateErrorResponse (srId req) e, None, cn)
            | None \<Rightarrow> handle lib call req cn) of
        None \<Rightarrow> None
      | Some (response, callback, cn') \<Rightarrow>
          (let cn'' = writeMessage lib (Single response) cn' in
           case callback of None \<Rightarrow> Some cn'' | Some a \<Rightarrow> runActivation a cn''))"

fun batchResponses ::
  "jsonlib \<Rightarrow> 'w code \<Rightarrow> serverRequest list \<Rightarrow> 'w conn \<Rightarrow>
     (response list \<times> (ID \<times> string) list \<times> 'w conn) option" where
  "batchResponses lib call [] cn = Some ([], [], cn)"
| "batchResponses lib call (req # reqs) cn =
     (case (case srErr req of
              Some e \<Rightarrow> Some (CreateErrorResponse (srId req) e, None, cn)
            | None \<Rightarrow> handle lib call req cn) of
        None \<Rightarrow> None
      | Some (response, callback, cn') \<Rightarrow>
          (case batchResponses lib call reqs cn' of
             None \<Rightarrow> None
           | Some (resps, cbs, cn'') \<Rightarrow>
               Some (response # resps, (case callback of None \<Rightarrow> cbs | Some a \<Rightarrow> a # cbs), cn'')))"

definition execBatch :: "jsonlib \<Rightarrow> 'w code \<Rightarrow> serverRequest list \<Rightarrow> 'w conn \<Rightarrow> 'w conn option" where
  "execBatch lib call requests cn =
     (case batchResponses lib call requests cn of
        None \<Rightarrow> None
      | Some (responses, callbacks, cn') \<Rightarrow>
          run_ops runActivation callbacks (writeMessage lib (Batch responses) cn'))"

end
