(* ===== verification/Serve.thy ===== *)
theory Serve
  imports Server
begin

text \<open>
  Serving a connection, \<^verbatim>\<open>Server.serveRequest\<close>, \<^verbatim>\<open>ServeSingleRequest\<close>, \<^verbatim>\<open>ServeCodec\<close> and \<^verbatim>\<open>Stop\<close> of
  \<^verbatim>\<open>src/rpc/server.go\<close>. A single-shot connection (HTTP) is a function. A connection that
  is served with one goroutine per request is a transition system whose steps are the atomic pieces
  of these goroutines: reading, handling one request, writing a response, activating one
  subscription; they interleave with each other, with notifications sent by the services, and
  with a shutdown of the server.
\<close>

section \<open>Single-shot connections\<close>

text \<open>\<^verbatim>\<open>codec.Write(codec.CreateErrorResponse(nil, err))\<close> for an unreadable request.\<close>

definition writeReadError :: "jsonlib \<Rightarrow> rpc_error \<Rightarrow> codec \<Rightarrow> codec" where
  "writeReadError lib err c =
     (if ErrorText err \<noteq> ''EOF'' then snd (Write lib (Single (CreateErrorResponse None err)) c) else c)"

definition writeShutdown :: "jsonlib \<Rightarrow> serverRequest list \<Rightarrow> bool \<Rightarrow> codec \<Rightarrow> codec" where
  "writeShutdown lib reqs batch c =
     snd (Write lib
       (if batch then Batch (map (\<lambda>r. CreateErrorResponse (srId r) shutdownError) reqs)
        else Single (CreateErrorResponse (srId (hd reqs)) shutdownError)) c)"

text \<open>
  \<open>stillRunning\<close> is the value of \<^verbatim>\<open>s.run\<close> when it is loaded again after the read. The result is
  \<^term>\<open>None\<close> when the request panics (the code recovers and returns).
\<close>

definition serveSingle ::
  "jsonlib \<Rightarrow> 'w code \<Rightarrow> Server \<Rightarrow> bool \<Rightarrow> 'w conn \<Rightarrow> (rpc_error option \<times> 'w conn) option" where
  "serveSingle lib call srv stillRunning cn =
     (if \<not> running srv then Some (Some shutdownError, cn)
      else
        (case readRequest lib (services srv) (cnCodec cn) of
           ((reqs, batch, Some err), c) \<Rightarrow> Some (None, cn\<lparr>cnCodec := writeReadError lib err c\<rparr>)
         | ((reqs, batch, None), c) \<Rightarrow>
             if \<not> stillRunning then Some (None, cn\<lparr>cnCodec := writeShutdown lib reqs batch c\<rparr>)
             else map_option (Pair None)
               (if batch then execBatch lib call reqs (cn\<lparr>cnCodec := c\<rparr>)
                else exec lib call (hd reqs) (cn\<lparr>cnCodec := c\<rparr>))))"

section \<open>Connections with one goroutine per request\<close>

datatype job =
    Handling "serverRequest list" "response list" "(ID \<times> string) list" bool
  | Activating "(ID \<times> string) list"

record 'w sys =
  syConn :: "'w conn"
  syRun :: bool
  syReading :: bool
  syJobs :: "job list"
  syRead :: "raw option list"

definition setCodec :: "codec \<Rightarrow> 'w sys \<Rightarrow> 'w sys" where
  "setCodec c s = s\<lparr>syConn := (syConn s)\<lparr>cnCodec := c\<rparr>\<rparr>"

abbreviation sysCodec :: "'w sys \<Rightarrow> codec" where
  "sysCodec s \<equiv> cnCodec (syConn s)"

definition optList :: "'a option \<Rightarrow> 'a list" where
  "optList x = (case x of None \<Rightarrow> [] | Some y \<Rightarrow> [y])"

text \<open>\<^verbatim>\<open>Server.Stop\<close> clears the run flag and closes every codec.\<close>

definition Stop :: "'w sys \<Rightarrow> 'w sys" where
  "Stop s = (if syRun s then setCodec (Close (sysCodec s)) (s\<lparr>syRun := False\<rparr>) else s)"

inductive serve_step :: "jsonlib \<Rightarrow> 'w code \<Rightarrow> serviceRegistry \<Rightarrow> 'w sys \<Rightarrow> 'w sys \<Rightarrow> bool"
  for lib call svcs where
  read: "syReading s \<Longrightarrow> syRun s \<Longrightarrow>
    readRequest lib svcs (sysCodec s) = ((reqs, batch, None), c) \<Longrightarrow>
    serve_step lib call svcs s (setCodec c
      (s\<lparr>syJobs := syJobs s @ [Handling reqs [] [] batch], syRead := syRead s @ map srId reqs\<rparr>))"
| read_error: "syReading s \<Longrightarrow>
    readRequest lib svcs (sysCodec s) = ((reqs, batch, Some err), c) \<Longrightarrow>
    serve_step lib call svcs s (setCodec (writeReadError lib err c) (s\<lparr>syReading := False\<rparr>))"
| read_shutdown: "syReading s \<Longrightarrow> \<not> syRun s \<Longrightarrow>
    readRequest lib svcs (sysCodec s) = ((reqs, batch, None), c) \<Longrightarrow>
    serve_step lib call svcs s (setCodec (writeShutdown lib reqs batch c)
      (s\<lparr>syReading := False, syRead := syRead s @ map srId reqs\<rparr>))"
| loop_exit: "syReading s \<Longrightarrow> \<not> syRun s \<Longrightarrow> serve_step lib call svcs s (s\<lparr>syReading := False\<rparr>)"
| handle_one: "i < length (syJobs s) \<Longrightarrow> syJobs s ! i = Handling (req # reqs) resps cbs batch \<Longrightarrow>
    handle lib call req (syConn s) = Some (resp, cb, cn) \<Longrightarrow>
    serve_step lib call svcs s (s\<lparr>syConn := cn,
      syJobs := (syJobs s)[i := Handling reqs (resps @ [resp]) (cbs @ optList cb) batch]\<rparr>)"
| respond: "i < length (syJobs s) \<Longrightarrow> syJobs s ! i = Handling [] resps cbs batch \<Longrightarrow>
    serve_step lib call svcs s (s\<lparr>
      syConn := writeMessage lib (if batch then Batch resps else Single (hd resps)) (syConn s),
      syJobs := (syJobs s)[i := Activating cbs]\<rparr>)"
| activate_one: "i < length (syJobs s) \<Longrightarrow> syJobs s ! i = Activating (a # cbs) \<Longrightarrow>
    runActivation a (syConn s) = Some cn \<Longrightarrow>
    serve_step lib call svcs s (s\<lparr>syConn := cn, syJobs := (syJobs s)[i := Activating cbs]\<rparr>)"
| service: "serve_step lib call svcs s (s\<lparr>syConn := runAct lib a (syConn s)\<rparr>)"
| world: "serve_step lib call svcs s (s\<lparr>syConn := (syConn s)\<lparr>cnWorld := w\<rparr>\<rparr>)"
| break: "serve_step lib call svcs s (setCodec ((sysCodec s)\<lparr>cWritable := False\<rparr>) s)"
| stop: "serve_step lib call svcs s (Stop s)"
| teardown: "\<not> syReading s \<Longrightarrow> \<forall>j \<in> set (syJobs s). j = Activating [] \<Longrightarrow>
    serve_step lib call svcs s (setCodec (Close (sysCodec s)) s)"

inductive_cases serve_stepE: "serve_step lib call svcs s s'"

definition initSys :: "string \<Rightarrow> 'w \<Rightarrow> 'w sys" where
  "initSys input w =
     \<lparr>syConn = \<lparr>cnNotifier = Some newNotifier, cnCodec = NewCodec input, cnWorld = w\<rparr>,
      syRun = True, syReading = True, syJobs = [], syRead = []\<rparr>"

text \<open>The same steps chosen by a schedule, as a function.\<close>

datatype event = EvRead | EvHandle nat | EvRespond nat | EvActivate nat | EvService act | EvStop

fun stepEvent :: "jsonlib \<Rightarrow> 'w code \<Rightarrow> serviceRegistry \<Rightarrow> event \<Rightarrow> 'w sys \<Rightarrow> 'w sys option" where
  "stepEvent lib call svcs EvRead s =
     (if syReading s \<and> syRun s then
        (case readRequest lib svcs (sysCodec s) of
           ((reqs, batch, None), c) \<Rightarrow>
             Some (setCodec c (s\<lparr>syJobs := syJobs s @ [Handling reqs [] [] batch],
               syRead := syRead s @ map srId reqs\<rparr>))
         | ((reqs, batch, Some err), c) \<Rightarrow>
             Some (setCodec (writeReadError lib err c) (s\<lparr>syReading := False\<rparr>)))
      else None)"
| "stepEvent lib call svcs (EvHandle i) s =
     (if i < length (syJobs s) then
        (case syJobs s ! i of
           Handling (req # reqs) resps cbs batch \<Rightarrow>
             (case handle lib call req (syConn s) of
                None \<Rightarrow> None
              | Some (resp, cb, cn) \<Rightarrow>
                  Some (s\<lparr>syConn := cn,
                    syJobs := (syJobs s)[i := Handling reqs (resps @ [resp]) (cbs @ optList cb) batch]\<rparr>))
         | _ \<Rightarrow> None)
      else None)"
| "stepEvent lib call svcs (EvRespond i) s =
     (if i < length (syJobs s) then
        (case syJobs s ! i of
           Handling [] resps cbs batch \<Rightarrow>
             Some (s\<lparr>syConn := writeMessage lib (if batch then Batch resps else Single (hd resps)) (syConn s),
               syJobs := (syJobs s)[i := Activating cbs]\<rparr>)
         | _ \<Rightarrow> None)
      else None)"
| "stepEvent lib call svcs (EvActivate i) s =
     (if i < length (syJobs s) then
        (case syJobs s ! i of
           Activating (a # cbs) \<Rightarrow>
             map_option (\<lambda>cn. s\<lparr>syConn := cn, syJobs := (syJobs s)[i := Activating cbs]\<rparr>)
               (runActivation a (syConn s))
         | _ \<Rightarrow> None)
      else None)"
| "stepEvent lib call svcs (EvService a) s = Some (s\<lparr>syConn := runAct lib a (syConn s)\<rparr>)"
| "stepEvent lib call svcs EvStop s = Some (Stop s)"

lemma stepEvent_sound: "stepEvent lib call svcs ev s = Some s' \<Longrightarrow> serve_step lib call svcs s s'"
  by (cases ev)
    (auto intro: serve_step.intros serve_step.respond [where batch = True, simplified]
       serve_step.respond [where batch = False, simplified]
     split: if_splits prod.splits option.splits job.splits list.splits)

lemma run_ops_reach:
  "run_ops (stepEvent lib call svcs) evs s = Some s' \<Longrightarrow> (serve_step lib call svcs)\<^sup>*\<^sup>* s s'"
proof (induction evs arbitrary: s)
  case (Cons ev evs)
  then show ?case
    by (auto split: option.splits dest: stepEvent_sound intro: converse_rtranclp_into_rtranclp)
qed simp

section \<open>The goroutines run the sequential definitions\<close>

lemma exec_batchResponses:
  "exec lib call req cn =
     (case batchResponses lib call [req] cn of
        None \<Rightarrow> None
      | Some (resps, cbs, cn') \<Rightarrow> run_ops runActivation cbs (writeMessage lib (Single (hd resps)) cn'))"
  by (auto simp: exec_def Let_def split: option.splits)

lemma batchResponses_Cons:
  "batchResponses lib call (req # reqs) cn = Some (resps, cbs, cn') \<longleftrightarrow>
     (\<exists>resp cb cn1 resps1 cbs1. handle lib call req cn = Some (resp, cb, cn1) \<and>
        batchResponses lib call reqs cn1 = Some (resps1, cbs1, cn') \<and>
        resps = resp # resps1 \<and> cbs = optList cb @ cbs1)"
  by (cases "srErr req")
    (auto simp: optList_def handle_def [of lib call req] split: option.splits if_splits)

lemma sys_same:
  "syJobs s ! i = j \<Longrightarrow> syConn s = cn \<Longrightarrow> s\<lparr>syConn := cn, syJobs := (syJobs s)[i := j]\<rparr> = s"
  by (cases s) auto

lemma handling_steps:
  assumes "i < length (syJobs s)" "syJobs s ! i = Handling reqs resps cbs batch"
    "batchResponses lib call reqs (syConn s) = Some (resps', cbs', cn)"
  shows "(serve_step lib call svcs)\<^sup>*\<^sup>* s
     (s\<lparr>syConn := cn, syJobs := (syJobs s)[i := Handling [] (resps @ resps') (cbs @ cbs') batch]\<rparr>)"
  using assms
proof (induction reqs arbitrary: s resps cbs resps' cbs')
  case Nil
  then show ?case using sys_same [of s i "Handling [] resps cbs batch" cn] by simp
next
  case (Cons req reqs)
  then obtain resp cb cn1 resps1 cbs1 where
    h: "handle lib call req (syConn s) = Some (resp, cb, cn1)"
      "batchResponses lib call reqs cn1 = Some (resps1, cbs1, cn)"
      "resps' = resp # resps1" "cbs' = optList cb @ cbs1"
    unfolding batchResponses_Cons by blast
  let ?s = "s\<lparr>syConn := cn1, syJobs := (syJobs s)[i := Handling reqs (resps @ [resp]) (cbs @ optList cb) batch]\<rparr>"
  have 1: "serve_step lib call svcs s ?s" by (rule serve_step.handle_one [OF Cons.prems(1,2) h(1)])
  have 2: "(serve_step lib call svcs)\<^sup>*\<^sup>* ?s
      (?s\<lparr>syConn := cn, syJobs := (syJobs ?s)[i := Handling [] ((resps @ [resp]) @ resps1) ((cbs @ optList cb) @ cbs1) batch]\<rparr>)"
    by (rule Cons.IH) (use Cons.prems h in simp_all)
  from converse_rtranclp_into_rtranclp [OF 1 2] show ?case using h by simp
qed

lemma activating_steps:
  assumes "i < length (syJobs s)" "syJobs s ! i = Activating cbs"
    "run_ops runActivation cbs (syConn s) = Some cn"
  shows "(serve_step lib call svcs)\<^sup>*\<^sup>* s (s\<lparr>syConn := cn, syJobs := (syJobs s)[i := Activating []]\<rparr>)"
  using assms
proof (induction cbs arbitrary: s)
  case Nil
  then show ?case using sys_same [of s i "Activating []" cn] by simp
next
  case (Cons a cbs)
  then obtain cn1 where a: "runActivation a (syConn s) = Some cn1" "run_ops runActivation cbs cn1 = Some cn"
    by (auto split: option.splits)
  let ?s = "s\<lparr>syConn := cn1, syJobs := (syJobs s)[i := Activating cbs]\<rparr>"
  have 1: "serve_step lib call svcs s ?s" by (rule serve_step.activate_one [OF Cons.prems(1,2) a(1)])
  have 2: "(serve_step lib call svcs)\<^sup>*\<^sup>* ?s (?s\<lparr>syConn := cn, syJobs := (syJobs ?s)[i := Activating []]\<rparr>)"
    by (rule Cons.IH) (use Cons.prems a in simp_all)
  from converse_rtranclp_into_rtranclp [OF 1 2] show ?case by simp
qed


section \<open>What a step does to the messages sent\<close>

fun responses_of :: "message \<Rightarrow> response list" where
  "responses_of (Single r) = [r]"
| "responses_of (Batch rs) = rs"

lemma Write_ok_iff:
  "Write lib msg c = (None, c') \<longleftrightarrow>
     (\<exists>v. marshalMessage lib msg = Inr v \<and> \<not> cClosed c \<and> cWritable c \<and>
        c' = c\<lparr>cOut := cOut c @ v @ [CHR 0x0A], cSent := cSent c @ [msg]\<rparr>)"
  by (auto simp: Write_def split: sum.splits)

lemma Write_err: "Write lib msg c = (Some e, c') \<Longrightarrow> c' = c"
  by (auto simp: Write_def split: sum.splits if_splits)

lemma Write_cases [case_names failed ok]:
  obtains e where "Write lib msg c = (Some e, c)"
  | c' where "Write lib msg c = (None, c')" "\<not> cClosed c" "cClosed c' = cClosed c"
      "cWritable c" "cWritable c' = cWritable c"
      "cSent c' = cSent c @ [msg]" "cIn c' = cIn c"
proof (cases "Write lib msg c")
  case (Pair e c')
  show ?thesis
  proof (cases e)
    case None
    then show ?thesis using Pair that(2) [of c'] by (auto simp: Write_ok_iff)
  next
    case (Some x)
    then show ?thesis using Pair that(1) [of x] Write_err [of lib msg c x c'] by simp
  qed
qed

text \<open>How a codec may change: it stays closed, and it never forgets a message.\<close>

definition extends :: "codec \<Rightarrow> codec \<Rightarrow> bool" where
  "extends c c' \<longleftrightarrow> (\<exists>ms. cSent c' = cSent c @ ms) \<and> (cClosed c \<longrightarrow> cClosed c' \<and> cSent c' = cSent c)"

lemma extends_refl [simp]: "extends c c"
  by (simp add: extends_def)

lemma extends_trans: "extends a b \<Longrightarrow> extends b c \<Longrightarrow> extends a c"
  by (auto simp: extends_def)

lemma extends_Close: "extends c c' \<Longrightarrow> extends c (Close c')"
  by (auto simp: extends_def Close_def)

lemma extends_Write: "extends c (snd (Write lib msg c))"
  by (cases rule: Write_cases [of lib msg c]) (auto simp: extends_def)

lemma writeMessage_cases [case_names failed ok]:
  obtains "cnCodec (writeMessage lib msg cn) = Close (cnCodec cn)"
  | "cSent (cnCodec (writeMessage lib msg cn)) = cSent (cnCodec cn) @ [msg]"
    "\<not> cClosed (cnCodec cn)" "\<not> cClosed (cnCodec (writeMessage lib msg cn))"
    "cWritable (cnCodec (writeMessage lib msg cn))"
  by (cases rule: Write_cases [of lib msg "cnCodec cn"])
    (auto simp: writeMessage_def)

lemma writeMessage_notifier [simp]: "cnNotifier (writeMessage lib msg cn) = cnNotifier cn"
  by (auto simp: writeMessage_def split: prod.splits option.splits)

lemma extends_writeMessage: "extends (cnCodec cn) (cnCodec (writeMessage lib msg cn))"
  by (cases rule: writeMessage_cases [of lib msg cn])
    (auto simp: extends_Close, auto simp: extends_def)

text \<open>Reading does not change what was sent.\<close>

lemma readRequest_codec:
  "readRequest lib svcs c = (h, c') \<Longrightarrow>
     cSent c' = cSent c \<and> cClosed c' = cClosed c \<and> cWritable c' = cWritable c"
  by (auto simp: readRequest_def ReadRequestHeaders_def split: sum.splits prod.splits option.splits)

section \<open>Notifications follow the response that announces them\<close>

definition announces :: "ID \<Rightarrow> message \<Rightarrow> bool" where
  "announces i msg \<longleftrightarrow> (\<exists>rid. jsonSuccessResponse rid (GId i) \<in> set (responses_of msg))"

definition announced :: "ID \<Rightarrow> codec \<Rightarrow> bool" where
  "announced i c \<longleftrightarrow> cClosed c \<or> (\<exists>msg \<in> set (cSent c). announces i msg)"

fun is_notification :: "response \<Rightarrow> bool" where
  "is_notification (jsonNotification _ _ _) = True"
| "is_notification _ = False"

definition ordered :: "message list \<Rightarrow> bool" where
  "ordered ms \<longleftrightarrow>
     (\<forall>xs m i d ys. ms = xs @ Single (jsonNotification m i d) # ys \<longrightarrow> (\<exists>msg \<in> set xs. announces i msg))"

lemma ordered_Nil [simp]: "ordered []"
  by (simp add: ordered_def)

lemma ordered_snoc:
  assumes "ordered ms" "\<And>m i d. msg = Single (jsonNotification m i d) \<Longrightarrow> \<exists>msg \<in> set ms. announces i msg"
  shows "ordered (ms @ [msg])"
  unfolding ordered_def
proof (intro allI impI)
  fix xs m i d ys
  assume eq: "ms @ [msg] = xs @ Single (jsonNotification m i d) # ys"
  show "\<exists>msg \<in> set xs. announces i msg"
  proof (cases ys rule: rev_cases)
    case Nil
    then show ?thesis using eq assms(2) [of m i d] by simp
  next
    case (snoc zs z)
    then show ?thesis using eq assms(1) by (auto simp: ordered_def)
  qed
qed

lemma announced_extends: "announced i c \<Longrightarrow> extends c c' \<Longrightarrow> announced i c'"
  by (auto simp: announced_def extends_def)

definition conn_inv :: "'w conn \<Rightarrow> bool" where
  "conn_inv cn \<longleftrightarrow> ordered (cSent (cnCodec cn)) \<and>
     (\<forall>n. cnNotifier cn = Some n \<longrightarrow> (\<forall>i \<in> dom (nActive n). announced i (cnCodec cn)))"

text \<open>Steps that keep the invariant of the connection and extend its codec.\<close>

definition good :: "'w conn \<Rightarrow> 'w conn \<Rightarrow> bool" where
  "good cn cn' \<longleftrightarrow> extends (cnCodec cn) (cnCodec cn') \<and> (conn_inv cn \<longrightarrow> conn_inv cn')"

lemma good_refl [simp]: "good cn cn"
  by (simp add: good_def)

lemma good_trans: "good a b \<Longrightarrow> good b c \<Longrightarrow> good a c"
  by (auto simp: good_def intro: extends_trans)

lemma good_world [simp]: "good cn (cn\<lparr>cnWorld := w\<rparr>)"
  by (simp add: good_def conn_inv_def)

lemma conn_inv_codec:
  assumes "conn_inv cn" "extends (cnCodec cn) c" "ordered (cSent c)"
  shows "conn_inv (cn\<lparr>cnCodec := c\<rparr>)"
  using assms announced_extends unfolding conn_inv_def by fastforce

lemma Notify_sent:
  assumes "conn_inv cn" "cnNotifier cn = Some n"
  shows "extends (cnCodec cn) (snd (Notify lib i d n (cnCodec cn))) \<and>
         ordered (cSent (snd (Notify lib i d n (cnCodec cn))))"
proof (cases "nActive n i")
  case None
  then show ?thesis using assms by (simp add: Notify_def conn_inv_def)
next
  case (Some sub)
  let ?c = "cnCodec cn" and ?msg = "Single (CreateNotification i (sNamespace sub) d)"
  have a: "announced i ?c" using assms Some by (auto simp: conn_inv_def)
  have o: "ordered (cSent ?c)" using assms by (simp add: conn_inv_def)
  show ?thesis
  proof (cases rule: Write_cases [of lib ?msg ?c])
    case (failed e)
    then show ?thesis using Some o by (simp add: Notify_def extends_Close) (simp add: Close_def)
  next
    case (ok c')
    have "ordered (cSent c')"
      unfolding ok(6) by (rule ordered_snoc [OF o]) (use a ok(2) in \<open>auto simp: announced_def CreateNotification_def\<close>)
    then show ?thesis using Some ok extends_Write [of ?c lib ?msg] by (simp add: Notify_def)
  qed
qed

lemma good_Notify:
  "cnNotifier cn = Some n \<Longrightarrow> good cn (cn\<lparr>cnCodec := snd (Notify lib i d n (cnCodec cn))\<rparr>)"
proof -
  assume n: "cnNotifier cn = Some n"
  have "extends (cnCodec cn) (snd (Notify lib i d n (cnCodec cn)))"
    using extends_Write [of "cnCodec cn" lib]
    by (auto simp: Notify_def split: option.splits prod.splits intro: extends_Close) (metis extends_Close snd_conv)+
  moreover have "conn_inv (cn\<lparr>cnCodec := snd (Notify lib i d n (cnCodec cn))\<rparr>)" if "conn_inv cn"
    using Notify_sent [OF that n, of lib i d] by (intro conn_inv_codec [OF that]) simp_all
  ultimately show ?thesis by (simp add: good_def)
qed

lemma good_runAct: "good cn (runAct lib a cn)"
proof (cases "cnNotifier cn")
  case (Some n)
  show ?thesis
  proof (cases a)
    case (ActCreate i)
    then show ?thesis
      using Some by (simp add: runAct_def good_def conn_inv_def CreateSubscription_def Let_def)
  next
    case (ActNotify i d)
    then show ?thesis using Some good_Notify [OF Some] by (simp add: runAct_def)
  qed
qed (simp add: runAct_def)

lemma good_fold: "good cn (fold (runAct lib) acts cn)"
  by (induction acts arbitrary: cn) (auto intro: good_trans good_runAct)

lemma good_reflectCall: "reflectCall lib call cb k args cn = Some (reply, cn') \<Longrightarrow> good cn cn'"
  using good_trans [OF good_world good_fold]
  by (auto simp: reflectCall_def split: if_splits option.splits)

lemma good_unsubscribe:
  assumes "cnNotifier cn = Some n" "unsubscribe i n = Some (e, n')"
  shows "good cn (cn\<lparr>cnNotifier := Some n'\<rparr>)"
proof -
  have "dom (nActive n') \<subseteq> dom (nActive n)"
    using assms(2) by (auto simp: unsubscribe_def closeChan_def split: option.splits if_splits)
  then show ?thesis using assms(1) by (auto simp: good_def conn_inv_def)
qed

text \<open>What \<^verbatim>\<open>handle\<close> returns: a response to its request, never a notification; a subscription to
  activate is the result of that response.\<close>

definition answers :: "serverRequest \<Rightarrow> response \<Rightarrow> activation \<Rightarrow> bool" where
  "answers req resp cb \<longleftrightarrow>
     \<not> is_notification resp \<and> respId resp = srId req \<and>
     (\<forall>i ns. cb = Some (i, ns) \<longrightarrow> resp = jsonSuccessResponse (srId req) (GId i))"

lemma answers_error [simp]: "answers req (CreateErrorResponse (srId req) e) None"
  by (simp add: answers_def CreateErrorResponse_def)

lemma answers_success [simp]: "answers req (CreateResponse (srId req) v) None"
  by (simp add: answers_def CreateResponse_def)

lemma handleUnsubscribe_good:
  assumes "handleUnsubscribe req cn = Some (resp, cb, cn')"
  shows "good cn cn' \<and> answers req resp cb"
  using assms good_unsubscribe [of cn]
  by (auto simp: handleUnsubscribe_def split: list.splits govalue.splits option.splits)

lemma handleCall_good:
  assumes "handleCall lib call req cb cn = Some (resp, a, cn')"
  shows "good cn cn' \<and> answers req resp a"
  using assms good_reflectCall [of lib call cb]
  by (auto simp: handleCall_def split: if_splits option.splits govalue.splits)

lemma createSubscription_good:
  "createSubscription lib call cb args cn = Some (r, cn') \<Longrightarrow> good cn cn'"
  using good_reflectCall [of lib call cb]
  by (auto simp: createSubscription_def split: option.splits list.splits if_splits govalue.splits)

lemma handle_good:
  assumes h: "handle lib call req cn = Some (resp, cb, cn')"
  shows "good cn cn' \<and> answers req resp cb"
proof (cases "srErr req")
  case (Some e)
  then show ?thesis using h by (auto simp: handle_def)
next
  case None
  show ?thesis
  proof (cases "srIsUnsubscribe req")
    case True
    then show ?thesis using h None handleUnsubscribe_good by (simp add: handle_def)
  next
    case False
    then obtain c where c: "srCallb req = Some c" using h None by (auto simp: handle_def split: option.splits)
    show ?thesis
    proof (cases "isSubscribe c")
      case True
      then show ?thesis
        using h None False c createSubscription_good [of lib call c "srArgs req" cn]
        by (auto simp: handle_def answers_def CreateResponse_def CreateErrorResponse_def
              split: option.splits sum.splits)
    next
      case sub: False
      then show ?thesis using h None False c handleCall_good by (simp add: handle_def)
    qed
  qed
qed

lemma good_writeMessage:
  assumes "\<forall>r. msg = Single r \<longrightarrow> \<not> is_notification r"
  shows "good cn (writeMessage lib msg cn)"
proof -
  have o: "ordered (cSent (cnCodec (writeMessage lib msg cn)))" if "ordered (cSent (cnCodec cn))"
  proof (cases rule: writeMessage_cases [of lib msg cn])
    case failed
    then show ?thesis using that by (simp add: Close_def)
  next
    case ok
    show ?thesis unfolding ok(1) by (rule ordered_snoc [OF that]) (use assms in auto)
  qed
  have "writeMessage lib msg cn = cn\<lparr>cnCodec := cnCodec (writeMessage lib msg cn)\<rparr>"
    by (auto simp: writeMessage_def split: prod.splits option.splits)
  then have "conn_inv (writeMessage lib msg cn)" if "conn_inv cn"
    using conn_inv_codec [OF that extends_writeMessage o] that by (metis conn_inv_def)
  then show ?thesis using extends_writeMessage by (auto simp: good_def)
qed

lemma runActivation_good:
  assumes "runActivation a cn = Some cn'" "announced (fst a) (cnCodec cn)"
  shows "good cn cn'"
proof -
  obtain n where n: "cnNotifier cn = Some n" "cn' = cn\<lparr>cnNotifier := Some (activate (fst a) (snd a) n)\<rparr>"
    using assms(1) by (auto simp: runActivation_def split: option.splits)
  have "dom (nActive (activate (fst a) (snd a) n)) \<subseteq> insert (fst a) (dom (nActive n))"
    by (auto simp: activate_def split: option.splits if_splits)
  then show ?thesis using n assms(2) by (auto simp: good_def conn_inv_def)
qed

section \<open>Invariant of a served connection\<close>

fun job_inv :: "codec \<Rightarrow> job \<Rightarrow> bool" where
  "job_inv c (Handling reqs resps cbs batch) \<longleftrightarrow>
     (\<forall>a \<in> set cbs. \<exists>rid. jsonSuccessResponse rid (GId (fst a)) \<in> set resps) \<and>
     (\<not> batch \<longrightarrow> length reqs + length resps = 1) \<and> list_all (\<lambda>r. \<not> is_notification r) resps"
| "job_inv c (Activating cbs) \<longleftrightarrow> (\<forall>a \<in> set cbs. announced (fst a) c)"

lemma job_inv_extends: "job_inv c j \<Longrightarrow> extends c c' \<Longrightarrow> job_inv c' j"
  by (cases j) (auto intro: announced_extends)

definition sys_inv :: "'w sys \<Rightarrow> bool" where
  "sys_inv s \<longleftrightarrow> conn_inv (syConn s) \<and> list_all (job_inv (sysCodec s)) (syJobs s)"

lemma sys_inv_init [rpc_inv]: "sys_inv (initSys input w)"
  by (simp add: sys_inv_def initSys_def conn_inv_def newNotifier_def NewCodec_def)

text \<open>A change of the connection that is good, with at most one job replaced by a good one.\<close>

lemma sys_inv_step:
  assumes "sys_inv s" "good (syConn s) cn" "job_inv (cnCodec cn) j"
    "syConn s' = cn" "syJobs s' = (syJobs s)[i := j] \<or> syJobs s' = syJobs s @ [j] \<or> syJobs s' = syJobs s"
  shows "sys_inv s'"
proof -
  have ext: "extends (sysCodec s) (cnCodec cn)" and inv: "conn_inv cn"
    using assms(1,2) by (auto simp: good_def sys_inv_def)
  have "list_all (job_inv (cnCodec cn)) (syJobs s)"
    using assms(1) ext unfolding sys_inv_def list_all_iff by (blast intro: job_inv_extends)
  then have "list_all (job_inv (cnCodec cn)) (syJobs s')"
    using assms(3,5) set_update_subset_insert [of "syJobs s" i j] unfolding list_all_iff by auto
  then show ?thesis using inv assms(4) by (simp add: sys_inv_def)
qed

lemma sys_inv_job: "sys_inv s \<Longrightarrow> i < length (syJobs s) \<Longrightarrow> syJobs s ! i = j \<Longrightarrow> job_inv (sysCodec s) j"
  unfolding sys_inv_def list_all_length by blast

lemma sys_inv_conn:
  "sys_inv s \<Longrightarrow> good (syConn s) (syConn s') \<Longrightarrow> syJobs s' = syJobs s \<Longrightarrow> sys_inv s'"
  using sys_inv_step [of s "syConn s'" "Activating []" s' 0] by simp

lemma good_codec:
  "extends (cnCodec cn) c \<Longrightarrow> (ordered (cSent (cnCodec cn)) \<Longrightarrow> ordered (cSent c)) \<Longrightarrow>
     good cn (cn\<lparr>cnCodec := c\<rparr>)"
  using conn_inv_codec [of cn c] by (auto simp: good_def conn_inv_def)

lemma good_Close: "good cn (cn\<lparr>cnCodec := Close (cnCodec cn)\<rparr>)"
  by (rule good_codec) (auto simp: extends_def Close_def)

lemma good_Write:
  assumes "\<forall>r. msg = Single r \<longrightarrow> \<not> is_notification r" "cSent c = cSent (cnCodec cn)"
    "cClosed c = cClosed (cnCodec cn)"
  shows "good cn (cn\<lparr>cnCodec := snd (Write lib msg c)\<rparr>)"
proof (cases rule: Write_cases [of lib msg c])
  case (failed e)
  then show ?thesis using assms by (intro good_codec) (auto simp: extends_def)
next
  case (ok c')
  have "ordered (cSent c')" if "ordered (cSent (cnCodec cn))"
    unfolding ok(6) assms(2) by (rule ordered_snoc [OF that]) (use assms(1) in auto)
  then show ?thesis using ok assms by (intro good_codec) (auto simp: extends_def)
qed

lemma readRequest_single:
  "readRequest lib svcs c = ((reqs, False, None), c') \<Longrightarrow> length reqs = 1"
proof -
  assume "readRequest lib svcs c = ((reqs, False, None), c')"
  then obtain qs where qs: "ReadRequestHeaders lib c = ((qs, False, None), c')"
      "reqs = map (verifyRequest lib svcs) qs"
    by (auto simp: readRequest_def split: prod.splits option.splits)
  have "parseBatchRequest lib m \<noteq> (qs, False, None)" for m
    by (auto simp: parseBatchRequest_def split: sum.splits prod.splits)
  moreover have "parseRequest lib m = (qs, False, None) \<Longrightarrow> length qs = 1" for m
    by (auto simp: parseRequest_def split: sum.splits option.splits if_splits list.splits)
  ultimately show ?thesis using qs
    by (auto simp: ReadRequestHeaders_def split: sum.splits if_splits)
qed

lemma job_inv_read:
  assumes "readRequest lib svcs c = ((reqs, batch, None), c')"
  shows "job_inv d (Handling reqs [] [] batch)"
  using assms readRequest_single [of lib svcs c reqs c'] by (cases batch) simp_all

lemma job_inv_handle:
  assumes "job_inv d (Handling (req # reqs) resps cbs batch)" "answers req resp cb"
  shows "job_inv d' (Handling reqs (resps @ [resp]) (cbs @ optList cb) batch)"
  using assms by (auto simp: answers_def optList_def split: option.splits)

lemma job_inv_respond:
  assumes "job_inv d (Handling [] resps cbs batch)"
  shows "job_inv (cnCodec (writeMessage lib (if batch then Batch resps else Single (hd resps)) cn)) (Activating cbs)"
proof (cases rule: writeMessage_cases [of lib "if batch then Batch resps else Single (hd resps)" cn])
  case failed
  then show ?thesis by (simp add: announced_def Close_def)
next
  case ok
  have "announces (fst a) (if batch then Batch resps else Single (hd resps))" if a: "a \<in> set cbs" for a
  proof -
    obtain rid where "jsonSuccessResponse rid (GId (fst a)) \<in> set resps" using assms a by auto
    then show ?thesis using assms by (cases batch; cases resps) (auto simp: announces_def)
  qed
  then show ?thesis using ok by (auto simp: announced_def)
qed

lemma setCodec_sel [simp]:
  "syConn (setCodec c s) = (syConn s)\<lparr>cnCodec := c\<rparr>" "syJobs (setCodec c s) = syJobs s"
  "syRead (setCodec c s) = syRead s"
  by (simp_all add: setCodec_def)

lemma serve_step_inv [rpc_inv]:
  assumes "serve_step lib call svcs s s'" "sys_inv s"
  shows "sys_inv s'"
  using assms
proof cases
  case (read reqs batch c)
  have "good (syConn s) ((syConn s)\<lparr>cnCodec := c\<rparr>)"
    using readRequest_codec [OF read(4)] by (intro good_codec) (auto simp: extends_def)
  from sys_inv_step [OF assms(2) this, of "Handling reqs [] [] batch"] show ?thesis
    using read(1) job_inv_read [OF read(4)] by simp
next
  case (read_error reqs batch err c)
  have "good (syConn s) ((syConn s)\<lparr>cnCodec := writeReadError lib err c\<rparr>)"
  proof (cases "ErrorText err = ''EOF''")
    case True
    then show ?thesis
      using readRequest_codec [OF read_error(3)] by (auto simp: writeReadError_def extends_def intro: good_codec)
  next
    case False
    then show ?thesis
      using good_Write [of "Single (CreateErrorResponse None err)" c "syConn s" lib]
        readRequest_codec [OF read_error(3)]
      by (simp add: writeReadError_def CreateErrorResponse_def)
  qed
  then show ?thesis using read_error(1) sys_inv_conn [OF assms(2)] by simp
next
  case (read_shutdown reqs batch c)
  have "good (syConn s) ((syConn s)\<lparr>cnCodec := writeShutdown lib reqs batch c\<rparr>)"
    unfolding writeShutdown_def
    by (rule good_Write) (use readRequest_codec [OF read_shutdown(4)] in \<open>simp_all add: CreateErrorResponse_def\<close>)
  then show ?thesis using read_shutdown(1) sys_inv_conn [OF assms(2)] by simp
next
  case (handle_one i req reqs resps cbs batch resp cb cn)
  have j: "job_inv (sysCodec s) (Handling (req # reqs) resps cbs batch)"
    using sys_inv_job [OF assms(2)] handle_one by blast
  have "good (syConn s) cn" "answers req resp cb" using handle_good [OF handle_one(4)] by simp_all
  from sys_inv_step [OF assms(2) this(1) job_inv_handle [OF j this(2)], of s' i] show ?thesis
    using handle_one(1) by simp
next
  case (respond i resps cbs batch)
  have j: "job_inv (sysCodec s) (Handling [] resps cbs batch)"
    using sys_inv_job [OF assms(2)] respond by blast
  then have "\<forall>r. (if batch then Batch resps else Single (hd resps)) = Single r \<longrightarrow> \<not> is_notification r"
    by (cases resps) auto
  from sys_inv_step [OF assms(2) good_writeMessage [OF this] job_inv_respond [OF j], where s' = s' and i = i] show ?thesis
    using respond(1) by simp
next
  case (activate_one i a cbs cn)
  have "job_inv (sysCodec s) (Activating (a # cbs))"
    using sys_inv_job [OF assms(2)] activate_one by blast
  then have a: "announced (fst a) (sysCodec s)" "job_inv (sysCodec s) (Activating cbs)" by auto
  have g: "good (syConn s) cn" using runActivation_good [OF activate_one(4) a(1)] .
  have "job_inv (cnCodec cn) (Activating cbs)"
    using g by (intro job_inv_extends [OF a(2)]) (simp add: good_def)
  from sys_inv_step [OF assms(2) g this, of s' i] show ?thesis using activate_one(1) by simp
next
  case (service a)
  then show ?thesis using good_runAct [of "syConn s" lib a] sys_inv_conn [OF assms(2)] by simp
next
  case (world w)
  then show ?thesis using sys_inv_conn [OF assms(2)] by simp
next
  case break
  have "good (syConn s) ((syConn s)\<lparr>cnCodec := (sysCodec s)\<lparr>cWritable := False\<rparr>\<rparr>)"
    by (rule good_codec) (simp_all add: extends_def)
  then show ?thesis using break sys_inv_conn [OF assms(2)] by simp
next
  case stop
  then show ?thesis
    using good_Close [of "syConn s"] sys_inv_conn [OF assms(2), of s'] by (cases "syRun s") (simp_all add: Stop_def)
next
  case teardown
  then show ?thesis using good_Close [of "syConn s"] sys_inv_conn [OF assms(2)] by simp
qed (auto simp: sys_inv_def)

text \<open>
  C5. No notification overtakes its subscription: in every state that serving a connection can
  reach, under any interleaving of the request goroutines, of notifications sent by the services and
  of a shutdown, each notification on the wire for a subscription identifier is preceded by the
  response that tells the client this identifier.
\<close>

theorem notification_after_response:
  assumes "(serve_step lib call svcs)\<^sup>*\<^sup>* (initSys input w) s"
    and "cSent (cnCodec (syConn s)) = xs @ Single (jsonNotification m i d) # ys"
  shows "\<exists>msg \<in> set xs. \<exists>rid. jsonSuccessResponse rid (GId i) \<in> set (responses_of msg)"
proof -
  from assms(1) have "sys_inv s"
    by (induction rule: rtranclp_induct) (auto intro: rpc_inv)
  then have "ordered (cSent (cnCodec (syConn s)))" by (simp add: sys_inv_def conn_inv_def)
  then show ?thesis using assms(2) unfolding ordered_def announces_def by blast
qed

section \<open>Every request is answered once\<close>

fun replyId :: "response \<Rightarrow> raw option" where
  "replyId (jsonNotification _ _ _) = None"
| "replyId r = respId r"

text \<open>The identifiers answered by the messages sent, and those that a goroutine still has to answer.\<close>

definition answeredIds :: "message list \<Rightarrow> raw multiset" where
  "answeredIds ms = mset (List.map_filter replyId (concat (map responses_of ms)))"

fun pendingIds :: "job \<Rightarrow> raw multiset" where
  "pendingIds (Handling reqs resps _ _) =
     mset (List.map_filter srId reqs) + mset (List.map_filter replyId resps)"
| "pendingIds (Activating _) = {#}"

definition readIds :: "raw option list \<Rightarrow> raw multiset" where
  "readIds rs = mset (List.map_filter id rs)"

definition intact :: "codec \<Rightarrow> bool" where
  "intact c \<longleftrightarrow> \<not> cClosed c \<and> cWritable c"

lemma map_filter_append [simp]:
  "List.map_filter f (xs @ ys) = List.map_filter f xs @ List.map_filter f ys"
  by (simp add: List.map_filter_def)

lemma answeredIds_append [simp]: "answeredIds (xs @ ys) = answeredIds xs + answeredIds ys"
  by (simp add: answeredIds_def)

lemma readIds_append [simp]: "readIds (xs @ ys) = readIds xs + readIds ys"
  by (simp add: readIds_def)

lemma readIds_requests [simp]: "readIds (map srId reqs) = mset (List.map_filter srId reqs)"
  unfolding readIds_def by (induction reqs) (auto simp: List.map_filter_def)

definition quiet :: "'w conn \<Rightarrow> 'w conn \<Rightarrow> bool" where
  "quiet cn cn' \<longleftrightarrow>
     answeredIds (cSent (cnCodec cn')) = answeredIds (cSent (cnCodec cn)) \<and>
     (intact (cnCodec cn') \<longrightarrow> intact (cnCodec cn))"

lemma quiet_refl [simp]: "quiet cn cn"
  by (simp add: quiet_def)

lemma quiet_trans: "quiet a b \<Longrightarrow> quiet b c \<Longrightarrow> quiet a c"
  by (auto simp: quiet_def)

lemma quiet_same [simp]:
  "quiet cn (cn\<lparr>cnWorld := w\<rparr>)" "quiet cn (cn\<lparr>cnNotifier := n\<rparr>)"
  by (simp_all add: quiet_def)

lemma quiet_Notify: "quiet cn (cn\<lparr>cnCodec := snd (Notify lib i d n (cnCodec cn))\<rparr>)"
proof (cases "nActive n i")
  case (Some sub)
  let ?msg = "Single (CreateNotification i (sNamespace sub) d)"
  have a: "answeredIds [?msg] = {#}"
    by (simp add: answeredIds_def CreateNotification_def List.map_filter_def)
  show ?thesis
  proof (cases rule: Write_cases [of lib ?msg "cnCodec cn"])
    case (failed e)
    then show ?thesis using Some by (simp add: Notify_def quiet_def intact_def Close_def)
  next
    case (ok c')
    then show ?thesis using Some a by (simp add: Notify_def quiet_def intact_def)
  qed
qed (simp add: Notify_def)

lemma quiet_runAct: "quiet cn (runAct lib a cn)"
  by (auto simp: runAct_def quiet_Notify split: option.splits act.splits)

lemma quiet_fold: "quiet cn (fold (runAct lib) acts cn)"
  by (induction acts arbitrary: cn) (auto intro: quiet_trans quiet_runAct)

lemma quiet_reflectCall: "reflectCall lib call cb k args cn = Some (reply, cn') \<Longrightarrow> quiet cn cn'"
  using quiet_trans [OF quiet_same(1) quiet_fold]
  by (auto simp: reflectCall_def split: if_splits option.splits)

lemma quiet_handle:
  assumes "handle lib call req cn = Some (resp, cb, cn')"
  shows "quiet cn cn'"
proof -
  have "quiet cn cn'" if "handleUnsubscribe req cn = Some (resp, cb, cn')"
    using that by (auto simp: handleUnsubscribe_def split: list.splits govalue.splits option.splits)
  moreover have "quiet cn cn'" if "handleCall lib call req c cn = Some (resp, cb, cn')" for c
    using that quiet_reflectCall [of lib call c]
    by (auto simp: handleCall_def split: if_splits option.splits govalue.splits)
  moreover have "quiet cn cn''" if "createSubscription lib call c args cn = Some (r, cn'')" for c args r cn''
    using that quiet_reflectCall [of lib call c]
    by (auto simp: createSubscription_def split: option.splits list.splits if_splits govalue.splits)
  ultimately show ?thesis
    using assms by (auto simp: handle_def split: option.splits if_splits sum.splits)
qed

lemma handle_replyId: "handle lib call req cn = Some (resp, cb, cn') \<Longrightarrow> replyId resp = srId req"
  using handle_good [of lib call req cn resp cb cn'] by (cases resp) (auto simp: answers_def)

lemma writeMessage_intact:
  "intact (cnCodec (writeMessage lib msg cn)) \<Longrightarrow>
     intact (cnCodec cn) \<and> cSent (cnCodec (writeMessage lib msg cn)) = cSent (cnCodec cn) @ [msg]"
  by (cases rule: Write_cases [of lib msg "cnCodec cn"])
    (auto simp: writeMessage_def intact_def Close_def)

lemma Write_error_ok:
  "\<forall>r \<in> set (responses_of msg). \<exists>i e. r = CreateErrorResponse i e \<Longrightarrow> intact c \<Longrightarrow>
     \<exists>c'. Write lib msg c = (None, c')"
proof -
  assume e: "\<forall>r \<in> set (responses_of msg). \<exists>i e. r = CreateErrorResponse i e" and c: "intact c"
  have 1: "\<exists>v. marshalResponse lib (CreateErrorResponse i e) = Inr v" for i e
    by (simp add: CreateErrorResponse_def marshalOptional_def)
  have "\<forall>r \<in> set rs. \<exists>i e. r = CreateErrorResponse i e \<Longrightarrow> \<exists>vs. marshalResponses lib rs = Inr vs" for rs
  proof (induction rs)
    case (Cons r rs)
    then obtain vs i e where "marshalResponses lib rs = Inr vs" "r = CreateErrorResponse i e" by auto
    then show ?case using 1 [of i e] by auto
  qed simp
  then have "\<exists>v. marshalMessage lib msg = Inr v" using e 1 by (cases msg) fastforce+
  then show ?thesis using c by (auto simp: Write_def intact_def)
qed

definition sys_ids :: "'w sys \<Rightarrow> bool" where
  "sys_ids s \<longleftrightarrow>
     (intact (sysCodec s) \<longrightarrow>
        answeredIds (cSent (sysCodec s)) + sum_list (map pendingIds (syJobs s)) = readIds (syRead s))"

lemma sum_list_update:
  "i < length xs \<Longrightarrow> sum_list (xs[i := x]) + xs ! i = sum_list xs + (x :: 'a :: comm_monoid_add)"
  by (induction xs arbitrary: i) (auto simp: add_ac split: nat.splits)

lemma multiset_balance:
  assumes "a' + q = a + (p :: 'a multiset)" "b' + p = b + q" "a + b = r"
  shows "a' + b' = r"
proof -
  have "a' + b' + (p + q) = (a' + q) + (b' + p)" by (simp add: ac_simps)
  also have "\<dots> = r + (p + q)" unfolding assms(1,2) assms(3) [symmetric] by (simp add: ac_simps)
  finally show ?thesis by simp
qed

lemma sys_ids_update:
  assumes "sys_ids s" "i < length (syJobs s)" "syJobs s' = (syJobs s)[i := j]" "syRead s' = syRead s"
    "intact (sysCodec s') \<Longrightarrow> intact (sysCodec s) \<and>
       answeredIds (cSent (sysCodec s')) + pendingIds j =
       answeredIds (cSent (sysCodec s)) + pendingIds (syJobs s ! i)"
  shows "sys_ids s'"
  unfolding sys_ids_def
proof
  assume "intact (sysCodec s')"
  then have *: "intact (sysCodec s)"
      "answeredIds (cSent (sysCodec s')) + pendingIds j =
       answeredIds (cSent (sysCodec s)) + pendingIds (syJobs s ! i)" using assms(5) by blast+
  let ?p = "sum_list (map pendingIds (syJobs s))" and ?p' = "sum_list (map pendingIds (syJobs s'))"
  have "?p' + pendingIds (syJobs s ! i) = ?p + pendingIds j"
    using sum_list_update [of i "map pendingIds (syJobs s)" "pendingIds j"] assms(2,3)
    by (simp add: map_update)
  moreover have "answeredIds (cSent (sysCodec s)) + ?p = readIds (syRead s)"
    using assms(1) *(1) by (simp add: sys_ids_def)
  ultimately show "answeredIds (cSent (sysCodec s')) + ?p' = readIds (syRead s')"
    using *(2) assms(4) by (auto intro: multiset_balance)
qed

lemma sys_ids_quiet:
  assumes "sys_ids s" "quiet (syConn s) (syConn s')" "syJobs s' = syJobs s" "syRead s' = syRead s"
  shows "sys_ids s'"
  using assms by (auto simp: sys_ids_def quiet_def)

lemma readRequest_intact:
  "readRequest lib svcs c = (h, c') \<Longrightarrow> intact c' = intact c \<and> cSent c' = cSent c"
  using readRequest_codec [of lib svcs c h c'] by (simp add: intact_def)

lemma quiet_readError:
  assumes "cSent c = cSent (cnCodec cn)" "intact c = intact (cnCodec cn)"
  shows "quiet cn (cn\<lparr>cnCodec := writeReadError lib err c\<rparr>)"
  using assms
  by (cases rule: Write_cases [of lib "Single (CreateErrorResponse None err)" c])
    (auto simp: writeReadError_def quiet_def answeredIds_def CreateErrorResponse_def intact_def
       List.map_filter_def)

lemma writeShutdown_ids:
  assumes "intact (writeShutdown lib reqs batch c)" "\<not> batch \<Longrightarrow> length reqs = 1"
  shows "intact c \<and> answeredIds (cSent (writeShutdown lib reqs batch c)) =
           answeredIds (cSent c) + mset (List.map_filter srId reqs)"
proof -
  let ?msg = "if batch then Batch (map (\<lambda>r. CreateErrorResponse (srId r) shutdownError) reqs)
        else Single (CreateErrorResponse (srId (hd reqs)) shutdownError)"
  have i: "intact c"
    using assms(1) by (cases rule: Write_cases [of lib ?msg c]) (auto simp: writeShutdown_def intact_def)
  have "\<forall>r \<in> set (responses_of ?msg). \<exists>i e. r = CreateErrorResponse i e" by auto
  then obtain c' where c': "Write lib ?msg c = (None, c')" using Write_error_ok [OF _ i] by blast
  then have s: "cSent c' = cSent c @ [?msg]" by (auto simp: Write_ok_iff)
  have "answeredIds [?msg] = mset (List.map_filter srId reqs)"
  proof (cases batch)
    case True
    then show ?thesis
      by (simp add: answeredIds_def CreateErrorResponse_def List.map_filter_def comp_def filter_map)
  next
    case False
    then obtain r where "reqs = [r]" using assms(2) by (auto simp: length_Suc_conv)
    then show ?thesis
      using False by (simp add: answeredIds_def CreateErrorResponse_def List.map_filter_def)
  qed
  then show ?thesis using i c' s by (simp add: writeShutdown_def)
qed

lemma serve_step_ids:
  assumes "serve_step lib call svcs s s'" "sys_inv s" "sys_ids s"
  shows "sys_ids s'"
  using assms(1)
proof cases
  case (read reqs batch c)
  then show ?thesis
    using assms(3) readRequest_intact [OF read(4)] by (auto simp: sys_ids_def List.map_filter_def)
next
  case (read_error reqs batch err c)
  then show ?thesis
    using sys_ids_quiet [OF assms(3), of s'] quiet_readError [of c "syConn s" lib err]
      readRequest_intact [OF read_error(3)] by simp
next
  case (read_shutdown reqs batch c)
  have "\<not> batch \<Longrightarrow> length reqs = 1" using readRequest_single read_shutdown(4) by (cases batch) auto
  then show ?thesis
    using assms(3) read_shutdown(1) readRequest_intact [OF read_shutdown(4)]
      writeShutdown_ids [of lib reqs batch c]
    by (simp add: sys_ids_def)
next
  case (handle_one i req reqs resps cbs batch resp cb cn)
  then show ?thesis
    using quiet_handle [OF handle_one(4)] handle_replyId [OF handle_one(4)]
    by (intro sys_ids_update [OF assms(3) handle_one(2)])
       (auto simp: quiet_def List.map_filter_def)
next
  case (respond i resps cbs batch)
  let ?msg = "if batch then Batch resps else Single (hd resps)"
  have j: "job_inv (sysCodec s) (Handling [] resps cbs batch)"
    using sys_inv_job [OF assms(2)] respond by blast
  have "answeredIds [?msg] = mset (List.map_filter replyId resps)"
    using j by (cases resps; cases batch) (auto simp: answeredIds_def List.map_filter_def)
  then show ?thesis
    using respond writeMessage_intact [of lib ?msg "syConn s"]
    by (intro sys_ids_update [OF assms(3) respond(2)]) (auto simp: List.map_filter_def)
next
  case (activate_one i a cbs cn)
  have "cnCodec cn = sysCodec s"
    using activate_one(4) by (auto simp: runActivation_def split: option.splits)
  then show ?thesis
    using activate_one by (intro sys_ids_update [OF assms(3) activate_one(2)]) auto
next
  case (service a)
  then show ?thesis using sys_ids_quiet [OF assms(3)] quiet_runAct [of "syConn s" lib a] by simp
qed (use assms(3) in \<open>auto simp: sys_ids_def intact_def Stop_def Close_def\<close>)

lemma pendingIds_none:
  "\<forall>j \<in> set js. \<exists>cbs. j = Activating cbs \<Longrightarrow> sum_list (map pendingIds js) = {#}"
  by (induction js) auto

text \<open>
  C4. Every request is answered exactly once: when no goroutine of a connection has a response left
  to write and the connection is intact (not closed, no write failed), the identifiers of the
  responses sent are, with their multiplicity, those of the requests that were read, whatever
  the interleaving was.
\<close>

theorem every_request_answered_once:
  assumes "(serve_step lib call svcs)\<^sup>*\<^sup>* (initSys input w) s"
    and "intact (cnCodec (syConn s))"
    and "\<forall>j \<in> set (syJobs s). \<exists>cbs. j = Activating cbs"
  shows "answeredIds (cSent (cnCodec (syConn s))) = readIds (syRead s)"
proof -
  have "sys_inv s \<and> sys_ids s"
    using assms(1)
  proof (induction rule: rtranclp_induct)
    case base
    have "sys_ids (initSys input w)"
      by (simp add: sys_ids_def initSys_def NewCodec_def answeredIds_def readIds_def List.map_filter_def)
    then show ?case by (simp add: sys_inv_init)
  next
    case (step s s')
    then show ?case using serve_step_inv serve_step_ids by blast
  qed
  moreover have "sum_list (map pendingIds (syJobs s)) = {#}"
    using assms(3) by (rule pendingIds_none)
  ultimately show ?thesis using assms(2) by (simp add: sys_ids_def)
qed

section \<open>An example\<close>

text \<open>A service with one method and one subscription, whose code creates the subscription \<open>0x1\<close>.\<close>

definition demoObject :: gobject where
  "demoObject =
     \<lparr>oRcvr = 1, oType = Ptr (Ty ''Eth'' ''main'' KStruct False),
      oMethods =
        [\<lparr>mName = ''Add'', mPkgPath = '''',
          mIn = [Ptr (Ty ''Eth'' ''main'' KStruct False), Ty ''int'' '''' KInt False],
          mOut = [Ty ''int'' '''' KInt False, errorType], mFun = 1\<rparr>,
         \<lparr>mName = ''NewHeads'', mPkgPath = '''',
          mIn = [Ptr (Ty ''Eth'' ''main'' KStruct False), contextType],
          mOut = [Ptr subscriptionType, errorType], mFun = 2\<rparr>]\<rparr>"

definition demoServices :: serviceRegistry where
  "demoServices = snd (RegisterName ''eth'' demoObject (services NewServer))"

definition demoCall :: "nat code" where
  "demoCall cb args w =
     (if isSubscribe cb then Some (w, [ActCreate ''0x1''], [GSub ''0x1'', GNil])
      else Some (w + 1, [], [args ! 0, GNil]))"

definition demoRun :: "event list \<Rightarrow> nat sys option" where
  "demoRun evs = run_ops (stepEvent basicLib demoCall demoServices) evs
     (initSys (''{\"id\":1,\"method\":\"eth_subscribe\",\"params\":[\"newHeads\"]}'' @
               ''{\"id\":2,\"method\":\"eth_add\",\"params\":[5]}'') 0)"

definition demoEvents :: "event list" where
  "demoEvents = [EvRead, EvRead, EvHandle 0, EvService (ActNotify ''0x1'' (Some (GVal ''3''))), EvHandle 1,
     EvRespond 1, EvRespond 0, EvActivate 0, EvService (ActNotify ''0x1'' (Some (GVal ''4'')))]"

lemma demoRun_sent:
  "map_option (\<lambda>s. (cSent (cnCodec (syConn s)), intact (cnCodec (syConn s)), syJobs s, syRead s))
     (demoRun demoEvents) =
   Some ([Single (jsonSuccessResponse (Some ''2'') (GVal ''5'')),
          Single (jsonSuccessResponse (Some ''1'') (GId ''0x1'')),
          Single (jsonNotification ''eth_subscription'' ''0x1'' (Some (GVal ''4'')))],
         True, [Activating [], Activating []], [Some ''1'', Some ''2''])"
  by code_simp

lemma demoRun_reach:
  "demoRun demoEvents = Some s \<Longrightarrow> (serve_step basicLib demoCall demoServices)\<^sup>*\<^sup>*
     (initSys (''{\"id\":1,\"method\":\"eth_subscribe\",\"params\":[\"newHeads\"]}'' @
               ''{\"id\":2,\"method\":\"eth_add\",\"params\":[5]}'') 0) s"
  unfolding demoRun_def by (rule run_ops_reach)

theorem notification_after_response_witness:
  "\<exists>s. demoRun demoEvents = Some s \<and>
     (\<exists>msg \<in> set (take 2 (cSent (cnCodec (syConn s)))).
        \<exists>rid. jsonSuccessResponse rid (GId ''0x1'') \<in> set (responses_of msg))"
proof -
  obtain s where s: "demoRun demoEvents = Some s" using demoRun_sent by (cases "demoRun demoEvents") auto
  then have "cSent (cnCodec (syConn s)) =
      [Single (jsonSuccessResponse (Some ''2'') (GVal ''5'')), Single (jsonSuccessResponse (Some ''1'') (GId ''0x1''))] @
      Single (jsonNotification ''eth_subscription'' ''0x1'' (Some (GVal ''4''))) # []"
    using demoRun_sent by simp
  from notification_after_response [OF demoRun_reach [OF s] this] this s show ?thesis by auto
qed

theorem every_request_answered_once_witness:
  "\<exists>s. demoRun demoEvents = Some s \<and> answeredIds (cSent (cnCodec (syConn s))) = {#''1'', ''2''#}"
proof -
  obtain s where s: "demoRun demoEvents = Some s" using demoRun_sent by (cases "demoRun demoEvents") auto
  then have f: "intact (cnCodec (syConn s))" "syJobs s = [Activating [], Activating []]"
      "syRead s = [Some ''1'', Some ''2'']"
    using demoRun_sent by simp_all
  from every_request_answered_once [OF demoRun_reach [OF s] f(1)] f(2,3)
  have "answeredIds (cSent (cnCodec (syConn s))) = {#''1'', ''2''#}"
    by (simp add: readIds_def List.map_filter_def)
  with s show ?thesis by blast
qed


end
