(* ===== verification/ClientMsg.thy ===== *)
theory ClientMsg
  imports Codec
begin

text \<open>
  The messages of the RPC client, \<^verbatim>\<open>src/rpc/client.go\<close>: the type \<^verbatim>\<open>jsonrpcMessage\<close>, request
  identifiers, the encoding of a request and the decoding of what the server sends.
\<close>

definition ErrClientQuit :: string where
  "ErrClientQuit = ''client is closed''"

definition ErrNoResult :: string where
  "ErrNoResult = ''no result in JSON-RPC response''"

definition ErrSubscriptionQueueOverflow :: string where
  "ErrSubscriptionQueueOverflow = ''subscription queue overflow''"

definition maxClientSubscriptionBuffer :: nat where
  "maxClientSubscriptionBuffer = 20000"

record jsonError =
  jeCode :: int
  jeMessage :: string
  jeData :: "raw option"

definition zeroError :: jsonError where
  "zeroError = \<lparr>jeCode = 0, jeMessage = [], jeData = None\<rparr>"

text \<open>A \<^verbatim>\<open>RawMessage\<close> field is empty when the message does not have it.\<close>

record jsonrpcMessage =
  mgVersion :: string
  mgID :: raw
  mgMethod :: string
  mgParams :: raw
  mgError :: "jsonError option"
  mgResult :: raw

definition zeroMessage :: jsonrpcMessage where
  "zeroMessage = \<lparr>mgVersion = [], mgID = [], mgMethod = [], mgParams = [], mgError = None, mgResult = []\<rparr>"

definition isNotification :: "jsonrpcMessage \<Rightarrow> bool" where
  "isNotification msg \<longleftrightarrow> mgID msg = [] \<and> mgMethod msg \<noteq> []"

definition hasValidID :: "jsonrpcMessage \<Rightarrow> bool" where
  "hasValidID msg \<longleftrightarrow>
     0 < length (mgID msg) \<and> mgID msg ! 0 \<noteq> CHR ''{'' \<and> mgID msg ! 0 \<noteq> CHR ''[''"

definition isResponse :: "jsonrpcMessage \<Rightarrow> bool" where
  "isResponse msg \<longleftrightarrow> hasValidID msg \<and> mgMethod msg = [] \<and> length (mgParams msg) = 0"

section \<open>Requests\<close>

definition nextID :: "32 word \<Rightarrow> raw \<times> 32 word" where
  "nextID idCounter = (let i = idCounter + 1 in (itoa (unat i), i))"

text \<open>
  \<^verbatim>\<open>json.Marshal(paramsIn)\<close> of the variadic arguments: with no argument the slice is nil, which is
  encoded as \<open>null\<close>.
\<close>

fun marshalValues :: "jsonlib \<Rightarrow> govalue list \<Rightarrow> string + raw list" where
  "marshalValues lib [] = Inr []"
| "marshalValues lib (v # vs) =
     (case marshalValue lib v of
        Inl e \<Rightarrow> Inl e
      | Inr r \<Rightarrow> (case marshalValues lib vs of Inl e \<Rightarrow> Inl e | Inr rs \<Rightarrow> Inr (r # rs)))"

definition marshalParams :: "jsonlib \<Rightarrow> govalue list \<Rightarrow> string + raw" where
  "marshalParams lib paramsIn =
     (if paramsIn = [] then Inr ''null''
      else case marshalValues lib paramsIn of Inl e \<Rightarrow> Inl e | Inr rs \<Rightarrow> Inr (render_array rs))"

definition newMessage ::
  "jsonlib \<Rightarrow> 32 word \<Rightarrow> string \<Rightarrow> govalue list \<Rightarrow> (string + jsonrpcMessage) \<times> 32 word" where
  "newMessage lib idCounter method paramsIn =
     (case marshalParams lib paramsIn of
        Inl e \<Rightarrow> (Inl e, idCounter)
      | Inr params \<Rightarrow>
          (let (i, c) = nextID idCounter in
           (Inr (zeroMessage\<lparr>mgVersion := ''2.0'', mgID := i, mgMethod := method, mgParams := params\<rparr>), c)))"

text \<open>The encoding of a request: empty fields are omitted, and a request has no error and no result.\<close>

definition optMember :: "string \<Rightarrow> raw \<Rightarrow> bool \<Rightarrow> (string \<times> raw) list" where
  "optMember name v present = (if present then [(name, v)] else [])"

definition marshalRequest :: "jsonrpcMessage \<Rightarrow> raw" where
  "marshalRequest msg =
     render_object ((''jsonrpc'', json_quote (mgVersion msg)) #
       optMember ''id'' (mgID msg) (mgID msg \<noteq> []) @
       optMember ''method'' (json_quote (mgMethod msg)) (mgMethod msg \<noteq> []) @
       optMember ''params'' (mgParams msg) (mgParams msg \<noteq> []))"

definition marshalRequestBatch :: "jsonrpcMessage list \<Rightarrow> raw" where
  "marshalRequestBatch msgs = render_array (map marshalRequest msgs)"

section \<open>Messages from the server\<close>

definition is_integer_lit :: "raw \<Rightarrow> bool" where
  "is_integer_lit v \<longleftrightarrow>
     (let s = (if HasPrefix v ''-'' then tl v else v) in s \<noteq> [] \<and> list_all is_digit s)"

definition int_of_lit :: "raw \<Rightarrow> int" where
  "int_of_lit v = (if HasPrefix v ''-'' then - int (digits_nat (tl v)) else int (digits_nat v))"

definition decodeInt :: "raw \<Rightarrow> int \<Rightarrow> int option" where
  "decodeInt v old =
     (if is_null v then Some old
      else if is_integer_lit v \<and> - (2 ^ 63) \<le> int_of_lit v \<and> int_of_lit v < 2 ^ 63 then Some (int_of_lit v)
      else None)"

definition decodeErrorMember :: "jsonError \<times> bool \<Rightarrow> raw \<times> raw \<Rightarrow> jsonError \<times> bool" where
  "decodeErrorMember st kv =
     (let (r, ok) = st; key = ToLower (unquote (fst kv)); v = snd kv in
      if key = ''code'' then
        (case decodeInt v (jeCode r) of Some n \<Rightarrow> (r\<lparr>jeCode := n\<rparr>, ok) | None \<Rightarrow> (r, False))
      else if key = ''message'' then
        (case decodeString v (jeMessage r) of Some s \<Rightarrow> (r\<lparr>jeMessage := s\<rparr>, ok) | None \<Rightarrow> (r, False))
      else if key = ''data'' then (r\<lparr>jeData := (if is_null v then None else Some v)\<rparr>, ok)
      else (r, ok))"

text \<open>A pointer to a struct: \<open>null\<close> sets it to nil, an object is decoded into the struct it has.\<close>

definition decodeErrorPtr :: "raw \<Rightarrow> jsonError option \<Rightarrow> jsonError option \<times> bool" where
  "decodeErrorPtr v old =
     (if is_null v then (None, True)
      else let base = (case old of None \<Rightarrow> zeroError | Some e \<Rightarrow> e) in
           case json_object v of
             None \<Rightarrow> (Some base, False)
           | Some ms \<Rightarrow> (let (e, ok) = foldl decodeErrorMember (base, True) ms in (Some e, ok)))"

definition decodeMessageMember ::
  "jsonrpcMessage \<times> bool \<Rightarrow> raw \<times> raw \<Rightarrow> jsonrpcMessage \<times> bool" where
  "decodeMessageMember st kv =
     (let (r, ok) = st; key = ToLower (unquote (fst kv)); v = snd kv in
      if key = ''jsonrpc'' then
        (case decodeString v (mgVersion r) of Some s \<Rightarrow> (r\<lparr>mgVersion := s\<rparr>, ok) | None \<Rightarrow> (r, False))
      else if key = ''id'' then (r\<lparr>mgID := v\<rparr>, ok)
      else if key = ''method'' then
        (case decodeString v (mgMethod r) of Some s \<Rightarrow> (r\<lparr>mgMethod := s\<rparr>, ok) | None \<Rightarrow> (r, False))
      else if key = ''params'' then (r\<lparr>mgParams := v\<rparr>, ok)
      else if key = ''error'' then
        (let (e, ok') = decodeErrorPtr v (mgError r) in (r\<lparr>mgError := e\<rparr>, ok \<and> ok'))
      else if key = ''result'' then (r\<lparr>mgResult := v\<rparr>, ok)
      else (r, ok))"

text \<open>
  \<^verbatim>\<open>json.Unmarshal\<close> into a \<^verbatim>\<open>*jsonrpcMessage\<close> variable: \<open>null\<close> leaves a nil pointer, which is
  \<^term>\<open>None\<close> inside the result. The outer \<^term>\<open>None\<close> is a decoding error.
\<close>

definition decodeMessagePtr :: "raw \<Rightarrow> jsonrpcMessage option option" where
  "decodeMessagePtr v =
     (if is_null v then Some None
      else case json_object v of
             None \<Rightarrow> None
           | Some ms \<Rightarrow>
               (let (r, ok) = foldl decodeMessageMember (zeroMessage, True) ms
                in if ok then Some (Some r) else None))"

text \<open>\<^verbatim>\<open>readMessage\<close> in \<^verbatim>\<open>Client.read\<close>: one value of the stream, a message or an array of messages.\<close>

definition readMessage ::
  "jsonlib \<Rightarrow> string \<Rightarrow> string + jsonrpcMessage option list \<times> string" where
  "readMessage lib input =
     (case decodeRaw lib input of
        Inl e \<Rightarrow> Inl e
      | Inr (buf, rest) \<Rightarrow>
          if isBatch buf then
            (case json_array buf of
               None \<Rightarrow> Inl (unmarshalErr lib buf)
             | Some vs \<Rightarrow>
                 (case those (map decodeMessagePtr vs) of
                    None \<Rightarrow> Inl (unmarshalErr lib buf) | Some rs \<Rightarrow> Inr (rs, rest)))
          else
            (case decodeMessagePtr buf of
               None \<Rightarrow> Inl (unmarshalErr lib buf) | Some r \<Rightarrow> Inr ([r], rest)))"

section \<open>Identifiers\<close>

fun nextIDs :: "nat \<Rightarrow> 32 word \<Rightarrow> raw list" where
  "nextIDs 0 c = []"
| "nextIDs (Suc n) c = (case nextID c of (i, c') \<Rightarrow> i # nextIDs n c')"

lemma nextIDs_eq: "nextIDs n c = map (\<lambda>k. itoa (unat (c + word_of_nat (Suc k)))) [0..<n]"
proof (induction n arbitrary: c)
  case (Suc n)
  have "map (\<lambda>k. itoa (unat (c + word_of_nat (Suc k)))) [0..<Suc n] =
      itoa (unat (c + 1)) # map (\<lambda>k. itoa (unat (c + word_of_nat (Suc (Suc k))))) [0..<n]"
    by (simp only: upt_conv_Cons [OF zero_less_Suc] map_Suc_upt [symmetric]) simp
  then show ?case using Suc [of "c + 1"] by (simp add: nextID_def Let_def ac_simps)
qed simp

lemma word_of_nat_add_inj:
  assumes "a < 2 ^ 32" "b < 2 ^ 32" "c + word_of_nat (Suc a) = (c + word_of_nat (Suc b) :: 32 word)"
  shows "a = b"
proof -
  have "(word_of_nat a :: 32 word) = word_of_nat b" using assms(3) by simp
  then have "a mod 2 ^ 32 = b mod 2 ^ 32" by (simp add: word_of_nat_eq_iff take_bit_eq_mod)
  then show ?thesis using assms(1,2) by simp
qed

text \<open>
  Request identifiers do not repeat within \<open>2^32\<close> consecutive requests, wherever the 32-bit
  counter starts and although it wraps around; the first repetition comes exactly after that.
\<close>

theorem nextID_distinct:
  "distinct (nextIDs n c) \<longleftrightarrow> n \<le> 2 ^ 32"
proof
  assume "n \<le> 2 ^ 32"
  then show "distinct (nextIDs n c)"
    unfolding nextIDs_eq distinct_map inj_on_def itoa_inj word_unat_eq_iff [symmetric]
    using word_of_nat_add_inj [of _ _ c] by auto
next
  assume d: "distinct (nextIDs n c)"
  show "n \<le> 2 ^ 32"
  proof (rule ccontr)
    assume n: "\<not> n \<le> 2 ^ 32"
    have "(word_of_nat (Suc (2 ^ 32)) :: 32 word) = word_of_nat (Suc 0)"
      by (simp only: word_of_nat_eq_iff take_bit_eq_mod) simp
    then have "nextIDs n c ! 0 = nextIDs n c ! (2 ^ 32)"
      unfolding nextIDs_eq using n by (simp del: of_nat_Suc)
    moreover have "length (nextIDs n c) = n" by (simp add: nextIDs_eq)
    ultimately show False using d n nth_eq_iff_index_eq [of "nextIDs n c" 0 "2 ^ 32"] by simp
  qed
qed

section \<open>Requests are understood by the server\<close>

lemma ToLower_keys [simp]:
  "ToLower ''jsonrpc'' = ''jsonrpc''" "ToLower ''id'' = ''id''" "ToLower ''method'' = ''method''"
  "ToLower ''params'' = ''params''" "ToLower ''result'' = ''result''" "ToLower ''error'' = ''error''"
  "ToLower ''code'' = ''code''" "ToLower ''message'' = ''message''"
  "ToLower ''subscription'' = ''subscription''"
  by code_simp+

lemma not_null_quote [simp]: "\<not> is_null (json_quote s)"
proof -
  have "TrimSpace (json_quote s) = json_quote s"
    by (simp add: json_quote_def TrimSpace_def is_space_def)
  then show ?thesis by (simp add: is_null_def json_quote_def)
qed

lemma is_string_quote [simp]: "is_string_lit (json_quote s)"
  by (simp add: is_string_lit_def json_quote_def)

lemma decodeString_quote [simp]: "decodeString (json_quote s) old = Some s"
  by (simp add: decodeString_def)

lemma not_null_object [simp]: "\<not> is_null (render_object ms)"
proof -
  have "TrimSpace (render_object ms) = render_object ms"
    by (simp add: render_object_def TrimSpace_def is_space_def)
  then show ?thesis by (simp add: is_null_def render_object_def)
qed

lemma itoa_digits: "list_all is_digit (itoa n)"
proof -
  have "is_digit (digit_char d)" if "d < 10" for d
  proof -
    have "\<forall>d \<in> set [0..<10]. is_digit (digit_char d)" by code_simp
    then show ?thesis using that by simp
  qed
  then show ?thesis
    using format_base_digits [of 10 _ n] by (auto simp: itoa_def list_all_iff)
qed

lemma itoa_nonempty [simp]: "itoa n \<noteq> []"
  by (simp add: itoa_def)

lemma itoa_no_leading_zero: "hd (itoa n) = CHR ''0'' \<Longrightarrow> itoa n = ''0''"
proof (cases "n = 0")
  case True
  then show ?thesis by (simp add: itoa_def format_base.simps digit_char_def)
next
  case False
  assume "hd (itoa n) = CHR ''0''"
  then show ?thesis using format_base_no_leading_zero [of 10 n] False by (simp add: itoa_def)
qed

lemma dropWhile_all: "list_all P xs \<Longrightarrow> dropWhile P xs = []"
  by (induction xs) auto

lemma is_digit_not_jws [simp]: "is_digit c \<Longrightarrow> \<not> is_jws c"
  by (auto simp: is_digit_def is_jws_def)

lemma digit_neqs:
  assumes "is_digit c"
  shows "c \<noteq> CHR 0x22" "c \<noteq> CHR ''[''" "c \<noteq> CHR ''{''" "c \<noteq> CHR ''t''" "c \<noteq> CHR ''f''" "c \<noteq> CHR ''n''"
    "c \<noteq> CHR ''-''" "c \<noteq> CHR ''<''" "c \<noteq> CHR ''>''" "c \<noteq> CHR ''&''"
  using assms by (auto simp: is_digit_def)

lemma itoa_Cons: obtains c cs where "itoa n = c # cs" "is_digit c" "list_all is_digit cs"
    "c = CHR ''0'' \<longrightarrow> cs = []"
  using itoa_digits [of n] itoa_no_leading_zero [of n] by (cases "itoa n") auto

lemma scan_num_itoa: "scan_num (itoa n) = Some []"
proof -
  obtain c cs where i: "itoa n = c # cs" "is_digit c" "list_all is_digit cs" "c = CHR ''0'' \<longrightarrow> cs = []"
    by (rule itoa_Cons [of n])
  then show ?thesis
    using digit_neqs [OF i(2)]
    by (auto simp: scan_num_def scan_int_def scan_frac_def scan_exp_def Let_def dropWhile_all [OF i(3)])
qed

lemma compact_itoa [simp]: "compact (itoa n)"
proof -
  obtain c cs where i: "itoa n = c # cs" "is_digit c" by (rule itoa_Cons [of n])
  then show ?thesis
    using digit_neqs [OF i(2)] scan_num_itoa [of n]
    by (simp add: compact_def json_scan_def scan_value.simps(2) skip_ws_def)
qed

lemma digits_nat_itoa [simp]: "digits_nat (itoa n) = n"
  by (simp add: digits_nat_def itoa_def format_base_parse)

lemma checkReqId_itoa:
  assumes "n < 2 ^ 32"
  shows "checkReqId (itoa n) = None"
proof -
  obtain c cs where i: "itoa n = c # cs" "is_digit c" "list_all is_digit cs" by (rule itoa_Cons [of n])
  have tw: "takeWhile is_digit (itoa n) = itoa n" "dropWhile is_digit (itoa n) = []"
    using itoa_digits [of n] by (simp_all add: dropWhile_all list_all_iff takeWhile_eq_all_conv)
  have "\<not> HasPrefix (itoa n) ''-''" using i digit_neqs(7) [OF i(2)] by (simp add: HasPrefix_def)
  moreover have "int n < 2 ^ 32" using assms by simp
  moreover have "(2 :: int) ^ 32 \<le> 2 ^ 1024 - 2 ^ 970" by simp
  moreover have "\<not> HasPrefix [] ''.''" by (simp add: HasPrefix_def)
  ultimately have "float_in_range (itoa n)"
    by (simp add: float_in_range_def Let_def exponent_of_def tw)
  moreover have "is_number_lit (itoa n)" using i by (simp add: is_number_lit_def skip_ws_def)
  ultimately show ?thesis by (simp add: checkReqId_def)
qed

lemma marshalRequest_object:
  assumes "compact (mgParams msg)" "compact (mgID msg)" "mgMethod msg \<noteq> []"
  shows "json_object (marshalRequest msg) = Some
      [(encode_body ''jsonrpc'', json_quote (mgVersion msg)), (encode_body ''id'', mgID msg),
       (encode_body ''method'', json_quote (mgMethod msg)), (encode_body ''params'', mgParams msg)]"
    "compact (marshalRequest msg)"
proof -
  have ne: "mgParams msg \<noteq> []" "mgID msg \<noteq> []" using assms by (auto simp: compact_def)
  let ?ms = "[(''jsonrpc'', json_quote (mgVersion msg)), (''id'', mgID msg),
       (''method'', json_quote (mgMethod msg)), (''params'', mgParams msg)]"
  have "marshalRequest msg = render_object ?ms"
    using ne assms(3) by (simp add: marshalRequest_def optMember_def)
  moreover have "\<forall>(k, v) \<in> set ?ms. compact v" using assms by simp
  ultimately show "json_object (marshalRequest msg) = Some
      [(encode_body ''jsonrpc'', json_quote (mgVersion msg)), (encode_body ''id'', mgID msg),
       (encode_body ''method'', json_quote (mgMethod msg)), (encode_body ''params'', mgParams msg)]"
      "compact (marshalRequest msg)"
    using json_object_render [of ?ms] by simp_all
qed

lemma decodeRequest_marshal:
  assumes "compact (mgParams msg)" "compact (mgID msg)" "mgMethod msg \<noteq> []"
  shows "decodeRequest (marshalRequest msg) = Some
     \<lparr>jMethod = mgMethod msg, jVersion = mgVersion msg, jId = mgID msg, jPayload = mgParams msg\<rparr>"
proof -
  have "\<not> is_null (marshalRequest msg)" by (simp add: marshalRequest_def)
  then show ?thesis
    by (simp add: decodeRequest_def marshalRequest_object [OF assms] decodeMember_def zeroRequest_def)
qed

text \<open>The parameters of a request are compact JSON when the library encodes values as such.\<close>

definition compactLib :: "jsonlib \<Rightarrow> bool" where
  "compactLib lib \<longleftrightarrow> (\<forall>v r. marshal lib v = Inr r \<longrightarrow> compact r)"

lemma compact_null [simp]: "compact ''null''" by code_simp

lemma compact_bools [simp]: "compact ''true''" "compact ''false''" by code_simp+

lemma compact_marshalValue: "compactLib lib \<Longrightarrow> marshalValue lib v = Inr r \<Longrightarrow> compact r"
  by (cases v) (auto simp: compactLib_def)

lemma compact_marshalValues:
  "compactLib lib \<Longrightarrow> marshalValues lib vs = Inr rs \<Longrightarrow> \<forall>r \<in> set rs. compact r"
proof (induction vs arbitrary: rs)
  case (Cons v vs)
  then show ?case
    using compact_marshalValue [of lib v]
    by (cases "marshalValue lib v"; cases "marshalValues lib vs") auto
qed simp

lemma compact_marshalParams: "compactLib lib \<Longrightarrow> marshalParams lib vs = Inr r \<Longrightarrow> compact r"
  using compact_marshalValues [of lib vs] json_array_render(2)
  by (auto simp: marshalParams_def split: if_splits sum.splits)

lemma newMessage_fields:
  assumes "compactLib lib" "newMessage lib c m args = (Inr msg, c')"
  shows "mgVersion msg = ''2.0''" "mgMethod msg = m" "mgID msg = itoa (unat c')" "c' = c + 1"
    "marshalParams lib args = Inr (mgParams msg)" "compact (mgParams msg)" "compact (mgID msg)"
    "checkReqId (mgID msg) = None"
proof -
  show f: "mgVersion msg = ''2.0''" "mgMethod msg = m" "mgID msg = itoa (unat c')" "c' = c + 1"
    "marshalParams lib args = Inr (mgParams msg)"
    using assms(2) by (auto simp: newMessage_def nextID_def Let_def split: sum.splits)
  show "compact (mgParams msg)" using compact_marshalParams [OF assms(1) f(5)] .
  show "compact (mgID msg)" using f(3) by simp
  have "unat c' < 2 ^ 32" using unat_bound [of c'] by simp
  then show "checkReqId (mgID msg) = None" using f(3) checkReqId_itoa by simp
qed

lemma no_suffix_split:
  assumes "m = a @ CHR ''_'' # b" "CHR ''_'' \<notin> set a" "CHR ''_'' \<notin> set b"
    "b \<noteq> ''subscribe''" "b \<noteq> ''unsubscribe''"
  shows "\<not> HasSuffix m subscribeMethodSuffix" "\<not> HasSuffix m unsubscribeMethodSuffix"
proof -
  have "\<not> HasSuffix m (CHR ''_'' # t)" if t: "CHR ''_'' \<notin> set t" "b \<noteq> t" for t
  proof
    assume "HasSuffix m (CHR ''_'' # t)"
    then obtain r where "a @ CHR ''_'' # b = r @ CHR ''_'' # t" using assms(1) by (auto simp: HasSuffix_iff)
    then show False
      using assms(3) t by (auto simp: append_eq_append_conv2 append_eq_Cons_conv Cons_eq_append_conv)
  qed
  then show "\<not> HasSuffix m subscribeMethodSuffix" "\<not> HasSuffix m unsubscribeMethodSuffix"
    using assms(4,5) by (simp_all add: suffix_defs)
qed

text \<open>
  What the client sends is what the server understands: the text of a call of the method
  \<open>b\<close> of the service \<open>a\<close> is parsed by the server as one request for that service and method with
  the identifier of the message and the encoded arguments as its parameters.
\<close>

lemma parse_newMessage:
  assumes "compactLib lib"
    and "newMessage lib c (a @ ''_'' @ b) args = (Inr msg, c')"
    and "CHR ''_'' \<notin> set a" "CHR ''_'' \<notin> set b" "b \<noteq> ''subscribe''" "b \<noteq> ''unsubscribe''"
  shows "parseRequest lib (marshalRequest msg) =
    ([\<lparr>rqService = a, rqMethod = b, rqId = Some (mgID msg), rqPubSub = False,
       rqParams = Some (mgParams msg), rqErr = None\<rparr>], False, None)"
proof -
  note f = newMessage_fields [OF assms(1,2)]
  have m: "mgMethod msg = a @ CHR ''_'' # b" using f(2) by simp
  have d: "decodeRequest (marshalRequest msg) = Some
     \<lparr>jMethod = mgMethod msg, jVersion = mgVersion msg, jId = mgID msg, jPayload = mgParams msg\<rparr>"
    by (rule decodeRequest_marshal) (use f m in simp_all)
  have "json_valid (marshalRequest msg)"
    by (rule compact_valid, rule marshalRequest_object) (use f m in simp_all)
  then have u: "unmarshalRequest lib (marshalRequest msg) = Inr
     \<lparr>jMethod = mgMethod msg, jVersion = mgVersion msg, jId = mgID msg, jPayload = mgParams msg\<rparr>"
    using d by (simp add: unmarshalRequest_Inr)
  have sp: "Split1 (CHR ''_'') (mgMethod msg) = [a, b]"
    using m assms(3,4) by (simp add: Split1_pair_iff)
  have "mgParams msg \<noteq> []" using f(6) by (auto simp: compact_def)
  then show ?thesis
    using u f(8) sp no_suffix_split [OF m assms(3-6)]
    by (simp add: parseRequest_def zeroRpcRequest_def serviceMethodSeparator_def)
qed

section \<open>Responses are understood by the client\<close>

lemma scan_num_neg: "scan_num (CHR ''-'' # itoa n) = Some []"
proof -
  obtain c cs where i: "itoa n = c # cs" "is_digit c" by (rule itoa_Cons [of n])
  have "scan_num (CHR ''-'' # itoa n) = scan_num (itoa n)"
    using i digit_neqs(7) [OF i(2)] by (simp add: scan_num_def)
  then show ?thesis by (simp add: scan_num_itoa)
qed

lemma compact_itoa_int [simp]: "compact (itoa_int i)"
  using scan_num_neg [of "nat (- i)"]
  by (auto simp: itoa_int_def compact_def json_scan_def scan_value.simps(2) skip_ws_def is_jws_def)
    (use compact_itoa [of "nat i"] in \<open>simp_all add: compact_def json_scan_def scan_value.simps(2) skip_ws_def is_jws_def\<close>)

lemma int_of_lit_itoa: "int_of_lit (itoa_int i) = i" "is_integer_lit (itoa_int i)"
proof -
  obtain c cs where n: "itoa (nat i) = c # cs" "is_digit c" by (rule itoa_Cons [of "nat i"])
  have "\<not> HasPrefix (itoa (nat i)) ''-''" using n digit_neqs(7) [OF n(2)] by (simp add: HasPrefix_def)
  moreover have "HasPrefix (CHR ''-'' # r) ''-''" for r by (simp add: HasPrefix_def)
  ultimately show "int_of_lit (itoa_int i) = i" "is_integer_lit (itoa_int i)"
    by (auto simp: int_of_lit_def is_integer_lit_def itoa_int_def itoa_digits Let_def)
qed

lemma not_null_itoa_int [simp]: "\<not> is_null (itoa_int i)"
proof
  assume "is_null (itoa_int i)"
  then have t: "TrimSpace (itoa_int i) = ''null''" by (simp add: is_null_def)
  have "set (TrimSpace (itoa_int i)) \<subseteq> set (itoa_int i)"
    unfolding TrimSpace_def by (metis set_dropWhileD set_rev subsetI)
  with t have "CHR ''u'' \<in> set (itoa_int i)" by auto
  moreover have "\<not> is_digit (CHR ''u'')" by (simp add: is_digit_def)
  ultimately show False
    using itoa_digits [of "nat i"] itoa_digits [of "nat (- i)"]
    by (auto simp: itoa_int_def list_all_iff split: if_splits)
qed

lemma decodeInt_itoa: "- (2 ^ 63) \<le> i \<Longrightarrow> i < 2 ^ 63 \<Longrightarrow> decodeInt (itoa_int i) old = Some i"
  by (simp add: decodeInt_def int_of_lit_itoa)

lemma ErrorCode_int64: "- (2 ^ 63) \<le> ErrorCode e" "ErrorCode e < 2 ^ 63"
  using ErrorCode_reserved [of e] by auto

lemma escapeHTML_itoa [simp]: "escapeHTML (itoa n) = itoa n"
proof -
  have "concat (map (\<lambda>c. if c \<in> {CHR ''<'', CHR ''>'', CHR ''&''} then encode_char c else [c]) v) = v"
    if "list_all is_digit v" for v
    using that by (induction v) (auto simp: digit_neqs)
  then show ?thesis by (simp add: escapeHTML_def itoa_digits)
qed

lemma decodeMessagePtr_object:
  assumes "\<forall>(k, v) \<in> set ms. compact v"
  shows "decodeMessagePtr (render_object ms) =
     (let (r, ok) = foldl decodeMessageMember (zeroMessage, True) (map (\<lambda>(k, v). (encode_body k, v)) ms)
      in if ok then Some (Some r) else None)"
  using json_object_render(1) [OF assms] by (simp add: decodeMessagePtr_def)

lemma decodeErrorPtr_object:
  "- (2 ^ 63) \<le> code \<Longrightarrow> code < 2 ^ 63 \<Longrightarrow>
   decodeErrorPtr (render_object [(''code'', itoa_int code), (''message'', json_quote m)]) None =
     (Some \<lparr>jeCode = code, jeMessage = m, jeData = None\<rparr>, True)"
  using json_object_render(1) [of "[(''code'', itoa_int code), (''message'', json_quote m)]"]
  by (simp add: decodeErrorPtr_def decodeErrorMember_def decodeInt_itoa zeroError_def)

lemma decode_success:
  assumes "compact r" "marshalValue lib v = Inr r"
  shows "\<exists>t. marshalResponse lib (CreateResponse (Some (itoa n)) v) = Inr t \<and> compact t \<and>
    decodeMessagePtr t =
      Some (Some (zeroMessage\<lparr>mgVersion := ''2.0'', mgID := itoa n, mgResult := r\<rparr>))"
proof -
  let ?ms = "[versionMember, (''id'', itoa n), (''result'', r)]"
  have c: "\<forall>(k, v) \<in> set ?ms. compact v" using assms(1) by (simp add: versionMember_def)
  have "marshalResponse lib (CreateResponse (Some (itoa n)) v) = Inr (render_object ?ms)"
    using assms(2) by (simp add: CreateResponse_def idMember_def)
  moreover have "decodeMessagePtr (render_object ?ms) =
      Some (Some (zeroMessage\<lparr>mgVersion := ''2.0'', mgID := itoa n, mgResult := r\<rparr>))"
    unfolding decodeMessagePtr_object [OF c]
    by (simp add: versionMember_def decodeMessageMember_def jsonrpcVersion_def)
  ultimately show ?thesis using json_object_render(2) [OF c] by blast
qed

lemma decode_error:
  "\<exists>t. marshalResponse lib (CreateErrorResponse (Some (itoa n)) e) = Inr t \<and> compact t \<and>
    decodeMessagePtr t =
      Some (Some (zeroMessage\<lparr>mgVersion := ''2.0'', mgID := itoa n,
        mgError := Some \<lparr>jeCode = ErrorCode e, jeMessage = ErrorText e, jeData = None\<rparr>\<rparr>))"
proof -
  let ?er = "render_object [(''code'', itoa_int (ErrorCode e)), (''message'', json_quote (ErrorText e))]"
  let ?ms = "[versionMember, (''id'', itoa n), (''error'', ?er)]"
  have "compact ?er" by (rule json_object_render(2)) simp
  then have c: "\<forall>(k, v) \<in> set ?ms. compact v" by (simp add: versionMember_def)
  have "marshalResponse lib (CreateErrorResponse (Some (itoa n)) e) = Inr (render_object ?ms)"
    by (simp add: CreateErrorResponse_def idMember_def marshalOptional_def)
  moreover have "decodeMessagePtr (render_object ?ms) =
      Some (Some (zeroMessage\<lparr>mgVersion := ''2.0'', mgID := itoa n,
        mgError := Some \<lparr>jeCode = ErrorCode e, jeMessage = ErrorText e, jeData = None\<rparr>\<rparr>))"
    unfolding decodeMessagePtr_object [OF c]
    by (simp add: versionMember_def decodeMessageMember_def jsonrpcVersion_def zeroMessage_def
          decodeErrorPtr_object [OF ErrorCode_int64])
  ultimately show ?thesis using json_object_render(2) [OF c] by blast
qed

end
