(* ===== verification/Client.thy ===== *)
theory Client
  imports ClientMsg
begin

text \<open>
  The dispatch loop of the RPC client, \<^verbatim>\<open>src/rpc/client.go\<close>, for connections other than HTTP. The
  operations and subscriptions that the code allocates are numbered; the maps \<^verbatim>\<open>respWait\<close> and
  \<^verbatim>\<open>subs\<close> hold these numbers as the code's maps hold pointers. The channel \<^verbatim>\<open>op.resp\<close> is the list of
  messages sent on it (no receiver is assumed to take any out) and a flag for \<^verbatim>\<open>close\<close>. A step is
  \<^term>\<open>None\<close> when the loop panics (nil message, closing or sending on a closed channel) or blocks
  on a full channel.
\<close>

section \<open>State\<close>

record requestOp =
  opIds :: "raw list"
  opErr :: "string option"
  opSub :: "nat option"
  opResp :: "jsonrpcMessage list"
  opClosed :: bool

record ClientSubscription =
  csNamespace :: string
  csSubid :: string
  csStarted :: bool
  csQuit :: bool
  csIn :: "raw list"
  csErr :: "string option list"
  csErrClosed :: bool
  csUnsubscribed :: bool

record Client =
  clRespWait :: "raw \<rightharpoonup> nat"
  clSubs :: "string \<rightharpoonup> nat"
  clOps :: "requestOp list"
  clSubObjs :: "ClientSubscription list"
  clLastOp :: "nat option"
  clReading :: bool
  clQuit :: bool

definition newClient :: Client where
  "newClient = \<lparr>clRespWait = Map.empty, clSubs = Map.empty, clOps = [], clSubObjs = [],
     clLastOp = None, clReading = True, clQuit = False\<rparr>"

definition newClientSubscription :: "string \<Rightarrow> ClientSubscription" where
  "newClientSubscription namespace = \<lparr>csNamespace = namespace, csSubid = '''', csStarted = False,
     csQuit = False, csIn = [], csErr = [], csErrClosed = False, csUnsubscribed = False\<rparr>"

section \<open>Subscriptions\<close>

definition quitWithError :: "string option \<Rightarrow> bool \<Rightarrow> ClientSubscription \<Rightarrow> ClientSubscription" where
  "quitWithError err unsubscribeServer sub =
     (if csQuit sub then sub
      else sub\<lparr>csQuit := True,
             csUnsubscribed := (csUnsubscribed sub \<or> unsubscribeServer),
             csErr := (case err of
                None \<Rightarrow> csErr sub
              | Some e \<Rightarrow> csErr sub @ [if e = ErrClientQuit then None else Some e])\<rparr>)"

definition Unsubscribe :: "ClientSubscription \<Rightarrow> ClientSubscription" where
  "Unsubscribe sub = (quitWithError None True sub)\<lparr>csErrClosed := True\<rparr>"

definition deliver :: "raw \<Rightarrow> ClientSubscription \<Rightarrow> ClientSubscription" where
  "deliver result sub = (if csQuit sub then sub else sub\<lparr>csIn := csIn sub @ [result]\<rparr>)"

section \<open>The steps of the loop\<close>

text \<open>Registering an operation with the identifiers \<open>ids\<close>; \<open>sub\<close> is the namespace of a subscription.\<close>

fun setWait :: "raw list \<Rightarrow> nat \<Rightarrow> (raw \<rightharpoonup> nat) \<Rightarrow> raw \<rightharpoonup> nat" where
  "setWait [] o' w = w"
| "setWait (i # ids) o' w = setWait ids o' (w(i \<mapsto> o'))"

fun deleteWait :: "raw list \<Rightarrow> (raw \<rightharpoonup> nat) \<Rightarrow> raw \<rightharpoonup> nat" where
  "deleteWait [] w = w"
| "deleteWait (i # ids) w = deleteWait ids (w(i := None))"

definition registerOp :: "raw list \<Rightarrow> string option \<Rightarrow> Client \<Rightarrow> Client" where
  "registerOp ids sub c =
     (let n = length (clOps c);
          objs = (case sub of None \<Rightarrow> clSubObjs c | Some ns \<Rightarrow> clSubObjs c @ [newClientSubscription ns]);
          op = \<lparr>opIds = ids, opErr = None,
                opSub = (case sub of None \<Rightarrow> None | Some _ \<Rightarrow> Some (length (clSubObjs c))),
                opResp = [], opClosed = False\<rparr>
      in c\<lparr>clOps := clOps c @ [op], clSubObjs := objs, clLastOp := Some n,
           clRespWait := setWait ids n (clRespWait c)\<rparr>)"

definition sendDone :: "string option \<Rightarrow> Client \<Rightarrow> Client" where
  "sendDone err c =
     (case clLastOp c of
        None \<Rightarrow> c
      | Some n \<Rightarrow>
          c\<lparr>clRespWait := (if err = None then clRespWait c
                           else deleteWait (opIds (clOps c ! n)) (clRespWait c)),
            clLastOp := None\<rparr>)"

text \<open>An operation is waited for when the table maps one of its identifiers to it.\<close>

definition waiting :: "Client \<Rightarrow> nat \<Rightarrow> bool" where
  "waiting c n \<longleftrightarrow> list_ex (\<lambda>i. clRespWait c i = Some n) (opIds (clOps c ! n))"

definition closeRequestOps :: "string \<Rightarrow> Client \<Rightarrow> Client option" where
  "closeRequestOps err c =
     (if list_ex (\<lambda>n. waiting c n \<and> opClosed (clOps c ! n)) [0..<length (clOps c)] then None
      else Some (c\<lparr>
        clOps := map (\<lambda>n. if waiting c n then (clOps c ! n)\<lparr>opErr := Some err, opClosed := True\<rparr>
                          else clOps c ! n) [0..<length (clOps c)],
        clRespWait := Map.empty,
        clSubObjs := map (\<lambda>k. if clSubs c (csSubid (clSubObjs c ! k)) = Some k
                              then quitWithError (Some err) False (clSubObjs c ! k)
                              else clSubObjs c ! k) [0..<length (clSubObjs c)],
        clSubs := Map.empty\<rparr>))"

definition decodeSubMember :: "(string \<times> raw) \<times> bool \<Rightarrow> raw \<times> raw \<Rightarrow> (string \<times> raw) \<times> bool" where
  "decodeSubMember st kv =
     (let ((i, r), ok) = st; key = ToLower (unquote (fst kv)); v = snd kv in
      if key = ''subscription'' then
        (case decodeString v i of Some s \<Rightarrow> ((s, r), ok) | None \<Rightarrow> ((i, r), False))
      else if key = ''result'' then ((i, v), ok)
      else ((i, r), ok))"

definition unmarshalSubResult :: "raw \<Rightarrow> (string \<times> raw) option" where
  "unmarshalSubResult v =
     (if \<not> json_valid v then None
      else if is_null v then Some ('''', [])
      else case json_object v of
             None \<Rightarrow> None
           | Some ms \<Rightarrow>
               (let (r, ok) = foldl decodeSubMember (('''', []), True) ms in if ok then Some r else None))"

definition handleNotification :: "jsonrpcMessage \<Rightarrow> Client \<Rightarrow> Client" where
  "handleNotification msg c =
     (if \<not> HasSuffix (mgMethod msg) notificationMethodSuffix then c
      else case unmarshalSubResult (mgParams msg) of
             None \<Rightarrow> c
           | Some (subid, result) \<Rightarrow>
               (case clSubs c subid of
                  None \<Rightarrow> c
                | Some k \<Rightarrow> c\<lparr>clSubObjs := (clSubObjs c)[k := deliver result (clSubObjs c ! k)]\<rparr>))"

definition updateOp :: "nat \<Rightarrow> (requestOp \<Rightarrow> requestOp) \<Rightarrow> Client \<Rightarrow> Client" where
  "updateOp n f c = c\<lparr>clOps := (clOps c)[n := f (clOps c ! n)]\<rparr>"

text \<open>The response of a subscribe request: record an error, or start the subscription.\<close>

definition startSubscription :: "jsonlib \<Rightarrow> jsonrpcMessage \<Rightarrow> nat \<Rightarrow> nat \<Rightarrow> Client \<Rightarrow> Client" where
  "startSubscription lib msg n k c =
     (case mgError msg of
        Some e \<Rightarrow> updateOp n (\<lambda>op. op\<lparr>opErr := Some (jsonErrorText (jeCode e) (jeMessage e))\<rparr>) c
      | None \<Rightarrow>
          (if \<not> json_valid (mgResult msg) then
             updateOp n (\<lambda>op. op\<lparr>opErr := Some (unmarshalErr lib (mgResult msg))\<rparr>) c
           else case decodeString (mgResult msg) (csSubid (clSubObjs c ! k)) of
                  None \<Rightarrow> updateOp n (\<lambda>op. op\<lparr>opErr := Some (unmarshalErr lib (mgResult msg))\<rparr>) c
                | Some subid \<Rightarrow>
                    (updateOp n (\<lambda>op. op\<lparr>opErr := None\<rparr>) c)\<lparr>
                      clSubObjs := (clSubObjs c)[k := (clSubObjs c ! k)\<lparr>csSubid := subid, csStarted := True\<rparr>],
                      clSubs := (clSubs c)(subid \<mapsto> k)\<rparr>))"

definition handleResponse :: "jsonlib \<Rightarrow> jsonrpcMessage \<Rightarrow> Client \<Rightarrow> Client option" where
  "handleResponse lib msg c =
     (case clRespWait c (mgID msg) of
        None \<Rightarrow> Some c
      | Some n \<Rightarrow>
          (let c' = c\<lparr>clRespWait := (clRespWait c)(mgID msg := None)\<rparr>; op = clOps c ! n in
           if opClosed op then None
           else case opSub op of
             None \<Rightarrow>
               if length (opIds op) \<le> length (opResp op) then None
               else Some (updateOp n (\<lambda>op. op\<lparr>opResp := opResp op @ [msg]\<rparr>) c')
           | Some k \<Rightarrow>
               Some (updateOp n (\<lambda>op. op\<lparr>opClosed := True\<rparr>) (startSubscription lib msg n k c'))))"

definition handleMessage :: "jsonlib \<Rightarrow> jsonrpcMessage option \<Rightarrow> Client \<Rightarrow> Client option" where
  "handleMessage lib m c =
     (case m of
        None \<Rightarrow> None
      | Some msg \<Rightarrow>
          if isNotification msg then Some (handleNotification msg c)
          else if isResponse msg then handleResponse lib msg c
          else Some c)"

datatype dispatch_event =
    EvClose
  | EvReadResp "jsonrpcMessage option list"
  | EvReadErr string
  | EvReconnected
  | EvRequestOp "raw list" "string option"
  | EvSendDone "string option"

text \<open>
  One turn of the select statement. A case that is not enabled in a state (a request while the send
  lock is held, a message when no read loop runs, anything after the loop returned) is not
  chosen and leaves the state as it is.
\<close>

fun dispatch :: "jsonlib \<Rightarrow> dispatch_event \<Rightarrow> Client \<Rightarrow> Client option" where
  "dispatch lib EvClose c =
     (if clQuit c then Some c
      else map_option (\<lambda>c'. c'\<lparr>clQuit := True, clReading := False\<rparr>) (closeRequestOps ErrClientQuit c))"
| "dispatch lib (EvReadResp batch) c =
     (if clQuit c \<or> \<not> clReading c then Some c else run_ops (handleMessage lib) batch c)"
| "dispatch lib (EvReadErr err) c =
     (if clQuit c \<or> \<not> clReading c then Some c
      else map_option (\<lambda>c'. c'\<lparr>clReading := False\<rparr>) (closeRequestOps err c))"
| "dispatch lib EvReconnected c =
     (if clQuit c \<or> clLastOp c = None then Some c else Some (c\<lparr>clReading := True\<rparr>))"
| "dispatch lib (EvRequestOp ids sub) c =
     (if clQuit c \<or> clLastOp c \<noteq> None then Some c else Some (registerOp ids sub c))"
| "dispatch lib (EvSendDone err) c =
     (if clQuit c \<or> clLastOp c = None then Some c else Some (sendDone err c))"

section \<open>Invariant\<close>

lemma setWait_eq [simp]: "setWait ids n w i = (if i \<in> set ids then Some n else w i)"
  by (induction ids arbitrary: w) simp_all

lemma deleteWait_eq [simp]: "deleteWait ids w i = (if i \<in> set ids then None else w i)"
  by (induction ids arbitrary: w) simp_all

text \<open>
  The responses an operation has received carry pairwise distinct identifiers of the operation, none
  of which is waited for any more; the operation of a subscription has one identifier and receives
  no message.
\<close>

definition op_inv :: "(raw \<rightharpoonup> nat) \<Rightarrow> nat \<Rightarrow> nat \<Rightarrow> requestOp \<Rightarrow> bool" where
  "op_inv w k n op \<longleftrightarrow>
     distinct (map mgID (opResp op)) \<and>
     (\<forall>m \<in> set (opResp op). mgID m \<in> set (opIds op) \<and> w (mgID m) \<noteq> Some n) \<and>
     (\<forall>j. opSub op = Some j \<longrightarrow> j < k \<and> opResp op = [] \<and> length (opIds op) = 1)"

definition client_inv :: "Client \<Rightarrow> bool" where
  "client_inv c \<longleftrightarrow>
     (\<forall>i n. clRespWait c i = Some n \<longrightarrow>
        n < length (clOps c) \<and> i \<in> set (opIds (clOps c ! n)) \<and> \<not> opClosed (clOps c ! n)) \<and>
     (\<forall>n < length (clOps c). op_inv (clRespWait c) (length (clSubObjs c)) n (clOps c ! n)) \<and>
     (\<forall>s k. clSubs c s = Some k \<longrightarrow> k < length (clSubObjs c)) \<and>
     (\<forall>n. clLastOp c = Some n \<longrightarrow> n < length (clOps c))"

lemma client_invD:
  assumes "client_inv c"
  shows "clRespWait c i = Some n \<Longrightarrow>
      n < length (clOps c) \<and> i \<in> set (opIds (clOps c ! n)) \<and> \<not> opClosed (clOps c ! n)"
    and "n < length (clOps c) \<Longrightarrow> op_inv (clRespWait c) (length (clSubObjs c)) n (clOps c ! n)"
    and "clSubs c s = Some k \<Longrightarrow> k < length (clSubObjs c)"
    and "clLastOp c = Some n \<Longrightarrow> n < length (clOps c)"
  using assms unfolding client_inv_def by blast+

lemma client_invI:
  assumes "\<And>i n. clRespWait c i = Some n \<Longrightarrow>
      n < length (clOps c) \<and> i \<in> set (opIds (clOps c ! n)) \<and> \<not> opClosed (clOps c ! n)"
    and "\<And>n. n < length (clOps c) \<Longrightarrow> op_inv (clRespWait c) (length (clSubObjs c)) n (clOps c ! n)"
    and "\<And>s k. clSubs c s = Some k \<Longrightarrow> k < length (clSubObjs c)"
    and "\<And>n. clLastOp c = Some n \<Longrightarrow> n < length (clOps c)"
  shows "client_inv c"
  using assms unfolding client_inv_def by blast

lemma op_inv_mono:
  assumes "op_inv w k n op" "\<And>i. w' i = Some n \<Longrightarrow> w i = Some n" "k \<le> k'"
  shows "op_inv w' k' n op"
proof -
  have "\<forall>m \<in> set (opResp op). mgID m \<in> set (opIds op) \<and> w' (mgID m) \<noteq> Some n"
    using assms(1,2) unfolding op_inv_def by blast
  moreover have "\<forall>j. opSub op = Some j \<longrightarrow> j < k' \<and> opResp op = [] \<and> length (opIds op) = 1"
    using assms(1,3) unfolding op_inv_def by (meson less_le_trans)
  ultimately show ?thesis using assms(1) unfolding op_inv_def by blast
qed

lemma client_inv_new [rpc_inv]: "client_inv newClient"
  by (simp add: client_inv_def newClient_def)

lemma client_inv_register [rpc_inv]:
  assumes inv: "client_inv c" and one: "sub \<noteq> None \<longrightarrow> length ids = 1"
  shows "client_inv (registerOp ids sub c)"
proof (rule client_invI)
  let ?c = "registerOp ids sub c" and ?N = "length (clOps c)"
  have w: "clRespWait ?c i = (if i \<in> set ids then Some ?N else clRespWait c i)" for i
    by (simp add: registerOp_def Let_def)
  have ops: "length (clOps ?c) = Suc ?N" "n < ?N \<Longrightarrow> clOps ?c ! n = clOps c ! n" for n
    by (simp_all add: registerOp_def Let_def nth_append)
  have new: "clOps ?c ! ?N = \<lparr>opIds = ids, opErr = None,
      opSub = (case sub of None \<Rightarrow> None | Some _ \<Rightarrow> Some (length (clSubObjs c))), opResp = [], opClosed = False\<rparr>"
    by (simp add: registerOp_def Let_def)
  have objs: "length (clSubObjs c) \<le> length (clSubObjs ?c)"
      "sub \<noteq> None \<Longrightarrow> length (clSubObjs ?c) = Suc (length (clSubObjs c))"
    by (auto simp: registerOp_def Let_def split: option.splits)
  show "n < length (clOps ?c) \<and> i \<in> set (opIds (clOps ?c ! n)) \<and> \<not> opClosed (clOps ?c ! n)"
    if "clRespWait ?c i = Some n" for i n
    using that client_invD(1) [OF inv, of i n] new ops by (auto simp: w split: if_splits)
  show "op_inv (clRespWait ?c) (length (clSubObjs ?c)) n (clOps ?c ! n)" if n: "n < length (clOps ?c)" for n
  proof (cases "n = ?N")
    case True
    then show ?thesis using new objs(2) one by (auto simp: op_inv_def split: option.splits)
  next
    case False
    then have lt: "n < ?N" using n ops(1) by simp
    have "clRespWait c i = Some n" if "clRespWait ?c i = Some n" for i
      using that lt by (simp add: w split: if_splits)
    then show ?thesis
      unfolding ops(2) [OF lt] by (rule op_inv_mono [OF client_invD(2) [OF inv lt] _ objs(1)])
  qed
  show "k < length (clSubObjs ?c)" if "clSubs ?c s = Some k" for s k
    using that client_invD(3) [OF inv, of s k] objs(1) by (simp add: registerOp_def Let_def)
  show "n < length (clOps ?c)" if "clLastOp ?c = Some n" for n
    using that by (simp add: registerOp_def Let_def)
qed

text \<open>Removing entries from the table of waiting operations.\<close>

lemma client_inv_restrict:
  assumes inv: "client_inv c" and "\<And>i n. w i = Some n \<Longrightarrow> clRespWait c i = Some n"
  shows "client_inv (c\<lparr>clRespWait := w\<rparr>)"
proof (rule client_invI)
  show "n < length (clOps (c\<lparr>clRespWait := w\<rparr>)) \<and> i \<in> set (opIds (clOps (c\<lparr>clRespWait := w\<rparr>) ! n)) \<and>
      \<not> opClosed (clOps (c\<lparr>clRespWait := w\<rparr>) ! n)" if "clRespWait (c\<lparr>clRespWait := w\<rparr>) i = Some n" for i n
    using that client_invD(1) [OF inv, of i n] assms(2) [of i n] by simp
  show "op_inv (clRespWait (c\<lparr>clRespWait := w\<rparr>)) (length (clSubObjs (c\<lparr>clRespWait := w\<rparr>))) n
      (clOps (c\<lparr>clRespWait := w\<rparr>) ! n)" if "n < length (clOps (c\<lparr>clRespWait := w\<rparr>))" for n
    using that op_inv_mono [OF client_invD(2) [OF inv, of n], of w] assms(2) by simp
qed (use client_invD(3,4) [OF inv] in simp_all)

lemma client_inv_sendDone [rpc_inv]: "client_inv c \<Longrightarrow> client_inv (sendDone err c)"
proof -
  assume inv: "client_inv c"
  have l: "client_inv (c'\<lparr>clLastOp := None\<rparr>)" if "client_inv c'" for c'
    using that by (simp add: client_inv_def)
  show ?thesis
  proof (cases "clLastOp c")
    case (Some n)
    let ?w = "if err = None then clRespWait c else deleteWait (opIds (clOps c ! n)) (clRespWait c)"
    have "client_inv (c\<lparr>clRespWait := ?w\<rparr>)"
      by (rule client_inv_restrict [OF inv]) (auto split: if_splits)
    from l [OF this] show ?thesis using Some by (simp add: sendDone_def)
  qed (simp add: sendDone_def inv)
qed

lemma closeRequestOps_eq:
  assumes "client_inv c"
  shows "closeRequestOps err c = Some (c\<lparr>
        clOps := map (\<lambda>n. if waiting c n then (clOps c ! n)\<lparr>opErr := Some err, opClosed := True\<rparr>
                          else clOps c ! n) [0..<length (clOps c)],
        clRespWait := Map.empty,
        clSubObjs := map (\<lambda>k. if clSubs c (csSubid (clSubObjs c ! k)) = Some k
                              then quitWithError (Some err) False (clSubObjs c ! k)
                              else clSubObjs c ! k) [0..<length (clSubObjs c)],
        clSubs := Map.empty\<rparr>)"
proof -
  have "\<not> (waiting c n \<and> opClosed (clOps c ! n))" for n
    using client_invD(1) [OF assms, of _ n] by (auto simp: waiting_def list_ex_iff)
  then show ?thesis by (simp add: closeRequestOps_def list_ex_iff)
qed

lemma waiting_iff: "client_inv c \<Longrightarrow> waiting c n \<longleftrightarrow> (\<exists>i. clRespWait c i = Some n)"
  using client_invD(1) [of c _ n] by (auto simp: waiting_def list_ex_iff)

lemma client_inv_close [rpc_inv]:
  assumes inv: "client_inv c" and cl: "closeRequestOps err c = Some c'"
  shows "client_inv c'"
proof (rule client_invI)
  have c': "length (clOps c') = length (clOps c)" "length (clSubObjs c') = length (clSubObjs c)"
      "clRespWait c' = Map.empty" "clSubs c' = Map.empty" "clLastOp c' = clLastOp c"
    using cl by (auto simp: closeRequestOps_eq [OF inv])
  have ops: "clOps c' ! n = (if waiting c n then (clOps c ! n)\<lparr>opErr := Some err, opClosed := True\<rparr>
      else clOps c ! n)" if "n < length (clOps c)" for n
    using cl that by (auto simp: closeRequestOps_eq [OF inv])
  show "op_inv (clRespWait c') (length (clSubObjs c')) n (clOps c' ! n)" if "n < length (clOps c')" for n
    using that client_invD(2) [OF inv, of n] c' by (auto simp: ops op_inv_def)
  show "n < length (clOps c')" if "clLastOp c' = Some n" for n
    using that client_invD(4) [OF inv, of n] c' by simp
qed (use cl in \<open>auto simp: closeRequestOps_eq [OF inv]\<close>)

text \<open>An operation that waits has room for the response it waits for.\<close>

lemma room_for_response:
  assumes "op_inv w k n op" "w i = Some n" "i \<in> set (opIds op)"
  shows "length (opResp op) < length (opIds op)" "i \<notin> mgID ` set (opResp op)"
proof -
  show i: "i \<notin> mgID ` set (opResp op)" using assms by (auto simp: op_inv_def)
  have "mgID ` set (opResp op) \<subset> set (opIds op)" using assms i by (auto simp: op_inv_def)
  then have "card (set (map mgID (opResp op))) < card (set (opIds op))"
    by (simp add: psubset_card_mono)
  moreover have "card (set (map mgID (opResp op))) = length (opResp op)"
    using assms(1) distinct_card [of "map mgID (opResp op)"] by (simp add: op_inv_def)
  ultimately show "length (opResp op) < length (opIds op)"
    using card_length [of "opIds op"] by linarith
qed

text \<open>
  A step on one operation: the table loses the identifier of the message, the operation keeps its
  identifiers, and the rest of the client may change only where the invariant does not look.
\<close>

lemma client_inv_update:
  assumes inv: "client_inv c" and n: "clRespWait c i = Some n"
    and ops: "clOps c' = (clOps c)[n := op]" and w: "clRespWait c' = (clRespWait c)(i := None)"
    and op: "op_inv (clRespWait c') (length (clSubObjs c)) n op" "opIds op = opIds (clOps c ! n)"
      "opClosed op \<Longrightarrow> \<forall>j. clRespWait c' j \<noteq> Some n"
    and rest: "length (clSubObjs c') = length (clSubObjs c)" "clLastOp c' = clLastOp c"
      "\<And>s k. clSubs c' s = Some k \<Longrightarrow> k < length (clSubObjs c)"
  shows "client_inv c'"
proof (rule client_invI)
  have lt: "n < length (clOps c)" using client_invD(1) [OF inv n] by simp
  show "m < length (clOps c') \<and> j \<in> set (opIds (clOps c' ! m)) \<and> \<not> opClosed (clOps c' ! m)"
    if "clRespWait c' j = Some m" for j m
    using that client_invD(1) [OF inv, of j m] op(2,3) lt
    by (cases "m = n") (auto simp: ops w split: if_splits)
  show "op_inv (clRespWait c') (length (clSubObjs c')) m (clOps c' ! m)" if "m < length (clOps c')" for m
  proof (cases "m = n")
    case True
    then show ?thesis using op(1) rest(1) lt by (simp add: ops)
  next
    case False
    have "m < length (clOps c)" using that by (simp add: ops)
    then have "op_inv (clRespWait c') (length (clSubObjs c)) m (clOps c ! m)"
      by (intro op_inv_mono [OF client_invD(2) [OF inv]]) (auto simp: w split: if_splits)
    then show ?thesis using False rest(1) by (simp add: ops)
  qed
  show "k < length (clSubObjs c')" if "clSubs c' s = Some k" for s k
    using rest(3) [OF that] rest(1) by simp
  show "m < length (clOps c')" if "clLastOp c' = Some m" for m
    using that client_invD(4) [OF inv, of m] rest(2) by (simp add: ops)
qed

lemma startSubscription_ops:
  "\<exists>e. clOps (startSubscription lib msg n k c) = (clOps c)[n := (clOps c ! n)\<lparr>opErr := e\<rparr>]"
  "clRespWait (startSubscription lib msg n k c) = clRespWait c"
  "clLastOp (startSubscription lib msg n k c) = clLastOp c"
  "length (clSubObjs (startSubscription lib msg n k c)) = length (clSubObjs c)"
  "clSubs (startSubscription lib msg n k c) s = Some j \<Longrightarrow> j = k \<or> clSubs c s = Some j"
  by (auto simp: startSubscription_def updateOp_def split: option.splits if_splits)

text \<open>A response is delivered to the operation that waits for its identifier.\<close>

lemma handleResponse_call:
  assumes inv: "client_inv c" and n: "clRespWait c (mgID msg) = Some n" "opSub (clOps c ! n) = None"
  defines "c' \<equiv> updateOp n (\<lambda>op. op\<lparr>opResp := opResp op @ [msg]\<rparr>)
      (c\<lparr>clRespWait := (clRespWait c)(mgID msg := None)\<rparr>)"
  shows "handleResponse lib msg c = Some c'" "client_inv c'"
proof -
  note d = client_invD(1) [OF inv n(1)]
  let ?op = "clOps c ! n"
  have op: "op_inv (clRespWait c) (length (clSubObjs c)) n ?op" using client_invD(2) [OF inv] d by blast
  note r = room_for_response [OF op n(1)]
  show "handleResponse lib msg c = Some c'"
    using n d r by (simp add: handleResponse_def Let_def c'_def)
  show "client_inv c'"
  proof (rule client_inv_update [OF inv n(1), of _ "?op\<lparr>opResp := opResp ?op @ [msg]\<rparr>"])
    show "op_inv (clRespWait c') (length (clSubObjs c)) n (?op\<lparr>opResp := opResp ?op @ [msg]\<rparr>)"
      using op r(2) d n(2) by (auto simp: op_inv_def updateOp_def c'_def)
  qed (use d client_invD(3) [OF inv] in \<open>auto simp: updateOp_def c'_def\<close>)
qed

lemma handleResponse_sub:
  assumes inv: "client_inv c" and n: "clRespWait c (mgID msg) = Some n" "opSub (clOps c ! n) = Some k"
  shows "\<exists>c'. handleResponse lib msg c = Some c' \<and> client_inv c'"
proof -
  note d = client_invD(1) [OF inv n(1)]
  let ?op = "clOps c ! n" and ?c = "c\<lparr>clRespWait := (clRespWait c)(mgID msg := None)\<rparr>"
  have op: "op_inv (clRespWait c) (length (clSubObjs c)) n ?op" using client_invD(2) [OF inv] d by blast
  have one: "i = mgID msg" if "clRespWait c i = Some n" for i
    using client_invD(1) [OF inv that] d op n(2) by (auto simp: op_inv_def length_Suc_conv)
  let ?c1 = "startSubscription lib msg n k ?c"
  let ?c' = "updateOp n (\<lambda>op. op\<lparr>opClosed := True\<rparr>) ?c1"
  have h: "handleResponse lib msg c = Some ?c'" using n d by (simp add: handleResponse_def Let_def)
  obtain e where e: "clOps ?c1 = (clOps c)[n := ?op\<lparr>opErr := e\<rparr>]"
    using startSubscription_ops(1) [of lib msg n k ?c] by auto
  have "client_inv ?c'"
  proof (rule client_inv_update [OF inv n(1), of _ "?op\<lparr>opErr := e, opClosed := True\<rparr>"])
    show "clOps ?c' = (clOps c)[n := ?op\<lparr>opErr := e, opClosed := True\<rparr>]"
      using e d by (simp add: updateOp_def)
    show w: "clRespWait ?c' = (clRespWait c)(mgID msg := None)"
      by (simp add: updateOp_def startSubscription_ops(2))
    show "op_inv (clRespWait ?c') (length (clSubObjs c)) n (?op\<lparr>opErr := e, opClosed := True\<rparr>)"
      unfolding w using op by (auto simp: op_inv_def)
    show "\<forall>j. clRespWait ?c' j \<noteq> Some n" unfolding w using one by auto
    show "length (clSubObjs ?c') = length (clSubObjs c)" "clLastOp ?c' = clLastOp c"
      by (simp_all add: updateOp_def startSubscription_ops(3,4))
    fix s j assume "clSubs ?c' s = Some j"
    then have "j = k \<or> clSubs c s = Some j"
      using startSubscription_ops(5) [of lib msg n k ?c s j] by (simp add: updateOp_def)
    moreover have "k < length (clSubObjs c)" using op n(2) by (simp add: op_inv_def)
    ultimately show "j < length (clSubObjs c)" using client_invD(3) [OF inv] by blast
  qed simp
  then show ?thesis using h by blast
qed

lemma handleResponse_safe:
  assumes "client_inv c"
  shows "\<exists>c'. handleResponse lib msg c = Some c' \<and> client_inv c'"
proof (cases "clRespWait c (mgID msg)")
  case None
  then show ?thesis using assms by (simp add: handleResponse_def)
next
  case (Some n)
  then show ?thesis
    using handleResponse_call [OF assms Some] handleResponse_sub [OF assms Some]
    by (cases "opSub (clOps c ! n)") blast+
qed

lemma client_inv_notification [rpc_inv]: "client_inv c \<Longrightarrow> client_inv (handleNotification msg c)"
  by (auto simp: handleNotification_def client_inv_def split: option.splits)

lemma handleMessage_safe:
  "client_inv c \<Longrightarrow> m \<noteq> None \<Longrightarrow> \<exists>c'. handleMessage lib m c = Some c' \<and> client_inv c'"
  using handleResponse_safe client_inv_notification by (auto simp: handleMessage_def)

lemma handleMessages_safe:
  "client_inv c \<Longrightarrow> None \<notin> set ms \<Longrightarrow> \<exists>c'. run_ops (handleMessage lib) ms c = Some c' \<and> client_inv c'"
proof (induction ms arbitrary: c)
  case (Cons m ms)
  obtain c1 where c1: "handleMessage lib m c = Some c1" "client_inv c1"
    using handleMessage_safe [OF Cons.prems(1), of m lib] Cons.prems(2) by (metis list.set_intros(1))
  then show ?case using Cons.IH [of c1] Cons.prems(2) by simp
qed simp

text \<open>
  The events that the environment of the loop can produce without a nil message: a subscription
  request has one identifier.
\<close>

fun event_ok :: "dispatch_event \<Rightarrow> bool" where
  "event_ok (EvReadResp ms) \<longleftrightarrow> None \<notin> set ms"
| "event_ok (EvRequestOp ids sub) \<longleftrightarrow> (sub \<noteq> None \<longrightarrow> length ids = 1)"
| "event_ok _ \<longleftrightarrow> True"

lemma dispatch_safe:
  assumes "client_inv c" "event_ok ev"
  shows "\<exists>c'. dispatch lib ev c = Some c' \<and> client_inv c'"
proof (cases ev)
  case EvClose
  then show ?thesis
    using assms(1) closeRequestOps_eq [OF assms(1)] client_inv_close [OF assms(1), of ErrClientQuit]
    by (auto simp: client_inv_def)
next
  case (EvReadErr err)
  then show ?thesis
    using assms(1) closeRequestOps_eq [OF assms(1)] client_inv_close [OF assms(1), of err]
    by (auto simp: client_inv_def)
next
  case (EvReadResp ms)
  then show ?thesis using assms handleMessages_safe by auto
next
  case EvReconnected
  then show ?thesis using assms by (auto simp: client_inv_def)
qed (use assms in \<open>auto intro: rpc_inv\<close>)


definition demoMessage :: "raw \<Rightarrow> raw \<Rightarrow> jsonrpcMessage" where
  "demoMessage i r = zeroMessage\<lparr>mgVersion := ''2.0'', mgID := i, mgResult := r\<rparr>"


text \<open>
  When the connection is lost or the client is closed, nobody keeps waiting: every operation
  with an identifier in the table gets its channel closed with the error, the tables are empty
  afterwards, and every registered subscription has quit.
\<close>

theorem closeRequestOps_unblocks:
  assumes "client_inv c"
  shows "\<exists>c'. closeRequestOps err c = Some c' \<and> clRespWait c' = Map.empty \<and> clSubs c' = Map.empty \<and>
     (\<forall>i n. clRespWait c i = Some n \<longrightarrow> opClosed (clOps c' ! n) \<and> opErr (clOps c' ! n) = Some err) \<and>
     (\<forall>s k. clSubs c s = Some k \<and> csSubid (clSubObjs c ! k) = s \<longrightarrow> csQuit (clSubObjs c' ! k))"
proof -
  obtain c' where c': "closeRequestOps err c = Some c'" by (simp add: closeRequestOps_eq [OF assms])
  have "opClosed (clOps c' ! n) \<and> opErr (clOps c' ! n) = Some err" if "clRespWait c i = Some n" for i n
    using c' that client_invD(1) [OF assms that] waiting_iff [OF assms, of n]
    by (auto simp: closeRequestOps_eq [OF assms])
  moreover have "csQuit (clSubObjs c' ! k)" if "clSubs c s = Some k \<and> csSubid (clSubObjs c ! k) = s" for s k
    using c' that client_invD(3) [OF assms, of s k]
    by (auto simp: closeRequestOps_eq [OF assms] quitWithError_def)
  moreover have "clRespWait c' = Map.empty" "clSubs c' = Map.empty"
    using c' by (auto simp: closeRequestOps_eq [OF assms])
  ultimately show ?thesis using c' by blast
qed

theorem closeRequestOps_unblocks_witness:
  "\<exists>c'. closeRequestOps ''EOF'' (registerOp [''1''] None newClient) = Some c' \<and>
     opClosed (clOps c' ! 0) \<and> opErr (clOps c' ! 0) = Some ''EOF''"
proof -
  have "client_inv (registerOp [''1''] None newClient)"
    by (rule client_inv_register [OF client_inv_new]) simp
  from closeRequestOps_unblocks [OF this, of "''EOF''"] obtain c' where
    "closeRequestOps ''EOF'' (registerOp [''1''] None newClient) = Some c'"
    "\<forall>i n. clRespWait (registerOp [''1''] None newClient) i = Some n \<longrightarrow>
       opClosed (clOps c' ! n) \<and> opErr (clOps c' ! n) = Some ''EOF''" by blast
  then show ?thesis by (auto simp: registerOp_def newClient_def Let_def)
qed

text \<open>
  A server can make the client panic: the JSON text \<open>null\<close> (and an array that contains it) is
  decoded without error to a nil message, on which the dispatch loop dereferences a nil pointer.
\<close>

theorem client_nil_message_panics:
  "readMessage lib ''null'' = Inr ([None], '''') \<and> readMessage lib ''[null]'' = Inr ([None], '''') \<and>
   dispatch lib (EvReadResp [None]) newClient = None"
proof -
  have n: "decodeMessagePtr ''null'' = Some None"
    by (simp add: decodeMessagePtr_def is_null_def TrimSpace_def is_space_def)
  have "decodeRaw lib ''null'' = Inr (''null'', [])" "decodeRaw lib ''[null]'' = Inr (''[null]'', [])"
    using decodeRaw_compact [of "''null''" "[]" lib] decodeRaw_compact [of "''[null]''" "[]" lib]
      json_array_render(2) [of "[''null'']"]
    by (simp_all add: tail_ok_def render_array_def)
  moreover have "json_array ''[null]'' = Some [''null'']"
    using json_array_render(1) [of "[''null'']"] by (simp add: render_array_def)
  ultimately show ?thesis
    using n by (simp add: readMessage_def handleMessage_def newClient_def)
qed

end
