(* ===== verification/ClientCall.thy ===== *)
theory ClientCall
  imports Client "HOL-Library.Multiset"
begin

text \<open>
  What the callers of the RPC client see, \<^verbatim>\<open>src/rpc/client.go\<close>: the evaluation of a response by
  \<^verbatim>\<open>CallContext\<close>, the assignment of the responses of a batch to its elements by \<^verbatim>\<open>BatchCallContext\<close>,
  and the goroutine \<^verbatim>\<open>forward\<close> that buffers the notifications of a subscription.
\<close>

section \<open>Calls\<close>

datatype 'a outcome = Returns 'a | Blocks | Panics

text \<open>
  \<^verbatim>\<open>json.Unmarshal\<close> into the result of the caller, whose type is the caller's, is the argument
  \<open>unm\<close>; errors are their texts.
\<close>

definition evalResponse :: "(raw \<Rightarrow> string + govalue) \<Rightarrow> jsonrpcMessage \<Rightarrow> string + govalue" where
  "evalResponse unm resp =
     (case mgError resp of
        Some e \<Rightarrow> Inl (jsonErrorText (jeCode e) (jeMessage e))
      | None \<Rightarrow> if length (mgResult resp) = 0 then Inl ErrNoResult else unm (mgResult resp))"

text \<open>
  \<^verbatim>\<open>op.wait\<close> on the state of an operation: a message that was sent on the channel is received
  first (with the error that the operation has by then), then the closing of the channel; with
  neither the caller waits until its context is done (\<open>ctxErr\<close>, \<^term>\<open>None\<close> for a context without end).
\<close>

definition wait :: "string option \<Rightarrow> requestOp \<Rightarrow> (jsonrpcMessage option \<times> string option) outcome \<times> requestOp" where
  "wait ctxErr op =
     (case opResp op of
        m # ms \<Rightarrow> (Returns (Some m, opErr op), op\<lparr>opResp := ms\<rparr>)
      | [] \<Rightarrow>
          if opClosed op then (Returns (None, opErr op), op)
          else (case ctxErr of Some e \<Rightarrow> (Returns (None, Some e), op) | None \<Rightarrow> (Blocks, op)))"

text \<open>The end of \<^verbatim>\<open>CallContext\<close>, after the request was sent.\<close>

definition finishCall ::
  "(raw \<Rightarrow> string + govalue) \<Rightarrow> string option \<Rightarrow> requestOp \<Rightarrow> (string + govalue) outcome" where
  "finishCall unm ctxErr op =
     (case fst (wait ctxErr op) of
        Blocks \<Rightarrow> Blocks
      | Panics \<Rightarrow> Panics
      | Returns (resp, Some err) \<Rightarrow> Returns (Inl err)
      | Returns (None, None) \<Rightarrow> Panics
      | Returns (Some resp, None) \<Rightarrow> Returns (evalResponse unm resp))"

section \<open>Batches\<close>

record BatchElem =
  beMethod :: string
  beArgs :: "govalue list"
  beResult :: "govalue option"
  beError :: "string option"

fun newMessages ::
  "jsonlib \<Rightarrow> 32 word \<Rightarrow> BatchElem list \<Rightarrow> (string + jsonrpcMessage list) \<times> 32 word" where
  "newMessages lib c [] = (Inr [], c)"
| "newMessages lib c (e # es) =
     (case newMessage lib c (beMethod e) (beArgs e) of
        (Inl err, c') \<Rightarrow> (Inl err, c')
      | (Inr m, c') \<Rightarrow>
          (case newMessages lib c' es of
             (Inl err, c'') \<Rightarrow> (Inl err, c'')
           | (Inr ms, c'') \<Rightarrow> (Inr (m # ms), c'')))"

text \<open>The first element whose message has the identifier of the response.\<close>

fun findElem :: "jsonrpcMessage list \<Rightarrow> raw \<Rightarrow> nat option" where
  "findElem [] i = None"
| "findElem (m # ms) i = (if mgID m = i then Some 0 else map_option Suc (findElem ms i))"

definition assignElem ::
  "(raw \<Rightarrow> string + govalue) \<Rightarrow> jsonrpcMessage \<Rightarrow> BatchElem \<Rightarrow> BatchElem" where
  "assignElem unm resp elem =
     (case evalResponse unm resp of
        Inl e \<Rightarrow> elem\<lparr>beError := Some e\<rparr>
      | Inr v \<Rightarrow> elem\<lparr>beResult := Some v, beError := None\<rparr>)"

text \<open>
  The loop that waits for \<open>n\<close> more responses. A response for which no element is found
  leaves \<open>elem\<close> nil, and the assignment to its field panics.
\<close>

fun collect ::
  "(raw \<Rightarrow> string + govalue) \<Rightarrow> string option \<Rightarrow> jsonrpcMessage list \<Rightarrow> nat \<Rightarrow> requestOp \<Rightarrow>
     BatchElem list \<Rightarrow> (string option \<times> BatchElem list) outcome" where
  "collect unm ctxErr msgs 0 op b = Returns (None, b)"
| "collect unm ctxErr msgs (Suc n) op b =
     (case wait ctxErr op of
        (Blocks, _) \<Rightarrow> Blocks
      | (Panics, _) \<Rightarrow> Panics
      | (Returns (_, Some err), _) \<Rightarrow> Returns (Some err, b)
      | (Returns (None, None), _) \<Rightarrow> Panics
      | (Returns (Some resp, None), op') \<Rightarrow>
          (case findElem msgs (mgID resp) of
             None \<Rightarrow> Panics
           | Some i \<Rightarrow> collect unm ctxErr msgs n op' (b[i := assignElem unm resp (b ! i)])))"

lemma findElem_Some: "findElem ms i = Some k \<Longrightarrow> k < length ms \<and> mgID (ms ! k) = i"
  by (induction ms arbitrary: k) (auto split: if_splits)

lemma findElem_None: "findElem ms i = None \<longleftrightarrow> i \<notin> mgID ` set ms"
  by (induction ms) auto

lemma findElem_distinct:
  "distinct (map mgID ms) \<Longrightarrow> k < length ms \<Longrightarrow> findElem ms (mgID (ms ! k)) = Some k"
proof -
  assume d: "distinct (map mgID ms)" and k: "k < length ms"
  then obtain j where j: "findElem ms (mgID (ms ! k)) = Some j"
    using findElem_None [of ms "mgID (ms ! k)"] by (cases "findElem ms (mgID (ms ! k))") auto
  then have "j < length ms" "mgID (ms ! j) = mgID (ms ! k)" using findElem_Some by blast+
  then have "j = k" using d k nth_eq_iff_index_eq [of "map mgID ms" j k] by simp
  then show ?thesis using j by simp
qed

lemma collect_all:
  assumes "opErr op = None" "mgID ` set (opResp op) \<subseteq> mgID ` set msgs"
    "distinct (map mgID (opResp op))" "length b = length msgs" "distinct (map mgID msgs)"
  shows "\<exists>b'. collect unm ctxErr msgs (length (opResp op)) op b = Returns (None, b') \<and> length b' = length b \<and>
     (\<forall>i < length msgs. b' ! i =
        (case find (\<lambda>r. mgID r = mgID (msgs ! i)) (opResp op) of
           None \<Rightarrow> b ! i | Some r \<Rightarrow> assignElem unm r (b ! i)))"
  using assms
proof (induction "opResp op" arbitrary: op b)
  case Nil
  then show ?case by simp
next
  case (Cons r rs)
  let ?op = "op\<lparr>opResp := rs\<rparr>"
  obtain k where k: "findElem msgs (mgID r) = Some k"
    using Cons.hyps(2) Cons.prems(2) findElem_None [of msgs "mgID r"]
    by (cases "findElem msgs (mgID r)") (auto simp: Cons.hyps(2) [symmetric])
  have k': "k < length msgs" "mgID (msgs ! k) = mgID r" using findElem_Some [OF k] by auto
  let ?b = "b[k := assignElem unm r (b ! k)]"
  have r: "opResp op = r # rs" using Cons.hyps(2) by simp
  have notin: "find (\<lambda>x. mgID x = mgID r) rs = None"
    using Cons.prems(3) unfolding r find_None_iff by (auto simp: image_iff)
  obtain b' where b': "collect unm ctxErr msgs (length rs) ?op ?b = Returns (None, b')" "length b' = length b"
      "\<forall>i < length msgs. b' ! i = (case find (\<lambda>x. mgID x = mgID (msgs ! i)) rs of
         None \<Rightarrow> ?b ! i | Some x \<Rightarrow> assignElem unm x (?b ! i))"
    using Cons.hyps(1) [of ?op ?b] Cons.prems by (auto simp: r)
  have "collect unm ctxErr msgs (length (opResp op)) op b = Returns (None, b')"
    using b'(1) Cons.prems(1) k by (simp add: r wait_def)
  moreover have "b' ! i = (case find (\<lambda>x. mgID x = mgID (msgs ! i)) (opResp op) of
      None \<Rightarrow> b ! i | Some x \<Rightarrow> assignElem unm x (b ! i))" if i: "i < length msgs" for i
  proof (cases "i = k")
    case True
    then show ?thesis using b'(3) k' notin Cons.prems(4) by (simp add: r)
  next
    case False
    have "mgID r \<noteq> mgID (msgs ! i)"
      using False i k' Cons.prems(5) nth_eq_iff_index_eq [of "map mgID msgs" i k] by auto
    then show ?thesis using b'(3) i False by (simp add: r split: option.splits)
  qed
  ultimately show ?case using b'(2) by blast
qed

text \<open>
  A batch call assigns every response to the request it answers: when one response per request
  has come back, in any order, \<^verbatim>\<open>BatchCallContext\<close> returns without error, and element \<open>i\<close> holds the
  result or the error of the response with the identifier of request \<open>i\<close>.
\<close>

theorem BatchCall_assigns:
  assumes "distinct (map mgID msgs)" "length b = length msgs" "opErr op = None"
    and "mset (map mgID (opResp op)) = mset (map mgID msgs)"
  shows "\<exists>b'. collect unm ctxErr msgs (length b) op b = Returns (None, b') \<and> length b' = length b \<and>
     (\<forall>r \<in> set (opResp op). \<forall>i < length msgs.
        mgID r = mgID (msgs ! i) \<longrightarrow> b' ! i = assignElem unm r (b ! i))"
proof -
  have ids: "mgID ` set (opResp op) = mgID ` set msgs"
    using arg_cong [OF assms(4), of set_mset] by simp
  have len: "length (opResp op) = length b"
    using arg_cong [OF assms(4), of size] assms(2) by simp
  have d: "distinct (map mgID (opResp op))"
    using assms(1,4) by (metis mset_eq_imp_distinct_iff)
  obtain b' where b': "collect unm ctxErr msgs (length b) op b = Returns (None, b')" "length b' = length b"
      "\<forall>i < length msgs. b' ! i = (case find (\<lambda>x. mgID x = mgID (msgs ! i)) (opResp op) of
         None \<Rightarrow> b ! i | Some x \<Rightarrow> assignElem unm x (b ! i))"
    using collect_all [OF assms(3) _ d assms(2,1), of unm ctxErr] ids len by auto
  have "find (\<lambda>x. mgID x = mgID r) rs = Some r" if "r \<in> set rs" "distinct (map mgID rs)" for r rs
    using that by (induction rs) (auto simp: image_iff)
  note f = this [OF _ d]
  have "b' ! i = assignElem unm r (b ! i)"
    if "r \<in> set (opResp op)" "i < length msgs" "mgID r = mgID (msgs ! i)" for r i
  proof -
    have "find (\<lambda>x. mgID x = mgID (msgs ! i)) (opResp op) = Some r" using f [OF that(1)] that(3) by simp
    then show ?thesis using b'(3) that(2) by simp
  qed
  then show ?thesis using b'(1,2) by blast
qed

theorem BatchCall_assigns_witness:
  "\<exists>b'. collect (\<lambda>r. Inr (GVal r)) None [demoMessage ''1'' [], demoMessage ''2'' []] 2
        \<lparr>opIds = [''1'', ''2''], opErr = None, opSub = None,
         opResp = [demoMessage ''2'' ''7'', demoMessage ''1'' ''6''], opClosed = False\<rparr>
        [\<lparr>beMethod = ''a_b'', beArgs = [], beResult = None, beError = None\<rparr>,
         \<lparr>beMethod = ''a_c'', beArgs = [], beResult = None, beError = None\<rparr>] = Returns (None, b') \<and>
      beResult (b' ! 0) = Some (GVal ''6'') \<and> beResult (b' ! 1) = Some (GVal ''7'')"
proof -
  let ?msgs = "[demoMessage ''1'' [], demoMessage ''2'' []]"
  let ?b = "[\<lparr>beMethod = ''a_b'', beArgs = [], beResult = None, beError = None\<rparr>,
         \<lparr>beMethod = ''a_c'', beArgs = [], beResult = None, beError = None\<rparr>]"
  let ?op = "\<lparr>opIds = [''1'', ''2''], opErr = None, opSub = None,
         opResp = [demoMessage ''2'' ''7'', demoMessage ''1'' ''6''], opClosed = False\<rparr>"
  have d: "distinct (map mgID ?msgs)" "length ?b = length ?msgs" "opErr ?op = None"
      "mset (map mgID (opResp ?op)) = mset (map mgID ?msgs)"
    by (simp_all add: demoMessage_def)
  from BatchCall_assigns [OF d, of "\<lambda>r. Inr (GVal r)" None] show ?thesis
    by (auto simp: demoMessage_def zeroMessage_def assignElem_def evalResponse_def less_Suc_eq numeral_2_eq_2)
qed

section \<open>Buffering notifications\<close>

text \<open>
  The goroutine \<^verbatim>\<open>forward\<close> of a subscription: its buffer, the values its channel has received from
  it, and its result (the error and whether to unsubscribe at the server) once it returned. An
  event is the case that the select statement chose; sending is possible with a non-empty buffer
  only. The element type of the channel decodes a notification, \<open>unm\<close>.
\<close>

record forwarder =
  fwBuffer :: "govalue list"
  fwSent :: "govalue list"
  fwResult :: "(string option \<times> bool) option"

definition newForwarder :: forwarder where
  "newForwarder = \<lparr>fwBuffer = [], fwSent = [], fwResult = None\<rparr>"

datatype forward_event = FwQuit | FwIn raw | FwOut

fun forward :: "(raw \<Rightarrow> string + govalue) \<Rightarrow> forward_event \<Rightarrow> forwarder \<Rightarrow> forwarder option" where
  "forward unm ev f =
     (if fwResult f \<noteq> None then Some f
      else case ev of
        FwQuit \<Rightarrow> Some (f\<lparr>fwResult := Some (None, False)\<rparr>)
      | FwIn r \<Rightarrow>
          (case unm r of
             Inl err \<Rightarrow> Some (f\<lparr>fwResult := Some (Some err, True)\<rparr>)
           | Inr v \<Rightarrow>
               if length (fwBuffer f) = maxClientSubscriptionBuffer
               then Some (f\<lparr>fwResult := Some (Some ErrSubscriptionQueueOverflow, True)\<rparr>)
               else Some (f\<lparr>fwBuffer := fwBuffer f @ [v]\<rparr>))
      | FwOut \<Rightarrow>
          (case fwBuffer f of
             [] \<Rightarrow> Some f
           | v # vs \<Rightarrow> Some (f\<lparr>fwBuffer := vs, fwSent := fwSent f @ [v]\<rparr>)))"

declare forward.simps [simp del]

text \<open>
  What a subscriber is promised, as an abstract queue: the notifications accepted so far in the order
  of arrival, how many of them the channel has received, and whether the subscription is over.
\<close>

record queue_spec =
  qAccepted :: "govalue list"
  qTaken :: nat
  qOver :: bool

fun queueSpec :: "(raw \<Rightarrow> string + govalue) \<Rightarrow> forward_event \<Rightarrow> queue_spec \<Rightarrow> queue_spec" where
  "queueSpec unm FwQuit q = q\<lparr>qOver := True\<rparr>"
| "queueSpec unm (FwIn r) q =
     (if qOver q then q
      else if length (qAccepted q) - qTaken q = maxClientSubscriptionBuffer then q\<lparr>qOver := True\<rparr>
      else case unm r of Inl _ \<Rightarrow> q\<lparr>qOver := True\<rparr> | Inr v \<Rightarrow> q\<lparr>qAccepted := qAccepted q @ [v]\<rparr>)"
| "queueSpec unm FwOut q =
     (if qOver q then q else q\<lparr>qTaken := min (length (qAccepted q)) (Suc (qTaken q))\<rparr>)"

definition queueAbs :: "forwarder \<Rightarrow> queue_spec" where
  "queueAbs f = \<lparr>qAccepted = fwSent f @ fwBuffer f, qTaken = length (fwSent f), qOver = (fwResult f \<noteq> None)\<rparr>"

definition forwarder_inv :: "forwarder \<Rightarrow> bool" where
  "forwarder_inv f \<longleftrightarrow> length (fwBuffer f) \<le> maxClientSubscriptionBuffer"

lemma forward_sim:
  assumes "forwarder_inv f"
  shows "\<exists>f'. forward unm ev f = Some f' \<and> forwarder_inv f' \<and> queueAbs f' = queueSpec unm ev (queueAbs f)"
proof (cases "fwResult f")
  case (Some r)
  then show ?thesis using assms by (cases ev) (simp_all add: forward.simps queueAbs_def)
next
  case None
  show ?thesis
  proof (cases ev)
    case (FwIn r)
    then show ?thesis
      using None assms by (cases "unm r") (auto simp: forward.simps queueAbs_def forwarder_inv_def)
  next
    case FwOut
    then show ?thesis
      using None assms by (cases "fwBuffer f") (auto simp: forward.simps queueAbs_def forwarder_inv_def)
  qed (use None assms in \<open>auto simp: forward.simps queueAbs_def forwarder_inv_def\<close>)
qed

interpretation forward_queue: implements_machine forwarder_inv "forward unm" queueAbs "queueSpec unm" for unm
proof
  fix s s' :: forwarder and ev
  assume "forwarder_inv s"
  from forward_sim [OF this, of unm ev]
  show "\<exists>s'. forward unm ev s = Some s'"
    "forward unm ev s = Some s' \<Longrightarrow> forwarder_inv s'"
    "forward unm ev s = Some s' \<Longrightarrow> queueAbs s' = queueSpec unm ev (queueAbs s)"
    by auto
qed


end
