(* ===== verification/Net.thy ===== *)
theory Net
  imports Prelude
begin

text \<open>
  The functions of Go's standard library on addresses and media types that the transports of the RPC
  package call: \<^verbatim>\<open>net.SplitHostPort\<close>, \<^verbatim>\<open>net.ParseIP\<close> (as a test) and \<^verbatim>\<open>mime.ParseMediaType\<close>
  (the type, or \<^term>\<open>None\<close> for an error).
\<close>

section \<open>Hosts and ports\<close>

definition afterLast :: "char \<Rightarrow> string \<Rightarrow> string" where
  "afterLast c s = rev (takeWhile (\<lambda>x. x \<noteq> c) (rev s))"

definition beforeLast :: "char \<Rightarrow> string \<Rightarrow> string" where
  "beforeLast c s = rev (tl (dropWhile (\<lambda>x. x \<noteq> c) (rev s)))"

definition SplitHostPort :: "string \<Rightarrow> (string \<times> string) option" where
  "SplitHostPort s =
     (if CHR '':'' \<notin> set s then None
      else let port = afterLast (CHR '':'') s; pre = beforeLast (CHR '':'') s in
        if HasPrefix s ''['' then
          (if CHR '']'' \<notin> set s then None
           else let inner = takeWhile (\<lambda>x. x \<noteq> CHR '']'') (tl s);
                    after = tl (dropWhile (\<lambda>x. x \<noteq> CHR '']'') s) in
             if after \<noteq> CHR '':'' # port then None
             else if CHR ''['' \<in> set (tl s) \<or> CHR '']'' \<in> set after then None
             else Some (inner, port))
        else if CHR '':'' \<in> set pre then None
        else if CHR ''['' \<in> set s \<or> CHR '']'' \<in> set s then None
        else Some (pre, port))"

lemma afterLast_append: "c \<notin> set b \<Longrightarrow> afterLast c (a @ c # b) = b"
  by (simp add: afterLast_def takeWhile_append)

lemma beforeLast_append:
  assumes "c \<notin> set b"
  shows "beforeLast c (a @ c # b) = a"
proof -
  have "dropWhile (\<lambda>x. x \<noteq> c) (rev b) = []" using assms by auto
  then show ?thesis unfolding beforeLast_def by (simp add: dropWhile_append)
qed

lemma SplitHostPort_plain:
  assumes "CHR '':'' \<notin> set h" "CHR '':'' \<notin> set p" "CHR ''['' \<notin> set (h @ p)" "CHR '']'' \<notin> set (h @ p)"
  shows "SplitHostPort (h @ '':'' @ p) = Some (h, p)"
proof -
  have "\<not> HasPrefix (h @ '':'' @ p) ''[''" using assms(3) by (cases h) (auto simp: HasPrefix_def)
  then show ?thesis
    using assms afterLast_append [of "CHR '':''" p h] beforeLast_append [of "CHR '':''" p h]
    by (auto simp: SplitHostPort_def Let_def)
qed

section \<open>IP addresses\<close>

fun ipv4Fields :: "nat \<Rightarrow> string \<Rightarrow> bool" where
  "ipv4Fields 0 s = (s = [])"
| "ipv4Fields (Suc n) s =
     (let d = takeWhile is_digit s; r = dropWhile is_digit s in
      d \<noteq> [] \<and> (case parse_digits 10 0 d of None \<Rightarrow> False | Some v \<Rightarrow> v \<le> 255) \<and>
      (if n = 0 then r = []
       else case r of [] \<Rightarrow> False | c # r' \<Rightarrow> c = CHR ''.'' \<and> ipv4Fields n r'))"

definition isIPv4 :: "string \<Rightarrow> bool" where
  "isIPv4 s = ipv4Fields 4 s"

text \<open>
  The loop over the groups of an IPv6 address: \<open>i\<close> bytes are filled, \<open>ell\<close> tells whether the
  ellipsis was seen.
\<close>

definition isHexDigit :: "char \<Rightarrow> bool" where
  "isHexDigit c \<longleftrightarrow> digit_val c \<noteq> None"

function ipv6Loop :: "nat \<Rightarrow> bool \<Rightarrow> string \<Rightarrow> bool" where
  "ipv6Loop i ell s =
     (if 16 \<le> i then s = [] \<and> \<not> ell
      else
        let d = takeWhile isHexDigit s; r = dropWhile isHexDigit s in
        if d = [] \<or> (case parse_digits 16 0 d of None \<Rightarrow> True | Some v \<Rightarrow> 65535 < v) then False
        else
          (case r of
             [] \<Rightarrow> (if i + 2 < 16 then ell else \<not> ell)
           | c # r' \<Rightarrow>
               if c = CHR ''.'' then
                 (ell \<or> i = 12) \<and> i + 4 \<le> 16 \<and> isIPv4 s \<and> (if i + 4 < 16 then ell else \<not> ell)
               else if c \<noteq> CHR '':'' \<or> r' = [] then False
               else if hd r' = CHR '':'' then
                 (if ell then False else if tl r' = [] then i + 2 < 16 else ipv6Loop (i + 2) True (tl r'))
               else ipv6Loop (i + 2) ell r'))"
  by pat_completeness auto
termination
  by (relation "measure (\<lambda>(i, ell, s). 16 - i)") auto

declare ipv6Loop.simps [simp del]

definition isIPv6 :: "string \<Rightarrow> bool" where
  "isIPv6 s =
     (if HasPrefix s ''::'' then (drop 2 s = [] \<or> ipv6Loop 0 True (drop 2 s)) else ipv6Loop 0 False s)"

definition ParseIP :: "string \<Rightarrow> bool" where
  "ParseIP s =
     (case dropWhile (\<lambda>c. c \<noteq> CHR ''.'' \<and> c \<noteq> CHR '':'') s of
        [] \<Rightarrow> False
      | c # _ \<Rightarrow> if c = CHR ''.'' then isIPv4 s else isIPv6 s)"

section \<open>Media types\<close>

definition isTokenChar :: "char \<Rightarrow> bool" where
  "isTokenChar c \<longleftrightarrow>
     32 < (of_char c :: nat) \<and> (of_char c :: nat) < 127 \<and>
     c \<notin> set (''()<>@,;:/[]?='' @ [CHR 0x22, CHR 0x5C])"

text \<open>The rest of a quoted string after its opening quote, \<^term>\<open>None\<close> when it does not end.\<close>

fun skipQuoted :: "string \<Rightarrow> string option" where
  "skipQuoted [] = None"
| "skipQuoted [c] = (if c = CHR 0x22 then Some [] else None)"
| "skipQuoted (c # d # cs) =
     (if c = CHR 0x22 then Some (d # cs)
      else if c = CHR 0x5C then skipQuoted cs
      else if c = CHR 0x0D \<or> c = CHR 0x0A then None
      else skipQuoted (d # cs))"

definition skipSpace :: "string \<Rightarrow> string" where
  "skipSpace s = dropWhile is_space s"

text \<open>\<^verbatim>\<open>consumeMediaParam\<close>: the lower-cased name of the next parameter and what follows its value.\<close>

definition consumeMediaParam :: "string \<Rightarrow> (string \<times> string) option" where
  "consumeMediaParam v =
     (let rest = skipSpace v in
      if \<not> HasPrefix rest '';'' then None
      else
        let rest = skipSpace (tl rest); param = takeWhile isTokenChar rest;
            rest = skipSpace (dropWhile isTokenChar rest) in
        if param = [] \<or> \<not> HasPrefix rest ''='' then None
        else
          let rest = skipSpace (tl rest) in
          if HasPrefix rest [CHR 0x22] then map_option (Pair (ToLower param)) (skipQuoted (tl rest))
          else if takeWhile isTokenChar rest = [] then None
          else Some (ToLower param, dropWhile isTokenChar rest))"

fun mediaParams :: "nat \<Rightarrow> string list \<Rightarrow> string \<Rightarrow> bool" where
  "mediaParams 0 seen v = False"
| "mediaParams (Suc n) seen v =
     (let v' = skipSpace v in
      if v' = [] then True
      else case consumeMediaParam v' of
             None \<Rightarrow> TrimSpace v' = '';''
           | Some (k, rest) \<Rightarrow> k \<notin> set seen \<and> mediaParams n (k # seen) rest)"

definition validMediaBase :: "string \<Rightarrow> bool" where
  "validMediaBase s =
     (let a = takeWhile isTokenChar s; r = dropWhile isTokenChar s in
      a \<noteq> [] \<and> (r = [] \<or> HasPrefix r ''/'' \<and> tl r \<noteq> [] \<and> list_all isTokenChar (tl r)))"

definition ParseMediaType :: "string \<Rightarrow> string option" where
  "ParseMediaType v =
     (let base = takeWhile (\<lambda>c. c \<noteq> CHR '';'') v; mt = TrimSpace (ToLower base);
          rest = drop (length base) v in
      if validMediaBase mt \<and> mediaParams (Suc (length rest)) [] rest then Some mt else None)"

end
