(* ===== verification/Http.thy ===== *)
theory Http
  imports Net Serve ClientCall
begin

text \<open>
  The HTTP transport, \<^verbatim>\<open>src/rpc/http.go\<close>: the handlers of the server and the sending side of the
  client. The requests are served by the model of \<^verbatim>\<open>ServeSingleRequest\<close>; the network between
  client and server is an argument. Time-outs are numbers of nanoseconds. The values that
  \<^verbatim>\<open>ServeHTTP\<close> stores in the context are read by the services only; of them \<^verbatim>\<open>RemoteIp\<close> is modelled.
\<close>

definition contentType :: string where
  "contentType = ''application/json''"

definition maxRequestContentLength :: int where
  "maxRequestContentLength = 1024 * 1024"

record httpRequest =
  hqMethod :: string
  hqContentLength :: int
  hqRawQuery :: string
  hqContentType :: string
  hqHost :: string
  hqRemoteAddr :: string
  hqXRealIP :: string
  hqXForwardedFor :: string
  hqBody :: string

record httpResponse =
  hsCode :: int
  hsBody :: string

definition httpError :: "string \<Rightarrow> int \<Rightarrow> httpResponse" where
  "httpError msg code = \<lparr>hsCode = code, hsBody = msg @ [CHR 0x0A]\<rparr>"

section \<open>Server\<close>

definition validateRequest :: "httpRequest \<Rightarrow> (int \<times> string) option" where
  "validateRequest r =
     (if hqMethod r = ''PUT'' \<or> hqMethod r = ''DELETE'' then Some (405, ''method not allowed'')
      else if maxRequestContentLength < hqContentLength r then
        Some (413, ''content length too large ('' @ itoa_int (hqContentLength r) @ ''>'' @
          itoa_int maxRequestContentLength @ '')'')
      else if hqMethod r \<noteq> ''OPTIONS'' \<and> ParseMediaType (hqContentType r) \<noteq> Some contentType then
        Some (415, ''invalid content type, only '' @ contentType @ '' is supported'')
      else None)"

text \<open>
  \<^verbatim>\<open>Server.ServeHTTP\<close>. The body is cut at the limit; \<^term>\<open>None\<close> is a request that panics (which the
  server recovers from).
\<close>

definition ServeHTTP ::
  "jsonlib \<Rightarrow> 'w code \<Rightarrow> Server \<Rightarrow> bool \<Rightarrow> httpRequest \<Rightarrow> 'w \<Rightarrow> (httpResponse \<times> 'w) option" where
  "ServeHTTP lib call srv stillRunning r w =
     (if hqMethod r = ''GET'' \<and> hqContentLength r = 0 \<and> hqRawQuery r = '''' then
        Some (\<lparr>hsCode = 200, hsBody = ''''\<rparr>, w)
      else case validateRequest r of
        Some (code, err) \<Rightarrow> Some (httpError err code, w)
      | None \<Rightarrow>
          (let cn = \<lparr>cnNotifier = None, cnCodec = NewCodec (take (nat maxRequestContentLength) (hqBody r)),
                     cnWorld = w\<rparr> in
           case serveSingle lib call srv stillRunning cn of
             None \<Rightarrow> None
           | Some (_, cn') \<Rightarrow> Some (\<lparr>hsCode = 200, hsBody = cOut (cnCodec cn')\<rparr>, cnWorld cn')))"

definition RemoteIp :: "httpRequest \<Rightarrow> string" where
  "RemoteIp req =
     (let remoteAddr =
        (if hqXRealIP req \<noteq> '''' then hqXRealIP req
         else if hqXForwardedFor req \<noteq> '''' then hqXForwardedFor req
         else (case SplitHostPort (hqRemoteAddr req) of None \<Rightarrow> '''' | Some (h, _) \<Rightarrow> h))
      in if remoteAddr = ''::1'' then ''127.0.0.1'' else remoteAddr)"

definition newVHostHandler :: "string list \<Rightarrow> string list" where
  "newVHostHandler vhosts = map ToLower vhosts"

definition virtualHost :: "string list \<Rightarrow> httpRequest \<Rightarrow> bool" where
  "virtualHost vhosts r =
     (if hqHost r = '''' then True
      else let host = (case SplitHostPort (hqHost r) of None \<Rightarrow> hqHost r | Some (h, _) \<Rightarrow> h) in
           if ParseIP host then True
           else if ''*'' \<in> set vhosts then True
           else host \<in> set vhosts)"

definition virtualHostHandler ::
  "string list \<Rightarrow> (httpRequest \<Rightarrow> 'w \<Rightarrow> (httpResponse \<times> 'w) option) \<Rightarrow> httpRequest \<Rightarrow> 'w \<Rightarrow>
     (httpResponse \<times> 'w) option" where
  "virtualHostHandler vhosts next r w =
     (if virtualHost vhosts r then next r w else Some (httpError ''invalid host specified'' 403, w))"

record HTTPTimeouts =
  ReadTimeout :: int
  WriteTimeout :: int
  IdleTimeout :: int

definition second :: int where
  "second = 1000000000"

definition DefaultHTTPTimeouts :: HTTPTimeouts where
  "DefaultHTTPTimeouts = \<lparr>ReadTimeout = 30 * second, WriteTimeout = 30 * second, IdleTimeout = 120 * second\<rparr>"

definition sanitizeTimeouts :: "HTTPTimeouts \<Rightarrow> HTTPTimeouts" where
  "sanitizeTimeouts t =
     \<lparr>ReadTimeout = (if ReadTimeout t < second then ReadTimeout DefaultHTTPTimeouts else ReadTimeout t),
      WriteTimeout = (if WriteTimeout t < second then WriteTimeout DefaultHTTPTimeouts else WriteTimeout t),
      IdleTimeout = (if IdleTimeout t < second then IdleTimeout DefaultHTTPTimeouts else IdleTimeout t)\<rparr>"

text \<open>The server without CORS configuration: the host check around the RPC server.\<close>

definition NewHTTPServer ::
  "jsonlib \<Rightarrow> 'w code \<Rightarrow> Server \<Rightarrow> bool \<Rightarrow> string list \<Rightarrow> httpRequest \<Rightarrow> 'w \<Rightarrow> (httpResponse \<times> 'w) option" where
  "NewHTTPServer lib call srv stillRunning vhosts =
     virtualHostHandler (newVHostHandler vhosts) (ServeHTTP lib call srv stillRunning)"

section \<open>Client\<close>

text \<open>
  A round trip over the network: the error of \<^verbatim>\<open>http.Client.Do\<close>, or the status line and body of
  the response.
\<close>

record httpReply =
  hrCode :: int
  hrStatus :: string
  hrBody :: string

type_synonym network = "httpRequest \<Rightarrow> string + httpReply"

record httpConn =
  hcEndpoint :: string
  hcToken :: string
  hcProxy :: "string option"

text \<open>\<open>urlOk\<close> tells whether \<^verbatim>\<open>url.Parse\<close> accepts an address; \<^term>\<open>None\<close> is its error.\<close>

definition DialHTTPWithClient :: "(string \<Rightarrow> bool) \<Rightarrow> string \<Rightarrow> string option \<Rightarrow> string \<Rightarrow> httpConn option" where
  "DialHTTPWithClient urlOk endpoint proxy token =
     (if urlOk endpoint then Some \<lparr>hcEndpoint = endpoint, hcToken = token, hcProxy = proxy\<rparr> else None)"

definition DialHTTP :: "(string \<Rightarrow> bool) \<Rightarrow> string \<Rightarrow> string list \<Rightarrow> httpConn option" where
  "DialHTTP urlOk endpoint proxy =
     (if 1 < length proxy \<and> proxy ! 0 \<noteq> '''' \<and> proxy ! 1 \<noteq> '''' then
        (if urlOk (proxy ! 0) then DialHTTPWithClient urlOk endpoint (Some (proxy ! 0)) (proxy ! 1)
         else DialHTTPWithClient urlOk endpoint None '''')
      else DialHTTPWithClient urlOk endpoint None '''')"

definition postRequest :: "string \<Rightarrow> string \<Rightarrow> httpRequest" where
  "postRequest host body =
     \<lparr>hqMethod = ''POST'', hqContentLength = int (length body), hqRawQuery = '''',
      hqContentType = contentType, hqHost = host, hqRemoteAddr = '''', hqXRealIP = '''',
      hqXForwardedFor = '''', hqBody = body\<rparr>"

definition doRequest :: "network \<Rightarrow> string \<Rightarrow> string \<Rightarrow> string option \<times> string option" where
  "doRequest net host body =
     (case net (postRequest host body) of
        Inl e \<Rightarrow> (None, Some e)
      | Inr resp \<Rightarrow>
          if hrCode resp < 200 \<or> 300 \<le> hrCode resp then (Some (hrBody resp), Some (hrStatus resp))
          else (Some (hrBody resp), None))"

text \<open>\<^verbatim>\<open>Decode(&respmsg)\<close> into a struct: \<open>null\<close> leaves the zero message.\<close>

definition decodeResponse :: "jsonlib \<Rightarrow> string \<Rightarrow> string + jsonrpcMessage" where
  "decodeResponse lib body =
     (case decodeRaw lib body of
        Inl e \<Rightarrow> Inl e
      | Inr (v, _) \<Rightarrow>
          (case decodeMessagePtr v of
             None \<Rightarrow> Inl (unmarshalErr lib v)
           | Some None \<Rightarrow> Inr zeroMessage
           | Some (Some m) \<Rightarrow> Inr m))"

definition decodeResponses :: "jsonlib \<Rightarrow> string \<Rightarrow> string + jsonrpcMessage list" where
  "decodeResponses lib body =
     (case decodeRaw lib body of
        Inl e \<Rightarrow> Inl e
      | Inr (v, _) \<Rightarrow>
          if is_null v then Inr []
          else (case json_array v of
             None \<Rightarrow> Inl (unmarshalErr lib v)
           | Some vs \<Rightarrow>
               (case those (map decodeMessagePtr vs) of
                  None \<Rightarrow> Inl (unmarshalErr lib v)
                | Some ms \<Rightarrow> Inr (map (\<lambda>m. case m of None \<Rightarrow> zeroMessage | Some x \<Rightarrow> x) ms))))"

definition sendHTTP ::
  "jsonlib \<Rightarrow> network \<Rightarrow> string \<Rightarrow> requestOp \<Rightarrow> jsonrpcMessage \<Rightarrow> string option \<times> requestOp" where
  "sendHTTP lib net host op msg =
     (case doRequest net host (marshalRequest msg) of
        (Some body, Some err) \<Rightarrow> (Some (err @ '' '' @ body), op)
      | (None, Some err) \<Rightarrow> (Some err, op)
      | (body, None) \<Rightarrow>
          (case decodeResponse lib (the body) of
             Inl e \<Rightarrow> (Some e, op)
           | Inr respmsg \<Rightarrow> (None, op\<lparr>opResp := opResp op @ [respmsg]\<rparr>)))"

text \<open>
  Sending the responses of a batch blocks when there are more of them than the channel of the
  operation holds: nobody receives from it before the function returns.
\<close>

definition sendBatchHTTP ::
  "jsonlib \<Rightarrow> network \<Rightarrow> string \<Rightarrow> requestOp \<Rightarrow> jsonrpcMessage list \<Rightarrow> (string option \<times> requestOp) outcome" where
  "sendBatchHTTP lib net host op msgs =
     (case doRequest net host (marshalRequestBatch msgs) of
        (_, Some err) \<Rightarrow> Returns (Some err, op)
      | (body, None) \<Rightarrow>
          (case decodeResponses lib (the body) of
             Inl e \<Rightarrow> Returns (Some e, op)
           | Inr respmsgs \<Rightarrow>
               if length (opIds op) < length (opResp op) + length respmsgs then Blocks
               else Returns (None, op\<lparr>opResp := opResp op @ respmsgs\<rparr>)))"

definition newOp :: "raw list \<Rightarrow> requestOp" where
  "newOp ids = \<lparr>opIds = ids, opErr = None, opSub = None, opResp = [], opClosed = False\<rparr>"

text \<open>\<^verbatim>\<open>CallContext\<close> and \<^verbatim>\<open>BatchCallContext\<close> of a client whose connection is HTTP.\<close>

definition CallContext ::
  "jsonlib \<Rightarrow> network \<Rightarrow> string \<Rightarrow> (raw \<Rightarrow> string + govalue) \<Rightarrow> string option \<Rightarrow> 32 word \<Rightarrow> string \<Rightarrow>
     govalue list \<Rightarrow> (string + govalue) outcome \<times> 32 word" where
  "CallContext lib net host unm ctxErr idCounter method args =
     (case newMessage lib idCounter method args of
        (Inl e, c) \<Rightarrow> (Returns (Inl e), c)
      | (Inr msg, c) \<Rightarrow>
          (case sendHTTP lib net host (newOp [mgID msg]) msg of
             (Some err, _) \<Rightarrow> (Returns (Inl err), c)
           | (None, op) \<Rightarrow> (finishCall unm ctxErr op, c)))"

definition BatchCallContext ::
  "jsonlib \<Rightarrow> network \<Rightarrow> string \<Rightarrow> (raw \<Rightarrow> string + govalue) \<Rightarrow> string option \<Rightarrow> 32 word \<Rightarrow> BatchElem list \<Rightarrow>
     (string option \<times> BatchElem list) outcome \<times> 32 word" where
  "BatchCallContext lib net host unm ctxErr idCounter b =
     (case newMessages lib idCounter b of
        (Inl e, c) \<Rightarrow> (Returns (Some e, b), c)
      | (Inr msgs, c) \<Rightarrow>
          (case sendBatchHTTP lib net host (newOp (map mgID msgs)) msgs of
             Blocks \<Rightarrow> (Blocks, c)
           | Panics \<Rightarrow> (Panics, c)
           | Returns (Some err, _) \<Rightarrow> (Returns (Some err, b), c)
           | Returns (None, op) \<Rightarrow> (collect unm ctxErr msgs (length b) op b, c)))"

section \<open>A call over HTTP\<close>

text \<open>The network that leads to a server in the state \<open>w\<close>.\<close>

definition serverNet ::
  "jsonlib \<Rightarrow> 'w code \<Rightarrow> Server \<Rightarrow> string list \<Rightarrow> 'w \<Rightarrow> network" where
  "serverNet lib call srv vhosts w r =
     (case NewHTTPServer lib call srv True vhosts r w of
        None \<Rightarrow> Inl ''EOF''
      | Some (resp, _) \<Rightarrow> Inr \<lparr>hrCode = hsCode resp, hrStatus = itoa_int (hsCode resp), hrBody = hsBody resp\<rparr>)"

lemma validate_post:
  "int (length body) \<le> maxRequestContentLength \<Longrightarrow> validateRequest (postRequest host body) = None"
proof -
  have "ParseMediaType contentType = Some contentType" by code_simp
  then show "int (length body) \<le> maxRequestContentLength \<Longrightarrow> validateRequest (postRequest host body) = None"
    by (simp add: validateRequest_def postRequest_def)
qed

lemma ServeHTTP_post:
  assumes "int (length body) \<le> maxRequestContentLength"
    "serveSingle lib call srv True \<lparr>cnNotifier = None, cnCodec = NewCodec body, cnWorld = w\<rparr> = Some (e, cn)"
  shows "ServeHTTP lib call srv True (postRequest host body) w =
    Some (\<lparr>hsCode = 200, hsBody = cOut (cnCodec cn)\<rparr>, cnWorld cn)"
proof -
  have "take (nat maxRequestContentLength) body = body" using assms(1) by simp
  then show ?thesis
    using assms validate_post [OF assms(1), of host]
    by (simp add: ServeHTTP_def Let_def postRequest_def)
qed

text \<open>Without a notifier the code of a callback has no effect on the connection but on its world.\<close>

lemma runAct_http [simp]: "cnNotifier cn = None \<Longrightarrow> runAct lib a cn = cn"
  by (simp add: runAct_def)

lemma fold_runAct_http [simp]: "cnNotifier cn = None \<Longrightarrow> fold (runAct lib) acts cn = cn"
  by (induction acts) simp_all

lemma not_batch_object [simp]: "\<not> isBatch (render_object ms)"
  by (simp add: render_object_def)

lemma readRequest_newMessage:
  assumes "compactLib lib" "newMessage lib c (a @ ''_'' @ b) args = (Inr msg, c')"
    "CHR ''_'' \<notin> set a" "CHR ''_'' \<notin> set b" "b \<noteq> ''subscribe''" "b \<noteq> ''unsubscribe''"
  shows "readRequest lib svcs (NewCodec (marshalRequest msg)) =
    (([verifyRequest lib svcs \<lparr>rqService = a, rqMethod = b, rqId = Some (mgID msg), rqPubSub = False,
         rqParams = Some (mgParams msg), rqErr = None\<rparr>], False, None),
     (NewCodec (marshalRequest msg))\<lparr>cIn := []\<rparr>)"
proof -
  note f = newMessage_fields [OF assms(1,2)]
  have "compact (marshalRequest msg)" by (rule marshalRequest_object(2)) (use f in simp_all)
  then have d: "decodeRaw lib (marshalRequest msg) = Inr (marshalRequest msg, [])"
    using decodeRaw_compact [of "marshalRequest msg" "[]" lib] by (simp add: tail_ok_def)
  have "\<not> isBatch (marshalRequest msg)" by (simp add: marshalRequest_def)
  then show ?thesis
    using d parse_newMessage [OF assms]
    by (simp add: readRequest_def ReadRequestHeaders_def NewCodec_def)
qed

text \<open>The client reads back a response that the server wrote.\<close>

lemma decodeResponse_line:
  assumes "compact t" "decodeMessagePtr t = Some (Some m)"
  shows "decodeResponse lib (t @ [CHR 0x0A]) = Inr m"
proof -
  have "tail_ok [] [CHR 0x0A]" by (simp add: tail_ok_def num_char_def is_digit_def)
  then show ?thesis
    using decodeRaw_compact [OF assms(1), of "[CHR 0x0A]" lib] assms(2) by (simp add: decodeResponse_def)
qed

text \<open>What a client gets from a server that answers its request with one line.\<close>

lemma CallContext_line:
  assumes "newMessage lib c m args = (Inr msg, c')"
    and "net (postRequest host (marshalRequest msg)) = Inr \<lparr>hrCode = 200, hrStatus = s, hrBody = t @ [CHR 0x0A]\<rparr>"
    and "compact t" "decodeMessagePtr t = Some (Some resp)"
  shows "CallContext lib net host unm ctxErr c m args = (Returns (evalResponse unm resp), c')"
  using assms decodeResponse_line [OF assms(3,4), of lib]
  by (simp add: CallContext_def sendHTTP_def doRequest_def finishCall_def wait_def newOp_def)

lemma exec_call_http:
  assumes "srErr q = None" "\<not> srIsUnsubscribe q" "srCallb q = Some cb" "\<not> isSubscribe cb"
    "cnNotifier cn = None" "length (srArgs q) = length (argTypes cb)"
    "length (mIn (cmethod cb)) = 1 + (if hasCtx cb then 1 else 0) + length (argTypes cb)"
    "call cb (srArgs q) (cnWorld cn) = Some (w', acts, reply)" "reply \<noteq> []"
    "0 \<le> errPos cb \<Longrightarrow> nat (errPos cb) < length reply"
  shows "exec lib call q cn =
    (if 0 \<le> errPos cb \<and> reply ! nat (errPos cb) \<noteq> GNil then
       (case reply ! nat (errPos cb) of
          GError e \<Rightarrow> Some (writeMessage lib (Single (CreateErrorResponse (srId q) (callbackError e))) (cn\<lparr>cnWorld := w'\<rparr>))
        | _ \<Rightarrow> None)
     else Some (writeMessage lib (Single (CreateResponse (srId q) (reply ! 0))) (cn\<lparr>cnWorld := w'\<rparr>)))"
  using assms
  by (auto simp: exec_def handle_def handleCall_def reflectCall_def split: govalue.splits)

lemma writeMessage_fresh:
  assumes "marshalResponse lib r = Inr t" "cnCodec cn = (NewCodec i)\<lparr>cIn := j\<rparr>"
  shows "cOut (cnCodec (writeMessage lib (Single r) cn)) = t @ [CHR 0x0A]"
  using assms by (simp add: writeMessage_def Write_def NewCodec_def)

lemma verifyRequest_call:
  assumes "svcs a = Some svc" "svCallbacks svc b = Some cb"
  shows "verifyRequest lib svcs \<lparr>rqService = a, rqMethod = b, rqId = i, rqPubSub = False,
      rqParams = Some p, rqErr = None\<rparr> =
    withArgs (if argTypes cb = [] then Inr [] else parsePositionalArguments lib p (argTypes cb))
      ((newServerRequest i)\<lparr>srSvcname := svName svc, srCallb := Some cb\<rparr>)"
  using assms by (auto simp: verifyRequest_def ParseRequestArguments_def Let_def withArgs_def newServerRequest_def)

text \<open>
  C1. A call over HTTP returns what the method returned. Let a server have a callback \<open>cb\<close> for
  method \<open>b\<close> of service \<open>a\<close> that takes as many inputs as its type says. When the arguments
  of the client decode to the argument types of the callback, the callback returns \<open>reply\<close>
  without an error, and its first result is encoded as \<open>r\<close>, then the client's call of \<open>a_b\<close> over
  HTTP returns the decoding of \<open>r\<close>, for any identifier counter (which advances by one).
\<close>

theorem http_call_returns_result:
  assumes "compactLib lib" "running srv"
    and "services srv a = Some svc" "svCallbacks svc b = Some cb" "\<not> isSubscribe cb"
    and "CHR ''_'' \<notin> set a" "CHR ''_'' \<notin> set b" "b \<noteq> ''subscribe''" "b \<noteq> ''unsubscribe''"
    and "length (mIn (cmethod cb)) = 1 + (if hasCtx cb then 1 else 0) + length (argTypes cb)"
    and "newMessage lib c (a @ ''_'' @ b) args = (Inr msg, c')"
    and "int (length (marshalRequest msg)) \<le> maxRequestContentLength"
    and "virtualHost (newVHostHandler vhosts) (postRequest host (marshalRequest msg))"
    and "(if argTypes cb = [] then Inr [] else parsePositionalArguments lib (mgParams msg) (argTypes cb)) = Inr vals"
    and "length vals = length (argTypes cb)"
    and "call cb vals w = Some (w', acts, reply)" "reply \<noteq> []"
    and "0 \<le> errPos cb \<Longrightarrow> nat (errPos cb) < length reply \<and> reply ! nat (errPos cb) = GNil"
    and "marshalValue lib (reply ! 0) = Inr r"
  shows "CallContext lib (serverNet lib call srv vhosts w) host unm ctxErr c (a @ ''_'' @ b) args =
    (Returns (unm r), c + 1)"
proof -
  note f = newMessage_fields [OF assms(1,11)]
  let ?body = "marshalRequest msg"
  let ?q = "(newServerRequest (Some (mgID msg)))\<lparr>srSvcname := svName svc, srCallb := Some cb, srArgs := vals\<rparr>"
  let ?cn = "\<lparr>cnNotifier = None, cnCodec = (NewCodec ?body)\<lparr>cIn := []\<rparr>, cnWorld = w\<rparr>"
  have cr: "compact r" using compact_marshalValue [OF assms(1,19)] .
  have q: "verifyRequest lib (services srv) \<lparr>rqService = a, rqMethod = b, rqId = Some (mgID msg), rqPubSub = False,
         rqParams = Some (mgParams msg), rqErr = None\<rparr> = ?q"
    unfolding verifyRequest_call [of "services srv", OF assms(3,4)] assms(14) by (simp add: withArgs_def)
  have e: "exec lib call ?q ?cn =
      Some (writeMessage lib (Single (CreateResponse (Some (mgID msg)) (reply ! 0))) (?cn\<lparr>cnWorld := w'\<rparr>))"
    using exec_call_http [of ?q cb ?cn call w' acts reply lib] assms(5,10,15-18)
    by (auto simp: newServerRequest_def)
  have s: "serveSingle lib call srv True \<lparr>cnNotifier = None, cnCodec = NewCodec ?body, cnWorld = w\<rparr> =
      Some (None, writeMessage lib (Single (CreateResponse (Some (mgID msg)) (reply ! 0))) (?cn\<lparr>cnWorld := w'\<rparr>))"
    using readRequest_newMessage [OF assms(1,11,6-9), of "services srv"] assms(2) e
    by (simp add: serveSingle_def q)
  obtain t where t: "marshalResponse lib (CreateResponse (Some (mgID msg)) (reply ! 0)) = Inr t" "compact t"
      "decodeMessagePtr t = Some (Some (zeroMessage\<lparr>mgVersion := ''2.0'', mgID := mgID msg, mgResult := r\<rparr>))"
    using decode_success [OF cr assms(19), of "unat c'"] f(3) by auto
  have "serverNet lib call srv vhosts w (postRequest host ?body) =
      Inr \<lparr>hrCode = 200, hrStatus = itoa_int 200, hrBody = t @ [CHR 0x0A]\<rparr>"
    using ServeHTTP_post [OF assms(12) s, of host] assms(13)
      writeMessage_fresh [OF t(1), where cn = "?cn\<lparr>cnWorld := w'\<rparr>" and i = ?body and j = "[]"]
    by (simp add: serverNet_def NewHTTPServer_def virtualHostHandler_def)
  from CallContext_line [where net = "serverNet lib call srv vhosts w" and t = t, OF assms(11) this t(2,3), of unm ctxErr]
  show ?thesis
    using cr f(4) by (auto simp: evalResponse_def zeroMessage_def compact_def)
qed


text \<open>An instance: the method \<open>add\<close> of the example service returns its argument.\<close>

definition demoServer :: Server where
  "demoServer = NewServer\<lparr>services := demoServices\<rparr>"

lemma basicLib_compact: "compactLib (basicLib\<lparr>marshal := (\<lambda>_. Inr ''5'')\<rparr>)"
proof -
  have "compact ''5''" by code_simp
  then show ?thesis by (simp add: compactLib_def)
qed

definition demoAdd :: callback where
  "demoAdd = the (svCallbacks (the (demoServices ''eth'')) ''add'')"

theorem http_call_returns_result_witness:
  "CallContext (basicLib\<lparr>marshal := (\<lambda>_. Inr ''5'')\<rparr>)
      (serverNet (basicLib\<lparr>marshal := (\<lambda>_. Inr ''5'')\<rparr>) demoCall demoServer [] 0) ''''
      (\<lambda>r. Inr (GVal r)) None 7 (''eth'' @ ''_'' @ ''add'') [GVal ''5''] = (Returns (Inr (GVal ''5'')), 7 + 1)"
proof -
  let ?lib = "basicLib\<lparr>marshal := (\<lambda>_. Inr ''5'')\<rparr>"
  let ?msg = "zeroMessage\<lparr>mgVersion := ''2.0'', mgID := ''8'', mgMethod := ''eth_add'', mgParams := ''[5]''\<rparr>"
  have m: "newMessage ?lib 7 (''eth'' @ ''_'' @ ''add'') [GVal ''5''] = (Inr ?msg, 8)"
    by code_simp
  have "\<not> Option.is_none (demoServices ''eth'')" by code_simp
  then have "services demoServer ''eth'' = Some (the (demoServices ''eth''))"
    by (simp add: demoServer_def Option.is_none_def)
  moreover have "svCallbacks (the (demoServices ''eth'')) ''add'' = Some demoAdd" by code_simp
  ultimately have svc: "services demoServer ''eth'' = Some (the (demoServices ''eth''))"
    "svCallbacks (the (demoServices ''eth'')) ''add'' = Some demoAdd" by blast+
  have cb: "\<not> isSubscribe demoAdd" "length (mIn (cmethod demoAdd)) = 1 + (if hasCtx demoAdd then 1 else 0) + length (argTypes demoAdd)"
      "errPos demoAdd = 1" "length (argTypes demoAdd) = 1"
    by code_simp+
  have p: "(if argTypes demoAdd = [] then Inr [] else
        parsePositionalArguments ?lib (mgParams ?msg) (argTypes demoAdd)) = Inr [GVal ''5'']"
    by code_simp
  have len: "int (length (marshalRequest ?msg)) \<le> maxRequestContentLength" by code_simp
  have run: "running demoServer" by (simp add: demoServer_def NewServer_def)
  show ?thesis
    by (rule http_call_returns_result [where srv = demoServer and svc = "the (demoServices ''eth'')" and
          cb = demoAdd and msg = ?msg and c' = 8 and vals = "[GVal ''5'']" and w' = 1 and acts = "[]" and
          reply = "[GVal ''5'', GNil]"])
      (use basicLib_compact svc cb p m len run in \<open>simp_all add: demoCall_def virtualHost_def postRequest_def\<close>)
qed

section \<open>Errors and refusals\<close>

lemma serverNet_error_line:
  assumes "compactLib lib" "newMessage lib c (a @ ''_'' @ b) args = (Inr msg, c')"
    "CHR ''_'' \<notin> set a" "CHR ''_'' \<notin> set b" "b \<noteq> ''subscribe''" "b \<noteq> ''unsubscribe''" "running srv"
    "int (length (marshalRequest msg)) \<le> maxRequestContentLength"
    "virtualHost (newVHostHandler vhosts) (postRequest host (marshalRequest msg))"
    "verifyRequest lib (services srv) \<lparr>rqService = a, rqMethod = b, rqId = Some (mgID msg), rqPubSub = False,
         rqParams = Some (mgParams msg), rqErr = None\<rparr> = q" "srErr q = Some e" "srId q = Some (mgID msg)"
  shows "CallContext lib (serverNet lib call srv vhosts w) host unm ctxErr c (a @ ''_'' @ b) args =
    (Returns (Inl (jsonErrorText (ErrorCode e) (ErrorText e))), c + 1)"
proof -
  note f = newMessage_fields [OF assms(1,2)]
  let ?body = "marshalRequest msg"
  let ?cn = "\<lparr>cnNotifier = None, cnCodec = (NewCodec ?body)\<lparr>cIn := []\<rparr>, cnWorld = w\<rparr>"
  let ?cn' = "writeMessage lib (Single (CreateErrorResponse (Some (mgID msg)) e)) ?cn"
  have "exec lib call q ?cn = Some ?cn'" using assms(11,12) by (simp add: exec_def)
  then have s: "serveSingle lib call srv True \<lparr>cnNotifier = None, cnCodec = NewCodec ?body, cnWorld = w\<rparr> = Some (None, ?cn')"
    using readRequest_newMessage [OF assms(1-6), of "services srv"] assms(7,10) by (simp add: serveSingle_def)
  obtain t where t: "marshalResponse lib (CreateErrorResponse (Some (mgID msg)) e) = Inr t" "compact t"
      "decodeMessagePtr t = Some (Some (zeroMessage\<lparr>mgVersion := ''2.0'', mgID := mgID msg,
        mgError := Some \<lparr>jeCode = ErrorCode e, jeMessage = ErrorText e, jeData = None\<rparr>\<rparr>))"
    using decode_error [of lib "unat c'" e] f(3) by auto
  have "serverNet lib call srv vhosts w (postRequest host ?body) =
      Inr \<lparr>hrCode = 200, hrStatus = itoa_int 200, hrBody = t @ [CHR 0x0A]\<rparr>"
    using ServeHTTP_post [OF assms(8) s, of host] assms(9)
      writeMessage_fresh [OF t(1), where cn = ?cn and i = ?body and j = "[]"]
    by (simp add: serverNet_def NewHTTPServer_def virtualHostHandler_def)
  from CallContext_line [where net = "serverNet lib call srv vhosts w" and t = t, OF assms(2) this t(2,3), of unm ctxErr]
  show ?thesis using f(4) by (simp add: evalResponse_def zeroMessage_def)
qed

text \<open>
  A call of a method that is not registered fails with the documented text: whether the service
  or the method is missing, the client gets the text of the server's \<open>methodNotFoundError\<close> as its
  error, and no callback runs.
\<close>

theorem http_call_unknown_method:
  assumes "compactLib lib" "running srv"
    and "CHR ''_'' \<notin> set a" "CHR ''_'' \<notin> set b" "b \<noteq> ''subscribe''" "b \<noteq> ''unsubscribe''"
    and "\<forall>svc. services srv a = Some svc \<longrightarrow> svCallbacks svc b = None"
    and "newMessage lib c (a @ ''_'' @ b) args = (Inr msg, c')"
    and "int (length (marshalRequest msg)) \<le> maxRequestContentLength"
    and "virtualHost (newVHostHandler vhosts) (postRequest host (marshalRequest msg))"
  shows "CallContext lib (serverNet lib call srv vhosts w) host unm ctxErr c (a @ ''_'' @ b) args =
    (Returns (Inl (''The method '' @ a @ ''_'' @ b @ '' does not exist/is not available'')), c + 1)"
proof -
  let ?r = "\<lparr>rqService = a, rqMethod = b, rqId = Some (mgID msg), rqPubSub = False,
         rqParams = Some (mgParams msg), rqErr = None\<rparr>"
  have "srErr (verifyRequest lib (services srv) ?r) = Some (methodNotFoundError a b)"
      "srId (verifyRequest lib (services srv) ?r) = Some (mgID msg)"
    using assms(7) by (auto simp: verifyRequest_def Let_def newServerRequest_def split: option.splits)
  from serverNet_error_line [OF assms(1,8,3-6,2,9,10) refl this, of call w unm ctxErr] show ?thesis
    by (simp add: jsonErrorText_def serviceMethodSeparator_def)
qed

theorem http_call_unknown_method_witness:
  "CallContext (basicLib\<lparr>marshal := (\<lambda>_. Inr ''5'')\<rparr>)
      (serverNet (basicLib\<lparr>marshal := (\<lambda>_. Inr ''5'')\<rparr>) demoCall demoServer [] 0) ''''
      (\<lambda>r. Inr (GVal r)) None 7 (''eth'' @ ''_'' @ ''sub'') [GVal ''5''] =
   (Returns (Inl (''The method '' @ ''eth'' @ ''_'' @ ''sub'' @ '' does not exist/is not available'')), 7 + 1)"
proof -
  let ?lib = "basicLib\<lparr>marshal := (\<lambda>_. Inr ''5'')\<rparr>"
  let ?msg = "zeroMessage\<lparr>mgVersion := ''2.0'', mgID := ''8'', mgMethod := ''eth_sub'', mgParams := ''[5]''\<rparr>"
  have m: "newMessage ?lib 7 (''eth'' @ ''_'' @ ''sub'') [GVal ''5''] = (Inr ?msg, 8)" by code_simp
  have "Option.is_none (svCallbacks (the (demoServices ''eth'')) ''sub'')" by code_simp
  then have n: "\<forall>svc. services demoServer ''eth'' = Some svc \<longrightarrow> svCallbacks svc ''sub'' = None"
    by (auto simp: demoServer_def Option.is_none_def)
  have len: "int (length (marshalRequest ?msg)) \<le> maxRequestContentLength" by code_simp
  have run: "running demoServer" by (simp add: demoServer_def NewServer_def)
  show ?thesis
    by (rule http_call_unknown_method [where msg = ?msg and c' = 8])
      (use basicLib_compact n m len run in \<open>simp_all add: virtualHost_def postRequest_def\<close>)
qed

text \<open>
  The optional arguments of a method cannot all be left out by the client: with an empty argument
  list it sends \<open>null\<close> as parameters, which the server refuses as \<open>non-array args\<close> whenever the
  method has any argument, while the empty array is accepted when all arguments are optional.
\<close>

theorem optional_arguments_refused:
  assumes "newMessage lib c m [] = (Inr msg, c')" "types \<noteq> []" "list_all isPtr types"
  shows "ParseRequestArguments lib types (Some (mgParams msg)) = Inl (invalidParamsError ''non-array args'') \<and>
         ParseRequestArguments lib types (Some ''[]'') = Inr (map GZero types)"
proof -
  have p: "mgParams msg = ''null''"
    using assms(1) by (auto simp: newMessage_def marshalParams_def nextID_def Let_def)
  have "json_array ''null'' = None" "json_array ''[]'' = Some []" by code_simp+
  then show ?thesis
    using assms(3) by (simp add: ParseRequestArguments_def parsePositionalArguments_def fillArgs_eq p)
qed

theorem optional_arguments_refused_witness:
  "ParseRequestArguments basicLib [Ptr stringType] (Some ''null'') = Inl (invalidParamsError ''non-array args'')"
proof -
  let ?msg = "zeroMessage\<lparr>mgVersion := ''2.0'', mgID := ''1'', mgMethod := ''a_b'', mgParams := ''null''\<rparr>"
  have "newMessage basicLib 0 ''a_b'' [] = (Inr ?msg, 1)" by code_simp
  from optional_arguments_refused [OF this, of "[Ptr stringType]"] show ?thesis by simp
qed

text \<open>
  C39. Batches over HTTP trust the server: a response whose identifier is none of the batch makes
  \<^verbatim>\<open>BatchCallContext\<close> dereference a nil element (a panic), and more responses than
  requests block it for ever, whatever its context is.
\<close>

theorem BatchCall_http_unguarded:
  assumes "newMessages lib c b = (Inr msgs, c')" "length msgs = length b" "b \<noteq> []"
    and "doRequest net host (marshalRequestBatch msgs) = (Some body, None)"
    and "decodeResponses lib body = Inr (resp # resps)"
  shows "(length resps < length b \<and> mgID resp \<notin> mgID ` set msgs \<longrightarrow>
            BatchCallContext lib net host unm ctxErr c b = (Panics, c')) \<and>
         (length b \<le> length resps \<longrightarrow> BatchCallContext lib net host unm ctxErr c b = (Blocks, c'))"
proof -
  obtain n where "length b = Suc n" using assms(3) by (cases b) auto
  then show ?thesis
    using assms findElem_None [of msgs "mgID resp"]
    by (auto simp: BatchCallContext_def sendBatchHTTP_def newOp_def wait_def)
qed

theorem BatchCall_http_unguarded_witness:
  "let b = [\<lparr>beMethod = ''a_b'', beArgs = [], beResult = None, beError = None\<rparr>];
       net = (\<lambda>_. Inr \<lparr>hrCode = 200, hrStatus = ''200 OK'', hrBody = ''[{\"id\":9,\"result\":1}]''\<rparr>)
   in BatchCallContext basicLib net '''' (\<lambda>r. Inr (GVal r)) None 0 b = (Panics, 1)"
proof -
  let ?b = "[\<lparr>beMethod = ''a_b'', beArgs = [], beResult = None, beError = None\<rparr>]"
  let ?net = "\<lambda>_. Inr \<lparr>hrCode = 200, hrStatus = ''200 OK'', hrBody = ''[{\"id\":9,\"result\":1}]''\<rparr>"
  let ?msg = "zeroMessage\<lparr>mgVersion := ''2.0'', mgID := ''1'', mgMethod := ''a_b'', mgParams := ''null''\<rparr>"
  let ?resp = "zeroMessage\<lparr>mgID := ''9'', mgResult := ''1''\<rparr>"
  have m: "newMessages basicLib 0 ?b = (Inr [?msg], 1)" by code_simp
  have d: "decodeResponses basicLib ''[{\"id\":9,\"result\":1}]'' = Inr [?resp]" by code_simp
  have "doRequest ?net '''' (marshalRequestBatch [?msg]) = (Some ''[{\"id\":9,\"result\":1}]'', None)"
    by (simp add: doRequest_def)
  from BatchCall_http_unguarded [OF m _ _ this d, of "\<lambda>r. Inr (GVal r)" None] show ?thesis
    by (simp add: zeroMessage_def)
qed

text \<open>
  The host check of the HTTP server: a request for a host name (not an IP address) is served
  exactly when the white list contains a star or the name as it stands in lower case; a
  host name written with an upper-case letter is refused even when it is on the white list.
\<close>

theorem virtualHost_iff:
  assumes "hqHost r = h @ '':'' @ p" "CHR '':'' \<notin> set h" "CHR '':'' \<notin> set p"
    "CHR ''['' \<notin> set (h @ p)" "CHR '']'' \<notin> set (h @ p)" "\<not> ParseIP h"
  shows "(virtualHost (newVHostHandler vhosts) r \<longleftrightarrow> ''*'' \<in> set vhosts \<or> h \<in> ToLower ` set vhosts) \<and>
         (list_ex is_upper h \<and> ''*'' \<notin> set vhosts \<longrightarrow> \<not> virtualHost (newVHostHandler vhosts) r)"
proof -
  have s: "SplitHostPort (hqHost r) = Some (h, p)" using SplitHostPort_plain [OF assms(2-5)] assms(1) by simp
  have star: "''*'' \<in> ToLower ` set vhosts \<longleftrightarrow> ''*'' \<in> set vhosts"
  proof -
    have s: "\<not> is_lower (CHR ''*'')" "\<not> is_upper (CHR ''*'')" by (simp_all add: is_lower_def is_upper_def)
    have l: "lower_char c = CHR ''*'' \<longleftrightarrow> c = CHR ''*''" for c
    proof (cases "is_upper c")
      case True
      then show ?thesis using is_upper_lower [OF True] s by auto
    qed (simp add: lower_char_def)
    have "ToLower v = ''*'' \<longleftrightarrow> v = ''*''" for v
      unfolding ToLower_def by (cases v) (auto simp: l)
    then show ?thesis by (metis (no_types, lifting) imageE imageI)
  qed
  have up: "h \<notin> ToLower ` set vhosts" if "list_ex is_upper h"
    using that lower_char_not_upper by (auto simp: ToLower_def list_ex_iff)
  have "virtualHost (newVHostHandler vhosts) r \<longleftrightarrow> ''*'' \<in> set vhosts \<or> h \<in> ToLower ` set vhosts"
    using assms(1,6) s star by (simp add: virtualHost_def newVHostHandler_def)
  then show ?thesis using up by blast
qed

theorem virtualHost_iff_witness:
  "\<not> virtualHost (newVHostHandler [''Node.example'']) ((postRequest '''' '''')\<lparr>hqHost := ''Node.example'' @ '':'' @ ''80''\<rparr>)"
proof -
  let ?r = "(postRequest '''' '''')\<lparr>hqHost := ''Node.example'' @ '':'' @ ''80''\<rparr>"
  have ip: "\<not> ParseIP ''Node.example''" and up: "list_ex is_upper ''Node.example'' \<and> ''*'' \<notin> set [''Node.example'']"
    by code_simp+
  have "list_ex is_upper ''Node.example'' \<and> ''*'' \<notin> set [''Node.example''] \<longrightarrow>
      \<not> virtualHost (newVHostHandler [''Node.example'']) ?r"
    by (rule conjunct2 [OF virtualHost_iff [OF _ _ _ _ _ ip, of ?r "''80''"]]) simp_all
  with up show ?thesis by blast
qed

end
