(* ===== verification/Endpoints.thy ===== *)
theory Endpoints
  imports Http "HOL-Library.AList"
begin

text \<open>
  The endpoints that a node opens, \<^verbatim>\<open>src/rpc/endpoints.go\<close>: which of its APIs are registered with the
  server behind an HTTP, websocket or IPC listener. Opening the listener is the argument \<open>listen\<close>
  of the definitions (an error, or a handle); the goroutine that the code starts last is part of
  the result. The interface between the registration loops and \<^verbatim>\<open>RegisterName\<close> is the locale
  \<open>service_registry\<close>.
\<close>

section \<open>Starting an endpoint\<close>

record API =
  Namespace :: string
  Version :: string
  Service :: gobject
  Public :: bool

text \<open>The goroutine that serves the listener.\<close>

datatype serving =
    ServeHTTPServer "string list" "string list" HTTPTimeouts
  | ServeWSServer "string list"
  | ServeIPC

text \<open>\<^verbatim>\<open>map[string]bool\<close>, filled with the allowed modules.\<close>

fun makeWhitelist :: "string list \<Rightarrow> (string \<times> bool) list \<Rightarrow> (string \<times> bool) list" where
  "makeWhitelist [] w = w"
| "makeWhitelist (module # modules) w = makeWhitelist modules (AList.update module True w)"

definition listed :: "(string \<times> bool) list \<Rightarrow> string \<Rightarrow> bool" where
  "listed w n \<longleftrightarrow> map_of w n = Some True"

text \<open>The loop over the APIs: those that \<open>sel\<close> selects are registered, the first error ends it.\<close>

fun registerLoop ::
  "(string \<Rightarrow> gobject \<Rightarrow> 'r \<Rightarrow> string option \<times> 'r) \<Rightarrow> (API \<Rightarrow> bool) \<Rightarrow> API list \<Rightarrow> 'r \<Rightarrow>
     string option \<times> 'r" where
  "registerLoop reg sel [] r = (None, r)"
| "registerLoop reg sel (api # apis) r =
     (if sel api then
        (case reg (Namespace api) (Service api) r of
           (Some err, r') \<Rightarrow> (Some err, r')
         | (None, r') \<Rightarrow> registerLoop reg sel apis r')
      else registerLoop reg sel apis r)"

definition StartHTTPEndpoint ::
  "(string \<Rightarrow> string + nat) \<Rightarrow> string \<Rightarrow> API list \<Rightarrow> string list \<Rightarrow> string list \<Rightarrow> string list \<Rightarrow>
     HTTPTimeouts \<Rightarrow> string + nat \<times> Server \<times> serving" where
  "StartHTTPEndpoint listen endpoint apis modules cors vhosts timeouts =
     (let whitelist = makeWhitelist modules [] in
      case registerLoop RegisterName
             (\<lambda>api. listed whitelist (Namespace api) \<or> (length whitelist = 0 \<and> Public api))
             apis (services NewServer) of
        (Some err, _) \<Rightarrow> Inl err
      | (None, r) \<Rightarrow>
          (case listen endpoint of
             Inl err \<Rightarrow> Inl err
           | Inr l \<Rightarrow> Inr (l, NewServer\<lparr>services := r\<rparr>, ServeHTTPServer cors vhosts timeouts)))"

definition StartWSEndpoint ::
  "(string \<Rightarrow> string + nat) \<Rightarrow> string \<Rightarrow> API list \<Rightarrow> string list \<Rightarrow> string list \<Rightarrow> bool \<Rightarrow>
     string + nat \<times> Server \<times> serving" where
  "StartWSEndpoint listen endpoint apis modules wsOrigins exposeAll =
     (let whitelist = makeWhitelist modules [] in
      case registerLoop RegisterName
             (\<lambda>api. exposeAll \<or> listed whitelist (Namespace api) \<or> (length whitelist = 0 \<and> Public api))
             apis (services NewServer) of
        (Some err, _) \<Rightarrow> Inl err
      | (None, r) \<Rightarrow>
          (case listen endpoint of
             Inl err \<Rightarrow> Inl err
           | Inr l \<Rightarrow> Inr (l, NewServer\<lparr>services := r\<rparr>, ServeWSServer wsOrigins)))"

definition StartIPCEndpoint ::
  "(string \<Rightarrow> string + nat) \<Rightarrow> string \<Rightarrow> API list \<Rightarrow> string + nat \<times> Server \<times> serving" where
  "StartIPCEndpoint ipcListen ipcEndpoint apis =
     (case registerLoop RegisterName (\<lambda>_. True) apis (services NewServer) of
        (Some err, _) \<Rightarrow> Inl err
      | (None, r) \<Rightarrow>
          (case ipcListen ipcEndpoint of
             Inl err \<Rightarrow> Inl err
           | Inr l \<Rightarrow> Inr (l, NewServer\<lparr>services := r\<rparr>, ServeIPC)))"

section \<open>What a registry promises\<close>

text \<open>
  Whether an object is refused depends on the object and the name only; a refused registration
  changes nothing, a successful one adds the methods that the object offers under its name and
  changes no other name.
\<close>

locale service_registry =
  fixes reg :: "string \<Rightarrow> gobject \<Rightarrow> 'r \<Rightarrow> string option \<times> 'r"
    and resolve :: "'r \<Rightarrow> string \<Rightarrow> string \<Rightarrow> callback option"
    and refuses :: "string \<Rightarrow> gobject \<Rightarrow> string option"
    and offers :: "gobject \<Rightarrow> string \<Rightarrow> callback option"
  assumes reg_refuses: "fst (reg n x r) = refuses n x"
    and reg_unchanged: "refuses n x \<noteq> None \<Longrightarrow> snd (reg n x r) = r"
    and reg_other: "n' \<noteq> n \<Longrightarrow> resolve (snd (reg n x r)) n' m = resolve r n' m"
    and reg_offers: "refuses n x = None \<Longrightarrow>
          resolve (snd (reg n x r)) n m = (case offers x m of Some c \<Rightarrow> Some c | None \<Rightarrow> resolve r n m)"
begin

lemma reg_eq: "reg n x r = (refuses n x, snd (reg n x r))"
  using reg_refuses [of n x r] by (cases "reg n x r") auto

text \<open>The error of the loop is that of the first selected API that is refused.\<close>

lemma loop_error:
  "fst (registerLoop reg sel apis r) =
     (case filter (\<lambda>api. sel api \<and> refuses (Namespace api) (Service api) \<noteq> None) apis of
        [] \<Rightarrow> None
      | api # _ \<Rightarrow> refuses (Namespace api) (Service api))"
proof (induction apis arbitrary: r)
  case (Cons api apis)
  show ?case
    using Cons.IH reg_eq [of "Namespace api" "Service api" r]
    by (cases "refuses (Namespace api) (Service api)") (auto split: prod.splits)
qed simp

lemma loop_ok_iff:
  "fst (registerLoop reg sel apis r) = None \<longleftrightarrow>
     (\<forall>api \<in> set apis. sel api \<longrightarrow> refuses (Namespace api) (Service api) = None)"
proof (cases "filter (\<lambda>api. sel api \<and> refuses (Namespace api) (Service api) \<noteq> None) apis")
  case Nil
  then show ?thesis by (simp add: loop_error filter_empty_conv)
next
  case (Cons api l)
  then have "api \<in> set (filter (\<lambda>api. sel api \<and> refuses (Namespace api) (Service api) \<noteq> None) apis)"
    by simp
  then show ?thesis using Cons by (auto simp: loop_error)
qed

lemma loop_resolve:
  "fst (registerLoop reg sel apis r) = None \<Longrightarrow>
   resolve (snd (registerLoop reg sel apis r)) n m \<noteq> None \<longleftrightarrow>
     resolve r n m \<noteq> None \<or>
     (\<exists>api \<in> set apis. sel api \<and> Namespace api = n \<and> offers (Service api) m \<noteq> None)"
proof (induction apis arbitrary: r)
  case (Cons api apis)
  show ?case
  proof (cases "sel api")
    case False
    then show ?thesis using Cons by simp
  next
    case True
    let ?r = "snd (reg (Namespace api) (Service api) r)"
    have ok: "refuses (Namespace api) (Service api) = None"
      using Cons.prems True loop_ok_iff [of sel "api # apis" r] by simp
    then have eq: "registerLoop reg sel (api # apis) r = registerLoop reg sel apis ?r"
      using True reg_eq [of "Namespace api" "Service api" r] by (auto split: prod.splits)
    have "resolve ?r n m \<noteq> None \<longleftrightarrow>
        resolve r n m \<noteq> None \<or> (Namespace api = n \<and> offers (Service api) m \<noteq> None)"
      using ok reg_offers [of "Namespace api" "Service api" r m]
        reg_other [of n "Namespace api" "Service api" r m]
      by (cases "Namespace api = n") (auto split: option.splits)
    then show ?thesis using Cons True eq by auto
  qed
qed simp

end

section \<open>The registry of the server\<close>

definition resolveCallback :: "serviceRegistry \<Rightarrow> string \<Rightarrow> string \<Rightarrow> callback option" where
  "resolveCallback r n m = (case r n of None \<Rightarrow> None | Some svc \<Rightarrow> svCallbacks svc m)"

definition offeredCallback :: "gobject \<Rightarrow> string \<Rightarrow> callback option" where
  "offeredCallback x m = fst (suitableCallbacks (oRcvr x) (oMethods x)) m"

definition refusal :: "string \<Rightarrow> gobject \<Rightarrow> string option" where
  "refusal n x = fst (RegisterName n x Map.empty)"

interpretation registry: service_registry RegisterName resolveCallback refusal offeredCallback
proof
  fix n n' m :: string and x :: gobject and r :: serviceRegistry
  show "fst (RegisterName n x r) = refusal n x"
    by (auto simp: refusal_def RegisterName_def Let_def split: option.splits)
  show "refusal n x \<noteq> None \<Longrightarrow> snd (RegisterName n x r) = r"
    by (auto simp: refusal_def RegisterName_def Let_def split: option.splits if_splits)
  show "n' \<noteq> n \<Longrightarrow> resolveCallback (snd (RegisterName n x r)) n' m = resolveCallback r n' m"
    by (auto simp: resolveCallback_def RegisterName_def Let_def split: option.splits)
  show "refusal n x = None \<Longrightarrow> resolveCallback (snd (RegisterName n x r)) n m =
      (case offeredCallback x m of Some c \<Rightarrow> Some c | None \<Rightarrow> resolveCallback r n m)"
    by (auto simp: refusal_def resolveCallback_def offeredCallback_def RegisterName_def Let_def map_add_def
        split: option.splits if_splits)
qed

lemma set_makeWhitelist: "map_of (makeWhitelist ms w) n = (if n \<in> set ms then Some True else map_of w n)"
  by (induction ms arbitrary: w) (auto simp: update_conv')

lemma makeWhitelist_empty: "makeWhitelist ms w = [] \<longleftrightarrow> ms = [] \<and> w = []"
proof (induction ms arbitrary: w)
  case (Cons m ms)
  have "AList.update m True w \<noteq> []" by (cases w) auto
  then show ?case using Cons by simp
qed simp

lemma listed_iff [simp]: "listed (makeWhitelist ms []) n \<longleftrightarrow> n \<in> set ms"
  by (simp add: listed_def set_makeWhitelist)

lemma NewServer_resolve:
  "resolveCallback (services NewServer) n m \<noteq> None \<longleftrightarrow> n = MetadataApi \<and> m = ''modules''"
proof -
  have ok: "refusal MetadataApi rpcService = None"
    unfolding Option.is_none_def [symmetric] by code_simp
  obtain h where h: "suitableMethod 0 (hd (oMethods rpcService)) = Some (False, h)"
  proof -
    have "map_option fst (suitableMethod 0 (hd (oMethods rpcService))) = Some False" by code_simp
    then show ?thesis using that by auto
  qed
  have "formatName ''Modules'' = ''modules''" by code_simp
  then have "offeredCallback rpcService m \<noteq> None \<longleftrightarrow> m = ''modules''"
    using h by (simp add: offeredCallback_def suitableCallbacks_def rpcService_def storeMethod_def)
  then show ?thesis
    using ok registry.reg_offers [of MetadataApi rpcService Map.empty m]
      registry.reg_other [of n MetadataApi rpcService Map.empty m]
    by (cases "n = MetadataApi")
       (auto simp: NewServer_def resolveCallback_def [of Map.empty] split: option.splits)
qed

section \<open>Exposure\<close>

lemma registered_exposes:
  assumes "registerLoop RegisterName sel apis (services NewServer) = (None, r)"
  shows "resolveCallback r n m \<noteq> None \<longleftrightarrow>
     n = MetadataApi \<and> m = ''modules'' \<or>
     (\<exists>api \<in> set apis. sel api \<and> Namespace api = n \<and> offeredCallback (Service api) m \<noteq> None)"
  using registry.loop_resolve [of sel apis "services NewServer" n m] assms NewServer_resolve [of n m]
  by simp

text \<open>The APIs that an endpoint is meant to offer when the allowed modules are \<open>modules\<close>.\<close>

definition selectedAPI :: "string list \<Rightarrow> API \<Rightarrow> bool" where
  "selectedAPI modules api \<longleftrightarrow>
     (if modules = [] then Public api else Namespace api \<in> set modules)"

lemma whitelist_selects:
  "listed (makeWhitelist modules []) (Namespace api) \<or> (length (makeWhitelist modules []) = 0 \<and> Public api)
     \<longleftrightarrow> selectedAPI modules api"
  by (auto simp: selectedAPI_def makeWhitelist_empty)

lemma StartHTTPEndpoint_eq:
  assumes "registerLoop RegisterName (selectedAPI modules) apis (services NewServer) = (e, r)"
  shows "StartHTTPEndpoint listen endpoint apis modules cors vhosts timeouts =
      (case e of Some err \<Rightarrow> Inl err
       | None \<Rightarrow> map_sum id (\<lambda>l. (l, NewServer\<lparr>services := r\<rparr>, ServeHTTPServer cors vhosts timeouts))
          (listen endpoint))"
  unfolding StartHTTPEndpoint_def Let_def whitelist_selects assms
  by (auto split: option.splits sum.splits)

lemma StartWSEndpoint_eq:
  assumes "registerLoop RegisterName (\<lambda>api. exposeAll \<or> selectedAPI modules api) apis
             (services NewServer) = (e, r)"
  shows "StartWSEndpoint listen endpoint apis modules origins exposeAll =
      (case e of Some err \<Rightarrow> Inl err
       | None \<Rightarrow> map_sum id (\<lambda>l. (l, NewServer\<lparr>services := r\<rparr>, ServeWSServer origins)) (listen endpoint))"
  unfolding StartWSEndpoint_def Let_def whitelist_selects assms
  by (auto split: option.splits sum.splits)

lemma map_sum_id_Inr [simp]: "map_sum id f s = Inr y \<longleftrightarrow> (\<exists>x. s = Inr x \<and> y = f x)"
  by (cases s) auto

text \<open>
  C37. The HTTP endpoint starts iff every selected API can be registered and the listener opens,
  where an API is selected if its namespace is among the modules, or if it is public and no modules
  are given. The server behind a started endpoint then resolves the method \<open>n_m\<close> iff it is
  \<^verbatim>\<open>rpc_modules\<close> or a suitable method \<open>m\<close> of a selected API with the namespace \<open>n\<close>: nothing of any
  other API can be called.
\<close>

theorem StartHTTPEndpoint_exposes:
  "((\<exists>x. StartHTTPEndpoint listen endpoint apis modules cors vhosts timeouts = Inr x) \<longleftrightarrow>
      (\<forall>api \<in> set apis. selectedAPI modules api \<longrightarrow> refusal (Namespace api) (Service api) = None) \<and>
      (\<exists>l. listen endpoint = Inr l)) \<and>
   (\<forall>l srv g. StartHTTPEndpoint listen endpoint apis modules cors vhosts timeouts = Inr (l, srv, g) \<longrightarrow>
      resolveCallback (services srv) n m \<noteq> None \<longleftrightarrow>
        n = MetadataApi \<and> m = ''modules'' \<or>
        (\<exists>api \<in> set apis. selectedAPI modules api \<and> Namespace api = n \<and>
           offeredCallback (Service api) m \<noteq> None))"
proof -
  obtain e r where l: "registerLoop RegisterName (selectedAPI modules) apis (services NewServer) = (e, r)"
    by (cases "registerLoop RegisterName (selectedAPI modules) apis (services NewServer)")
  have e: "e = None \<longleftrightarrow>
      (\<forall>api \<in> set apis. selectedAPI modules api \<longrightarrow> refusal (Namespace api) (Service api) = None)"
    using registry.loop_ok_iff [of "selectedAPI modules" apis "services NewServer"] l by simp
  show ?thesis
    using registered_exposes [of "selectedAPI modules" apis r n m] l
    unfolding StartHTTPEndpoint_eq [OF l] e [symmetric] by (cases e) auto
qed

definition demoAPIs :: "API list" where
  "demoAPIs =
     [\<lparr>Namespace = ''eth'', Version = ''1.0'', Service = demoObject, Public = True\<rparr>,
      \<lparr>Namespace = ''admin'', Version = ''1.0'', Service = demoObject, Public = False\<rparr>]"

lemma demoObject_offers: "offeredCallback demoObject ''add'' \<noteq> None"
proof -
  have "\<not> Option.is_none (offeredCallback demoObject ''add'')" by code_simp
  then show ?thesis by (simp add: Option.is_none_def)
qed

lemma demoObject_accepted: "refusal ''eth'' demoObject = None" "refusal ''admin'' demoObject = None"
  unfolding Option.is_none_def [symmetric] by code_simp+

theorem StartHTTPEndpoint_exposes_witness:
  "\<exists>l srv g. StartHTTPEndpoint (\<lambda>_. Inr 7) '':8545'' demoAPIs [] [] [] DefaultHTTPTimeouts = Inr (l, srv, g) \<and>
     resolveCallback (services srv) ''eth'' ''add'' \<noteq> None \<and>
     resolveCallback (services srv) ''admin'' ''add'' = None"
proof -
  let ?s = "StartHTTPEndpoint (\<lambda>_. Inr 7) '':8545'' demoAPIs [] [] [] DefaultHTTPTimeouts"
  note exposes = StartHTTPEndpoint_exposes [of "\<lambda>_. Inr 7" "'':8545''" demoAPIs "[]" "[]" "[]" DefaultHTTPTimeouts]
  have "\<exists>x. ?s = Inr x"
    using exposes by (simp add: demoAPIs_def selectedAPI_def demoObject_accepted)
  then obtain l srv g where s: "?s = Inr (l, srv, g)" by auto
  have "resolveCallback (services srv) ''eth'' ''add'' \<noteq> None"
    using exposes [of "''eth''" "''add''"] s demoObject_offers
    by (simp add: demoAPIs_def selectedAPI_def)
  moreover have "resolveCallback (services srv) ''admin'' ''add'' = None"
    using exposes [of "''admin''" "''add''"] s
    by (simp add: demoAPIs_def selectedAPI_def MetadataApi_def)
  ultimately show ?thesis using s by blast
qed

text \<open>
  The same for the websocket endpoint, where the flag \<open>exposeAll\<close> selects every API; with the
  flag the endpoint offers what the IPC endpoint offers.
\<close>

lemma StartWSEndpoint_exposes:
  "(\<forall>l srv g. StartWSEndpoint listen endpoint apis modules origins exposeAll = Inr (l, srv, g) \<longrightarrow>
      resolveCallback (services srv) n m \<noteq> None \<longleftrightarrow>
        n = MetadataApi \<and> m = ''modules'' \<or>
        (\<exists>api \<in> set apis. (exposeAll \<or> selectedAPI modules api) \<and> Namespace api = n \<and>
           offeredCallback (Service api) m \<noteq> None)) \<and>
   map_sum id (\<lambda>(l, srv, g). (l, srv)) (StartWSEndpoint listen endpoint apis modules origins True) =
     map_sum id (\<lambda>(l, srv, g). (l, srv)) (StartIPCEndpoint listen endpoint apis)"
proof -
  let ?sel = "\<lambda>b api. b \<or> selectedAPI modules api"
  obtain e r where l: "registerLoop RegisterName (?sel exposeAll) apis (services NewServer) = (e, r)"
    by (cases "registerLoop RegisterName (?sel exposeAll) apis (services NewServer)")
  obtain e' r' where l': "registerLoop RegisterName (?sel True) apis (services NewServer) = (e', r')"
    by (cases "registerLoop RegisterName (?sel True) apis (services NewServer)")
  have "map_sum id (\<lambda>(l, srv, g). (l, srv)) (StartWSEndpoint listen endpoint apis modules origins True) =
     map_sum id (\<lambda>(l, srv, g). (l, srv)) (StartIPCEndpoint listen endpoint apis)"
    using l' unfolding StartWSEndpoint_eq [OF l'] StartIPCEndpoint_def
    by (auto split: option.splits sum.splits)
  then show ?thesis
    using registered_exposes [of "?sel exposeAll" apis r n m] l
    unfolding StartWSEndpoint_eq [OF l] by (cases e) auto
qed

lemma StartWSEndpoint_exposes_example:
  "\<exists>l srv g. StartWSEndpoint (\<lambda>_. Inr 7) '':8546'' demoAPIs [] [] True = Inr (l, srv, g) \<and>
     resolveCallback (services srv) ''admin'' ''add'' \<noteq> None"
proof -
  let ?s = "StartWSEndpoint (\<lambda>_. Inr 7) '':8546'' demoAPIs [] [] True"
  obtain e r where l: "registerLoop RegisterName (\<lambda>api. True \<or> selectedAPI [] api) demoAPIs
      (services NewServer) = (e, r)"
    by (cases "registerLoop RegisterName (\<lambda>api. True \<or> selectedAPI [] api) demoAPIs (services NewServer)")
  then have "e = None"
    using registry.loop_ok_iff [of "\<lambda>api. True \<or> selectedAPI [] api" demoAPIs "services NewServer"]
    by (simp add: demoAPIs_def demoObject_accepted)
  then obtain l srv g where s: "?s = Inr (l, srv, g)" using StartWSEndpoint_eq [OF l] by auto
  then show ?thesis
    using StartWSEndpoint_exposes [of "\<lambda>_. Inr 7" "'':8546''" demoAPIs "[]" "[]" True "''admin''" "''add''"]
      demoObject_offers
    by (simp add: demoAPIs_def)
qed

end
