(* ===== verification/Transport.thy ===== *)
theory Transport
  imports Http
begin

text \<open>
  How connections come about: the websocket handshake and addresses of \<^verbatim>\<open>src/rpc/websocket.go\<close>, the
  choice of a transport by \<^verbatim>\<open>Dial\<close> and \<^verbatim>\<open>newClient\<close> of \<^verbatim>\<open>src/rpc/client.go\<close>, the accept loop of
  \<^verbatim>\<open>src/rpc/ipc.go\<close> and the dial timeouts of \<^verbatim>\<open>src/rpc/ipc_windows.go\<close>. The host name of the machine
  (\<^verbatim>\<open>os.Hostname\<close>), what \<^verbatim>\<open>url.Parse\<close> accepts after the scheme, and the success of a network dial are
  arguments. Times are nanoseconds.
\<close>

section \<open>Handshake\<close>

text \<open>
  The set of origins and the flag for any origin, from the loop over the allowed origins; the
  set is the list of its elements.
\<close>

fun collectOrigins :: "string list \<Rightarrow> bool \<times> string list \<Rightarrow> bool \<times> string list" where
  "collectOrigins [] st = st"
| "collectOrigins (origin # os) (allowAll, origins) =
     collectOrigins os
       (allowAll \<or> origin = ''*'',
        if origin \<noteq> '''' then List.insert (ToLower origin) origins else origins)"

definition addLocalhost :: "string + string \<Rightarrow> string list \<Rightarrow> string list" where
  "addLocalhost hostname origins =
     (if length origins = 0 then
        (case hostname of
           Inl _ \<Rightarrow> [''http://localhost'']
         | Inr h \<Rightarrow> List.insert (''http://'' @ ToLower h) [''http://localhost''])
      else origins)"

text \<open>The handler gets the value of the header \<^verbatim>\<open>Origin\<close> and returns an error or \<^term>\<open>None\<close>.\<close>

definition wsHandshakeValidator :: "string + string \<Rightarrow> string list \<Rightarrow> string \<Rightarrow> string option" where
  "wsHandshakeValidator hostname allowedOrigins header =
     (let (allowAllOrigins, os) = collectOrigins allowedOrigins (False, []);
          origins = addLocalhost hostname os;
          origin = ToLower header in
      if allowAllOrigins \<or> origin \<in> set origins then None
      else Some (''origin '' @ origin @ '' not allowed''))"

section \<open>Addresses\<close>

definition JoinHostPort :: "string \<Rightarrow> string \<Rightarrow> string" where
  "JoinHostPort host port =
     (if CHR '':'' \<in> set host then ''['' @ host @ '']:'' @ port else host @ '':'' @ port)"

record URL =
  uScheme :: string
  uHost :: string

definition wsPortMap :: "string \<rightharpoonup> string" where
  "wsPortMap = [''ws'' \<mapsto> ''80'', ''wss'' \<mapsto> ''443'']"

definition wsDialAddress :: "URL \<Rightarrow> string" where
  "wsDialAddress location =
     (case wsPortMap (uScheme location) of
        Some port \<Rightarrow>
          (if SplitHostPort (uHost location) = None then JoinHostPort (uHost location) port
           else uHost location)
      | None \<Rightarrow> uHost location)"

section \<open>Timeouts\<close>

definition tcpKeepAliveInterval :: int where
  "tcpKeepAliveInterval = 30 * second"

definition defaultDialTimeout :: int where
  "defaultDialTimeout = 10 * second"

definition defaultPipeDialTimeout :: int where
  "defaultPipeDialTimeout = 2 * second"

record dialer =
  dKeepAlive :: int
  dDeadline :: int

definition contextDialer :: "int \<Rightarrow> int option \<Rightarrow> dialer" where
  "contextDialer now ctxDeadline =
     \<lparr>dKeepAlive = tcpKeepAliveInterval,
      dDeadline = (case ctxDeadline of Some deadline \<Rightarrow> deadline | None \<Rightarrow> now + defaultDialTimeout)\<rparr>"

text \<open>The timeout for connecting to a named pipe.\<close>

definition pipeTimeout :: "int \<Rightarrow> int option \<Rightarrow> int" where
  "pipeTimeout now ctxDeadline =
     (case ctxDeadline of
        None \<Rightarrow> defaultPipeDialTimeout
      | Some deadline \<Rightarrow> if deadline - now < 0 then 0 else deadline - now)"

section \<open>Dialing\<close>

datatype dial_error =
    ParseError string
  | HostnameError string
  | UnknownTransport string
  | ErrBadScheme
  | DialError string

fun dialErrorText :: "dial_error \<Rightarrow> string" where
  "dialErrorText (ParseError u) = ''parse '' @ u"
| "dialErrorText (HostnameError e) = e"
| "dialErrorText (UnknownTransport s) = ''no known transport for URL scheme '' @ [CHR 0x22] @ s @ [CHR 0x22]"
| "dialErrorText ErrBadScheme = ''bad scheme''"
| "dialErrorText (DialError e) = e"

text \<open>The connections that the transports establish; a websocket has an address and an origin.\<close>

datatype netconn =
    HTTPConn httpConn
  | WSConn bool string string
  | UnixConn string
  | StdIOConn
  | PipeConn

text \<open>
  A new client: a connection that is not HTTP gets a dispatch loop. The dial of a connection that
  the network can refuse is the argument \<open>net\<close> of its caller.
\<close>

record client_conn =
  ccConn :: netconn
  ccIsHTTP :: bool
  ccDispatching :: bool

definition newClientConn :: "dial_error + netconn \<Rightarrow> dial_error + client_conn" where
  "newClientConn connectFunc =
     (case connectFunc of
        Inl err \<Rightarrow> Inl err
      | Inr conn \<Rightarrow>
          (let isHTTP = (case conn of HTTPConn _ \<Rightarrow> True | _ \<Rightarrow> False) in
           Inr \<lparr>ccConn = conn, ccIsHTTP = isHTTP, ccDispatching = (\<not> isHTTP)\<rparr>))"

text \<open>The scheme of a URL, \<^term>\<open>None\<close> when the protocol scheme is missing.\<close>

fun schemeLoop :: "nat \<Rightarrow> string \<Rightarrow> string \<Rightarrow> string option" where
  "schemeLoop i scheme [] = Some ''''"
| "schemeLoop i scheme (c # cs) =
     (if is_lower c \<or> is_upper c then schemeLoop (Suc i) (scheme @ [c]) cs
      else if is_digit c \<or> c \<in> set ''+-.'' then
        (if i = 0 then Some '''' else schemeLoop (Suc i) (scheme @ [c]) cs)
      else if c = CHR '':'' then (if i = 0 then None else Some scheme)
      else Some '''')"

definition urlScheme :: "(string \<Rightarrow> bool) \<Rightarrow> string \<Rightarrow> dial_error + string" where
  "urlScheme urlOk rawurl =
     (case schemeLoop 0 '''' (takeWhile (\<lambda>c. c \<noteq> CHR 0x23) rawurl) of
        None \<Rightarrow> Inl (ParseError rawurl)
      | Some scheme \<Rightarrow> if urlOk rawurl then Inr (ToLower scheme) else Inl (ParseError rawurl))"

text \<open>
  The origin of a websocket client. \<open>loc\<close> is the location that \<^verbatim>\<open>websocket.NewConfig\<close> gets from the
  endpoint (\<^term>\<open>None\<close> when it refuses it); \<open>net tls address\<close> is the outcome of connecting and of the
  client handshake.
\<close>

definition wsOrigin :: "string + string \<Rightarrow> string \<Rightarrow> string \<Rightarrow> dial_error + string" where
  "wsOrigin hostname endpoint origin =
     (if origin \<noteq> '''' then Inr origin
      else case hostname of
             Inl e \<Rightarrow> Inl (HostnameError e)
           | Inr h \<Rightarrow>
               if HasPrefix endpoint ''wss'' then Inr (''https://'' @ ToLower h)
               else Inr (''http://'' @ ToLower h))"

definition wsDialContext ::
  "(bool \<Rightarrow> string \<Rightarrow> string option) \<Rightarrow> URL \<Rightarrow> string \<Rightarrow> dial_error + netconn" where
  "wsDialContext net location origin =
     (if uScheme location = ''ws'' then
        (case net False (wsDialAddress location) of
           Some e \<Rightarrow> Inl (DialError e)
         | None \<Rightarrow> Inr (WSConn False (wsDialAddress location) origin))
      else if uScheme location = ''wss'' then
        (case net True (wsDialAddress location) of
           Some e \<Rightarrow> Inl (DialError e)
         | None \<Rightarrow> Inr (WSConn True (wsDialAddress location) origin))
      else Inl ErrBadScheme)"

definition DialWebsocket ::
  "string + string \<Rightarrow> (string \<Rightarrow> URL option) \<Rightarrow> (bool \<Rightarrow> string \<Rightarrow> string option) \<Rightarrow> string \<Rightarrow> string \<Rightarrow>
     dial_error + client_conn" where
  "DialWebsocket hostname loc net endpoint origin =
     (case wsOrigin hostname endpoint origin of
        Inl e \<Rightarrow> Inl e
      | Inr org \<Rightarrow>
          (case loc endpoint of
             None \<Rightarrow> Inl (ParseError endpoint)
           | Some location \<Rightarrow> newClientConn (wsDialContext net location org)))"

definition DialIPC :: "(string \<Rightarrow> string option) \<Rightarrow> string \<Rightarrow> dial_error + client_conn" where
  "DialIPC unix endpoint =
     newClientConn (case unix endpoint of Some e \<Rightarrow> Inl (DialError e) | None \<Rightarrow> Inr (UnixConn endpoint))"

definition DialStdIO :: "dial_error + client_conn" where
  "DialStdIO = newClientConn (Inr StdIOConn)"

definition DialInProc :: "dial_error + client_conn" where
  "DialInProc = newClientConn (Inr PipeConn)"

record machine =
  hostname :: "string + string"
  urlOk :: "string \<Rightarrow> bool"
  wsLocation :: "string \<Rightarrow> URL option"
  wsNet :: "bool \<Rightarrow> string \<Rightarrow> string option"
  unixNet :: "string \<Rightarrow> string option"

definition DialContext :: "machine \<Rightarrow> string \<Rightarrow> string list \<Rightarrow> dial_error + client_conn" where
  "DialContext mc rawurl proxy =
     (case urlScheme (urlOk mc) rawurl of
        Inl err \<Rightarrow> Inl err
      | Inr scheme \<Rightarrow>
          if scheme = ''http'' \<or> scheme = ''https'' then
            (case DialHTTP (urlOk mc) rawurl proxy of
               None \<Rightarrow> Inl (ParseError rawurl)
             | Some hc \<Rightarrow> newClientConn (Inr (HTTPConn hc)))
          else if scheme = ''ws'' \<or> scheme = ''wss'' then
            DialWebsocket (hostname mc) (wsLocation mc) (wsNet mc) rawurl ''''
          else if scheme = ''stdio'' then DialStdIO
          else if scheme = '''' then DialIPC (unixNet mc) rawurl
          else Inl (UnknownTransport scheme))"

definition Dial :: "machine \<Rightarrow> string \<Rightarrow> string list \<Rightarrow> dial_error + client_conn" where
  "Dial mc rawurl proxy = DialContext mc rawurl proxy"

section \<open>Accepting connections\<close>

text \<open>
  The outcomes of \<^verbatim>\<open>Accept\<close> in their order. The result is the list of the connections handed to
  \<^verbatim>\<open>ServeCodec\<close> and the error that the loop returns, \<^term>\<open>None\<close> while it still runs.
\<close>

datatype 'c accept = Accepted 'c | TemporaryError string | PermanentError string

fun ServeListener :: "'c accept list \<Rightarrow> 'c list \<times> string option" where
  "ServeListener [] = ([], None)"
| "ServeListener (TemporaryError e # l) = ServeListener l"
| "ServeListener (PermanentError e # l) = ([], Some e)"
| "ServeListener (Accepted conn # l) = (let (cs, r) = ServeListener l in (conn # cs, r))"

section \<open>Which origins are accepted\<close>

lemma collectOrigins_eq:
  "fst (collectOrigins os (b, l)) \<longleftrightarrow> b \<or> ''*'' \<in> set os"
  "set (snd (collectOrigins os (b, l))) = set l \<union> ToLower ` (set os - {''''})"
proof (induction os arbitrary: b l)
  case (Cons x os)
  { case 1 show ?case by (auto simp: Cons.IH(1)) next
    case 2 show ?case by (auto simp: Cons.IH(2)) }
qed auto

lemma set_addLocalhost:
  "set (addLocalhost (Inr h) os) =
     (if os = [] then {''http://localhost'', ''http://'' @ ToLower h} else set os)"
  by (auto simp: addLocalhost_def)

text \<open>
  The websocket handshake succeeds iff the list of allowed origins has \<open>*\<close>, or has the origin of the
  request up to the case of its letters, or has no origin at all and the request comes from
  \<^verbatim>\<open>http://localhost\<close> or from \<^verbatim>\<open>http://\<close> and the name of the host.
\<close>

theorem wsHandshakeValidator_iff:
  "wsHandshakeValidator (Inr host) allowed header = None \<longleftrightarrow>
     ''*'' \<in> set allowed \<or>
     (\<exists>origin \<in> set allowed. origin \<noteq> '''' \<and> ToLower origin = ToLower header) \<or>
     (set allowed \<subseteq> {''''} \<and> ToLower header \<in> {''http://localhost'', ''http://'' @ ToLower host})"
proof -
  obtain b os where c: "collectOrigins allowed (False, []) = (b, os)" by fastforce
  have b: "b \<longleftrightarrow> ''*'' \<in> set allowed" and os: "set os = ToLower ` (set allowed - {''''})"
    using collectOrigins_eq [of allowed False "[]"] c by auto
  have "wsHandshakeValidator (Inr host) allowed header = None \<longleftrightarrow>
      b \<or> ToLower header \<in> set (addLocalhost (Inr host) os)"
    by (simp add: wsHandshakeValidator_def c Let_def)
  moreover have "os = [] \<longleftrightarrow> set allowed \<subseteq> {''''}"
    unfolding set_empty [symmetric] os by auto
  moreover have "ToLower header \<in> set os \<longleftrightarrow>
      (\<exists>origin \<in> set allowed. origin \<noteq> '''' \<and> ToLower origin = ToLower header)"
    unfolding os by (auto simp: image_iff eq_commute)
  ultimately show ?thesis unfolding set_addLocalhost b by auto
qed

text \<open>
  The default origins of the two sides do not agree for encrypted connections. A client that is given
  no origin sends the name of its host with \<^verbatim>\<open>https\<close> for a \<^verbatim>\<open>wss\<close> endpoint, but the server that is
  given no origins allows \<^verbatim>\<open>http\<close> origins only: on one machine the handshake between the defaults
  succeeds iff the endpoint does not start with \<^verbatim>\<open>wss\<close>.
\<close>

theorem default_origins_agree_iff:
  assumes "wsOrigin (Inr host) endpoint '''' = Inr origin"
  shows "wsHandshakeValidator (Inr host) [] origin = None \<longleftrightarrow> \<not> HasPrefix endpoint ''wss''"
proof -
  have lower: "ToLower (p @ ToLower host) = ToLower p @ ToLower host" for p
    unfolding ToLower_def by (simp add: comp_def)
  have "ToLower ''https://'' = ''https://''" "ToLower ''http://'' = ''http://''" by code_simp+
  then have "wsHandshakeValidator (Inr host) [] (''http://'' @ ToLower host) = None"
    and "wsHandshakeValidator (Inr host) [] (''https://'' @ ToLower host) \<noteq> None"
    using lower [of "''http://''"] lower [of "''https://''"]
    by (simp_all add: wsHandshakeValidator_def addLocalhost_def)
  then show ?thesis using assms by (auto simp: wsOrigin_def split: if_splits)
qed

theorem default_origins_agree_iff_witness:
  "wsHandshakeValidator (Inr ''Node1'') [] ''https://node1'' \<noteq> None"
proof -
  have "wsOrigin (Inr ''Node1'') ''wss://node1:8546'' '''' = Inr ''https://node1''" by code_simp
  moreover have "HasPrefix ''wss://node1:8546'' ''wss''" by code_simp
  ultimately show ?thesis using default_origins_agree_iff by blast
qed

section \<open>Dial addresses\<close>

lemma SplitHostPort_no_colon: "CHR '':'' \<notin> set h \<Longrightarrow> SplitHostPort h = None"
  by (simp add: SplitHostPort_def)

lemma wsPortMap_digits:
  assumes "wsPortMap scheme = Some port"
  shows "set port \<inter> set '':[]'' = {}"
proof -
  have "port = ''80'' \<or> port = ''443''"
    using assms by (auto simp: wsPortMap_def split: if_splits)
  then show ?thesis by auto
qed

lemma takeWhile_bracket:
  assumes "CHR '']'' \<notin> set a"
  shows "dropWhile (\<lambda>x. x \<noteq> CHR '']'') (a @ CHR '']'' # b) = CHR '']'' # b"
  using assms by (induction a) auto

text \<open>
  The address that a websocket client connects to has a port: a host that has one is taken as it is,
  and a host name or IPv4 address without one gets the port of its scheme.
\<close>

lemma wsDialAddress_port:
  assumes "wsPortMap scheme = Some port"
    and "SplitHostPort h \<noteq> None \<or> set h \<inter> set '':[]'' = {}"
  shows "SplitHostPort (wsDialAddress \<lparr>uScheme = scheme, uHost = h\<rparr>) =
     (case SplitHostPort h of Some hp \<Rightarrow> Some hp | None \<Rightarrow> Some (h, port))"
proof (cases "SplitHostPort h")
  case (Some hp)
  then show ?thesis using assms(1) by (simp add: wsDialAddress_def)
next
  case None
  then have h: "set h \<inter> set '':[]'' = {}" using assms(2) by simp
  then have "CHR '':'' \<notin> set h" by auto
  moreover have "SplitHostPort (h @ '':'' @ port) = Some (h, port)"
    using h wsPortMap_digits [OF assms(1)] by (intro SplitHostPort_plain) auto
  ultimately show ?thesis
    using assms(1) SplitHostPort_no_colon [of h] by (simp add: wsDialAddress_def JoinHostPort_def)
qed

text \<open>
  An IPv6 address in brackets without a port is not given one: it is put into brackets once more,
  and the resulting address cannot be split into a host and a port.
\<close>

theorem wsDialAddress_ipv6:
  assumes "wsPortMap scheme = Some port" and "CHR '':'' \<in> set a" and "CHR '']'' \<notin> set a"
  shows "wsDialAddress \<lparr>uScheme = scheme, uHost = ''['' @ a @ '']''\<rparr> = ''[['' @ a @ '']]:'' @ port \<and>
         SplitHostPort (''[['' @ a @ '']]:'' @ port) = None"
proof -
  have 1: "SplitHostPort (''['' @ a @ '']'') = None"
    using takeWhile_bracket [OF assms(3), of "[]"]
    by (auto simp: SplitHostPort_def HasPrefix_def Let_def)
  have "CHR '':'' \<notin> set port" using wsPortMap_digits [OF assms(1)] by auto
  then have "afterLast (CHR '':'') (''[['' @ a @ '']]:'' @ port) = port"
    using afterLast_append [of "CHR '':''" port "''[['' @ a @ '']]''"] by simp
  then have "SplitHostPort (''[['' @ a @ '']]:'' @ port) = None"
    using takeWhile_bracket [OF assms(3), of "'']:'' @ port"]
    by (auto simp: SplitHostPort_def HasPrefix_def Let_def)
  then show ?thesis using 1 assms by (simp add: wsDialAddress_def JoinHostPort_def)
qed

theorem wsDialAddress_ipv6_witness:
  "wsDialAddress \<lparr>uScheme = ''ws'', uHost = ''[::1]''\<rparr> = ''[[::1]]:80''"
  using wsDialAddress_ipv6 [of "''ws''" "''80''" "''::1''"] by (simp add: wsPortMap_def)

section \<open>Choice of the transport\<close>

lemma schemeLoop_lower:
  "list_all is_lower s \<Longrightarrow> s \<noteq> [] \<or> 0 < i \<Longrightarrow> schemeLoop i acc (s @ CHR '':'' # r) = Some (acc @ s)"
proof (induction s arbitrary: i acc)
  case Nil
  have "\<not> is_lower (CHR '':'')" "\<not> is_upper (CHR '':'')" "\<not> is_digit (CHR '':'')" by code_simp+
  then show ?case using Nil by simp
qed simp

lemma lower_char_lower: "is_lower c \<Longrightarrow> lower_char c = c"
  by (auto simp: lower_char_def is_lower_def is_upper_def)

lemma ToLower_lower: "list_all is_lower s \<Longrightarrow> ToLower s = s"
  unfolding ToLower_def by (induction s) (auto simp: lower_char_lower)

lemma urlScheme_lower:
  assumes "list_all is_lower s" "s \<noteq> []" "ok (s @ '':'' @ r)"
  shows "urlScheme ok (s @ '':'' @ r) = Inr s"
proof -
  have "CHR 0x23 \<notin> set s"
    using assms(1) by (auto simp: list_all_iff is_lower_def)
  then have "takeWhile (\<lambda>c. c \<noteq> CHR 0x23) (s @ '':'' @ r) = s @ CHR '':'' # takeWhile (\<lambda>c. c \<noteq> CHR 0x23) r"
    by (simp add: takeWhile_append)
  then show ?thesis
    using assms schemeLoop_lower [of s 0 "[]"] ToLower_lower by (simp add: urlScheme_def)
qed

definition dialed :: "string \<Rightarrow> string \<Rightarrow> netconn \<Rightarrow> bool" where
  "dialed scheme rawurl conn =
     (case conn of
        HTTPConn hc \<Rightarrow> scheme \<in> {''http'', ''https''} \<and> hcEndpoint hc = rawurl
      | WSConn tls addr origin \<Rightarrow> scheme \<in> {''ws'', ''wss''}
      | StdIOConn \<Rightarrow> scheme = ''stdio''
      | UnixConn path \<Rightarrow> scheme = '''' \<and> path = rawurl
      | PipeConn \<Rightarrow> False)"

lemma newClientConn_Inr:
  "newClientConn r = Inr cc \<longleftrightarrow>
     (\<exists>conn. r = Inr conn \<and> cc = \<lparr>ccConn = conn, ccIsHTTP = (\<exists>hc. conn = HTTPConn hc),
        ccDispatching = (\<nexists>hc. conn = HTTPConn hc)\<rparr>)"
  by (auto simp: newClientConn_def Let_def split: sum.splits netconn.splits)

lemma DialHTTP_endpoint: "DialHTTP ok u proxy = Some hc \<Longrightarrow> hcEndpoint hc = u"
  by (auto simp: DialHTTP_def DialHTTPWithClient_def split: if_splits)

lemma wsDialContext_Inr: "wsDialContext net loc org = Inr conn \<Longrightarrow> \<exists>t a. conn = WSConn t a org"
  by (auto simp: wsDialContext_def split: if_splits option.splits)

text \<open>
  A URL with the scheme \<open>s\<close> (a word of lower-case letters) that the parser accepts is dialed with the
  transport of its scheme: HTTP for \<^verbatim>\<open>http\<close> and \<^verbatim>\<open>https\<close>, a websocket for \<^verbatim>\<open>ws\<close> and \<^verbatim>\<open>wss\<close>, standard
  input and output for \<^verbatim>\<open>stdio\<close>, an error that names the scheme otherwise. A client has a dispatch
  loop iff its connection is not HTTP.
\<close>

theorem Dial_transport:
  assumes "list_all is_lower s" "s \<noteq> []" "urlOk mc (s @ '':'' @ r)"
  shows "(\<forall>cc. Dial mc (s @ '':'' @ r) proxy = Inr cc \<longrightarrow>
            dialed s (s @ '':'' @ r) (ccConn cc) \<and>
            ccIsHTTP cc = (s \<in> {''http'', ''https''}) \<and> ccDispatching cc = (s \<notin> {''http'', ''https''})) \<and>
         (s \<notin> {''http'', ''https'', ''ws'', ''wss'', ''stdio''} \<longrightarrow>
            Dial mc (s @ '':'' @ r) proxy = Inl (UnknownTransport s))"
proof -
  have u: "urlScheme (urlOk mc) (s @ '':'' @ r) = Inr s" using assms by (rule urlScheme_lower)
  show ?thesis
    using assms(2) unfolding Dial_def DialContext_def u sum.case
    by (auto simp: newClientConn_Inr DialStdIO_def DialWebsocket_def dialed_def DialHTTP_endpoint
        dest!: wsDialContext_Inr split: option.splits sum.splits if_splits)
qed

definition demoMachine :: machine where
  "demoMachine = \<lparr>hostname = Inr ''node'', urlOk = (\<lambda>_. True),
     wsLocation = (\<lambda>u. Some \<lparr>uScheme = ''ws'', uHost = drop 5 u\<rparr>),
     wsNet = (\<lambda>_ _. None), unixNet = (\<lambda>_. None)\<rparr>"

theorem Dial_transport_witness:
  "Dial demoMachine ''ftp://node'' [] = Inl (UnknownTransport ''ftp'')"
proof -
  have "list_all is_lower ''ftp''" by code_simp
  then show ?thesis
    using Dial_transport [of "''ftp''" demoMachine "''//node''" "[]"] by (simp add: demoMachine_def)
qed

end
