(* ===== verification/ClientSend.thy ===== *)
theory ClientSend
  imports ClientCall
begin

text \<open>
  The send path of the RPC client, \<^verbatim>\<open>src/rpc/client.go\<close>: callers that run \<^verbatim>\<open>send\<close>, \<^verbatim>\<open>write\<close> and
  \<^verbatim>\<open>reconnect\<close> concurrently with the dispatch loop. The connection \<^verbatim>\<open>writeConn\<close> has no mutex: it is
  guarded by the hand-over on the channels \<^verbatim>\<open>requestOp\<close> and \<^verbatim>\<open>sendDone\<close>. The step relation interleaves
  the callers, whose position in the code is a program counter, with the turns of
  \<^term>\<open>dispatch\<close>.
\<close>

section \<open>Callers\<close>

datatype send_pc =
    PcSend "raw list" "string option" raw   \<comment> \<open>at the select statement of \<^verbatim>\<open>send\<close>\<close>
  | PcWrite raw                             \<comment> \<open>at the test of \<^verbatim>\<open>c.writeConn\<close> in \<^verbatim>\<open>write\<close>\<close>
  | PcReconnect raw nat                     \<comment> \<open>at the select statement of \<^verbatim>\<open>reconnect\<close>\<close>
  | PcEncode raw                            \<comment> \<open>about to encode the message to the connection\<close>
  | PcDone "string option"                  \<comment> \<open>about to send on \<^verbatim>\<open>sendDone\<close>\<close>
  | PcReturned "string option"

record send_sys =
  ssClient :: Client
  ssWriteConn :: "nat option"
  ssConns :: nat
  ssSendDone :: "string option list"
  ssPc :: "nat \<Rightarrow> send_pc"
  ssWire :: "(nat \<times> raw) list"

definition setPc :: "nat \<Rightarrow> send_pc \<Rightarrow> send_sys \<Rightarrow> send_sys" where
  "setPc i p s = s\<lparr>ssPc := (ssPc s)(i := p)\<rparr>"

text \<open>
  One step of caller \<open>i\<close>. The outcomes that the environment decides (the end of the context, errors of
  the connection) are the errors \<open>e\<close>. Connections are numbered; \<open>ssWire\<close> is the messages written, with
  the connection they went to.
\<close>

inductive caller_step :: "jsonlib \<Rightarrow> nat \<Rightarrow> send_sys \<Rightarrow> send_sys \<Rightarrow> bool"
  for lib i s where
  request:
    "ssPc s i = PcSend ids sub msg \<Longrightarrow> \<not> clQuit (ssClient s) \<Longrightarrow> clLastOp (ssClient s) = None \<Longrightarrow>
     dispatch lib (EvRequestOp ids sub) (ssClient s) = Some c \<Longrightarrow>
     caller_step lib i s (setPc i (PcWrite msg) (s\<lparr>ssClient := c\<rparr>))"
| ctx_done:
    "ssPc s i = PcSend ids sub msg \<Longrightarrow> caller_step lib i s (setPc i (PcReturned (Some e)) s)"
| did_quit:
    "ssPc s i = PcSend ids sub msg \<Longrightarrow> clQuit (ssClient s) \<Longrightarrow>
     caller_step lib i s (setPc i (PcReturned (Some ErrClientQuit)) s)"
| connected:
    "ssPc s i = PcWrite msg \<Longrightarrow> ssWriteConn s = Some k \<Longrightarrow>
     caller_step lib i s (setPc i (PcEncode msg) s)"
| connect_fails:
    "ssPc s i = PcWrite msg \<Longrightarrow> ssWriteConn s = None \<Longrightarrow>
     caller_step lib i s (setPc i (PcDone (Some e)) s)"
| connect:
    "ssPc s i = PcWrite msg \<Longrightarrow> ssWriteConn s = None \<Longrightarrow>
     caller_step lib i s (setPc i (PcReconnect msg (ssConns s)) (s\<lparr>ssConns := Suc (ssConns s)\<rparr>))"
| reconnected:
    "ssPc s i = PcReconnect msg k \<Longrightarrow> \<not> clQuit (ssClient s) \<Longrightarrow>
     dispatch lib EvReconnected (ssClient s) = Some c \<Longrightarrow>
     caller_step lib i s (setPc i (PcEncode msg) (s\<lparr>ssClient := c, ssWriteConn := Some k\<rparr>))"
| reconnect_quit:
    "ssPc s i = PcReconnect msg k \<Longrightarrow> clQuit (ssClient s) \<Longrightarrow>
     caller_step lib i s (setPc i (PcDone (Some ErrClientQuit)) s)"
| encoded:
    "ssPc s i = PcEncode msg \<Longrightarrow> ssWriteConn s = Some k \<Longrightarrow>
     caller_step lib i s (setPc i (PcDone None) (s\<lparr>ssWire := ssWire s @ [(k, msg)]\<rparr>))"
| encode_fails:
    "ssPc s i = PcEncode msg \<Longrightarrow> ssWriteConn s = Some k \<Longrightarrow>
     caller_step lib i s (setPc i (PcDone (Some e)) (s\<lparr>ssWriteConn := None\<rparr>))"
| finish:
    "ssPc s i = PcDone err \<Longrightarrow> length (ssSendDone s) < 1 \<Longrightarrow>
     caller_step lib i s (setPc i (PcReturned err) (s\<lparr>ssSendDone := ssSendDone s @ [err]\<rparr>))"

text \<open>The turns of the dispatch loop that do not meet a caller of \<^verbatim>\<open>send\<close>.\<close>

inductive loop_step :: "jsonlib \<Rightarrow> send_sys \<Rightarrow> send_sys \<Rightarrow> bool" for lib s where
  send_done:
    "ssSendDone s = e # es \<Longrightarrow> \<not> clQuit (ssClient s) \<Longrightarrow>
     dispatch lib (EvSendDone e) (ssClient s) = Some c \<Longrightarrow>
     loop_step lib s (s\<lparr>ssClient := c, ssSendDone := es\<rparr>)"
| close:
    "dispatch lib EvClose (ssClient s) = Some c \<Longrightarrow> loop_step lib s (s\<lparr>ssClient := c\<rparr>)"
| read_resp:
    "dispatch lib (EvReadResp batch) (ssClient s) = Some c \<Longrightarrow> loop_step lib s (s\<lparr>ssClient := c\<rparr>)"
| read_err:
    "dispatch lib (EvReadErr e) (ssClient s) = Some c \<Longrightarrow> loop_step lib s (s\<lparr>ssClient := c\<rparr>)"

inductive_cases caller_stepE: "caller_step lib i s s'"
inductive_cases loop_stepE: "loop_step lib s s'"

definition send_step :: "jsonlib \<Rightarrow> send_sys \<Rightarrow> send_sys \<Rightarrow> bool" where
  "send_step lib s s' \<longleftrightarrow> loop_step lib s s' \<or> (\<exists>i. caller_step lib i s s')"

text \<open>A new client whose callers are about to send.\<close>

definition startSend :: "(nat \<Rightarrow> send_pc) \<Rightarrow> send_sys" where
  "startSend pc = \<lparr>ssClient = newClient, ssWriteConn = Some 0, ssConns = 1, ssSendDone = [],
     ssPc = pc, ssWire = []\<rparr>"

section \<open>The write lock\<close>

text \<open>The part of the code in which a caller owns the connection.\<close>

fun owns :: "send_pc \<Rightarrow> bool" where
  "owns (PcSend _ _ _) = False"
| "owns (PcReturned _) = False"
| "owns _ = True"

definition send_inv :: "send_sys \<Rightarrow> bool" where
  "send_inv s \<longleftrightarrow>
     (\<forall>i j. owns (ssPc s i) \<longrightarrow> owns (ssPc s j) \<longrightarrow> i = j) \<and>
     (\<forall>i. owns (ssPc s i) \<longrightarrow> ssSendDone s = []) \<and>
     (\<forall>i msg. ssPc s i = PcEncode msg \<longrightarrow> ssWriteConn s \<noteq> None) \<and>
     length (ssSendDone s) \<le> 1 \<and>
     (\<not> clQuit (ssClient s) \<longrightarrow>
        (clLastOp (ssClient s) \<noteq> None \<longleftrightarrow> (\<exists>i. owns (ssPc s i)) \<or> ssSendDone s \<noteq> []))"

lemma handleMessage_lock:
  "handleMessage lib m c = Some c' \<Longrightarrow> clLastOp c' = clLastOp c \<and> clQuit c' = clQuit c"
  by (auto simp: handleMessage_def handleResponse_def handleNotification_def startSubscription_def
      updateOp_def Let_def split: option.splits if_splits prod.splits)

lemma handleMessages_lock:
  "run_ops (handleMessage lib) ms c = Some c' \<Longrightarrow> clLastOp c' = clLastOp c \<and> clQuit c' = clQuit c"
proof (induction ms arbitrary: c)
  case (Cons m ms)
  then obtain d where "handleMessage lib m c = Some d" "run_ops (handleMessage lib) ms d = Some c'"
    by (auto split: option.splits)
  then show ?case using Cons.IH [of d] handleMessage_lock [of lib m c d] by simp
qed simp

lemma closeRequestOps_lock:
  "closeRequestOps e c = Some c' \<Longrightarrow> clLastOp c' = clLastOp c \<and> clQuit c' = clQuit c"
  by (auto simp: closeRequestOps_def split: if_splits)

text \<open>What the turns of the loop do to the lock.\<close>

lemma read_lock:
  "dispatch lib (EvReadResp ms) c = Some c' \<Longrightarrow> clLastOp c' = clLastOp c \<and> clQuit c' = clQuit c"
  by (auto split: if_splits dest: handleMessages_lock)

lemma read_err_lock:
  "dispatch lib (EvReadErr e) c = Some c' \<Longrightarrow> clLastOp c' = clLastOp c \<and> clQuit c' = clQuit c"
  by (auto split: if_splits dest: closeRequestOps_lock)

lemma reconnected_lock:
  "dispatch lib EvReconnected c = Some c' \<Longrightarrow> clLastOp c' = clLastOp c \<and> clQuit c' = clQuit c"
  by (auto split: if_splits)

lemma close_lock:
  "dispatch lib EvClose c = Some c' \<Longrightarrow> clLastOp c' = clLastOp c \<and> clQuit c'"
  by (auto split: if_splits dest: closeRequestOps_lock)

lemma request_lock:
  "dispatch lib (EvRequestOp ids sub) c = Some c' \<Longrightarrow> \<not> clQuit c \<Longrightarrow> clLastOp c = None \<Longrightarrow>
   clLastOp c' \<noteq> None \<and> \<not> clQuit c'"
  by (auto simp: registerOp_def Let_def)

lemma sendDone_lock:
  "dispatch lib (EvSendDone e) c = Some c' \<Longrightarrow> \<not> clQuit c \<Longrightarrow> clLastOp c' = None \<and> \<not> clQuit c'"
  by (auto simp: sendDone_def split: option.splits if_splits)

lemmas lock_turns = read_lock read_err_lock reconnected_lock close_lock request_lock sendDone_lock

lemma send_invD:
  assumes "send_inv s"
  shows "owns (ssPc s i) \<Longrightarrow> owns (ssPc s j) \<Longrightarrow> i = j"
    and "owns (ssPc s i) \<Longrightarrow> ssSendDone s = []"
    and "ssPc s i = PcEncode msg \<Longrightarrow> ssWriteConn s \<noteq> None"
    and "length (ssSendDone s) \<le> 1"
    and "\<not> clQuit (ssClient s) \<Longrightarrow>
         clLastOp (ssClient s) \<noteq> None \<longleftrightarrow> (\<exists>i. owns (ssPc s i)) \<or> ssSendDone s \<noteq> []"
  using assms unfolding send_inv_def by blast+

text \<open>A step of the owner that keeps the lock, and a step of the owner that passes it on.\<close>

lemma send_inv_keep:
  assumes inv: "send_inv s" and own: "owns (ssPc s i)" "owns p"
    and c: "clLastOp c = clLastOp (ssClient s)" "clQuit c = clQuit (ssClient s)"
    and w: "\<forall>msg. p = PcEncode msg \<longrightarrow> w \<noteq> None"
  shows "send_inv (setPc i p (s\<lparr>ssClient := c, ssWriteConn := w, ssConns := n, ssWire := wire\<rparr>))"
proof -
  let ?pc = "(ssPc s)(i := p)"
  have other: "\<not> owns (ssPc s j)" if "j \<noteq> i" for j using send_invD(1) [OF inv own(1), of j] that by auto
  then have only: "owns (?pc j) \<longleftrightarrow> j = i" for j using own(2) by (cases "j = i") auto
  have enc: "?pc j = PcEncode msg \<Longrightarrow> w \<noteq> None" for j msg
    using only [of j] w by (cases "j = i") auto
  show ?thesis
    using send_invD(2) [OF inv own(1)] send_invD(5) [OF inv] own(1) c only enc
    unfolding send_inv_def setPc_def by auto
qed

lemma send_inv_move:
  assumes "send_inv s" "owns (ssPc s i)" "owns p" "\<forall>msg. p = PcEncode msg \<longrightarrow> ssWriteConn s \<noteq> None"
  shows "send_inv (setPc i p s)"
  using send_inv_keep [OF assms(1-3) refl refl assms(4), of "ssWire s" "ssConns s"] by simp

lemma send_inv_outside:
  assumes "send_inv s" "\<not> owns (ssPc s i)" "\<not> owns p"
  shows "send_inv (setPc i p s)"
proof -
  have same: "owns (((ssPc s)(i := p)) j) = owns (ssPc s j)" for j using assms(2,3) by simp
  have "((ssPc s)(i := p)) j = PcEncode msg \<Longrightarrow> ssPc s j = PcEncode msg" for j msg
    using assms(3) by (cases "j = i") auto
  then show ?thesis
    using assms(1) unfolding send_inv_def setPc_def by (simp del: fun_upd_apply add: same) blast
qed

lemma send_inv_caller:
  assumes "caller_step lib i s s'" "send_inv s"
  shows "send_inv s'"
  using assms(1)
proof (cases rule: caller_step.cases)
  case (request ids sub msg c)
  have none: "\<not> owns (ssPc s j)" "ssSendDone s = []" for j
    using send_invD(5) [OF assms(2) request(3)] request(4) by auto
  have "ssPc s j \<noteq> PcEncode m" for j m using none(1) [of j] by auto
  then show ?thesis
    using request_lock [OF request(5,3,4)] none unfolding request(1) send_inv_def setPc_def
    by auto
next
  case (connected msg k)
  then show ?thesis using send_inv_move [OF assms(2), of i "PcEncode msg"] by simp
next
  case (connect_fails msg e)
  then show ?thesis using send_inv_move [OF assms(2), of i "PcDone (Some e)"] by simp
next
  case (connect msg)
  have "send_inv (s\<lparr>ssConns := Suc (ssConns s)\<rparr>)" using assms(2) unfolding send_inv_def by simp
  then show ?thesis
    using connect send_inv_move [of _ i "PcReconnect msg (ssConns s)"] by simp
next
  case (reconnected msg k c)
  then show ?thesis
    using send_inv_keep [OF assms(2), of i "PcEncode msg" c "Some k" "ssWire s" "ssConns s"]
      reconnected_lock [OF reconnected(4)]
    by simp
next
  case (reconnect_quit msg k)
  then show ?thesis using send_inv_move [OF assms(2), of i "PcDone (Some ErrClientQuit)"] by simp
next
  case (encoded msg k)
  have "send_inv (s\<lparr>ssWire := ssWire s @ [(k, msg)]\<rparr>)" using assms(2) unfolding send_inv_def by simp
  then show ?thesis using encoded send_inv_move [of _ i "PcDone None"] by simp
next
  case (encode_fails msg k e)
  then show ?thesis
    using send_inv_keep [OF assms(2), of i "PcDone (Some e)" "ssClient s" None "ssWire s" "ssConns s"]
    by simp
next
  case (finish err)
  have own: "owns (ssPc s i)" using finish by simp
  have none: "\<not> owns (((ssPc s)(i := PcReturned err)) j)" for j
    using send_invD(1) [OF assms(2) own, of j] by (cases "j = i") auto
  have "((ssPc s)(i := PcReturned err)) j \<noteq> PcEncode m" for j m using none [of j] by auto
  moreover have "\<not> clQuit (ssClient s) \<Longrightarrow> clLastOp (ssClient s) \<noteq> None"
    using send_invD(5) [OF assms(2)] own by blast
  ultimately show ?thesis
    using none finish
    unfolding finish(1) send_inv_def setPc_def by (auto simp del: fun_upd_apply)
qed (use send_inv_outside [OF assms(2), of i] in auto)

lemma send_inv_client:
  assumes "send_inv s" "clLastOp c = clLastOp (ssClient s)" "clQuit c \<or> \<not> clQuit (ssClient s)"
  shows "send_inv (s\<lparr>ssClient := c\<rparr>)"
  using assms unfolding send_inv_def by auto

lemma send_inv_loop:
  assumes "loop_step lib s s'" "send_inv s"
  shows "send_inv s'"
  using assms(1)
proof (cases rule: loop_step.cases)
  case (send_done e es c)
  have "\<not> owns (ssPc s i)" for i using send_invD(2) [OF assms(2), of i] send_done(2) by auto
  moreover have "es = []" using send_invD(4) [OF assms(2)] send_done(2) by simp
  ultimately show ?thesis
    using sendDone_lock [OF send_done(4,3)] assms(2) unfolding send_done(1) send_inv_def by auto
next
  case (close c)
  then show ?thesis using send_inv_client [OF assms(2), of c] close_lock [OF close(2)] by simp
next
  case (read_resp batch c)
  then show ?thesis using send_inv_client [OF assms(2), of c] read_lock [OF read_resp(2)] by auto
next
  case (read_err e c)
  then show ?thesis using send_inv_client [OF assms(2), of c] read_err_lock [OF read_err(2)] by auto
qed

lemma send_inv_reachable:
  assumes "(send_step lib)\<^sup>*\<^sup>* s s'" "send_inv s"
  shows "send_inv s'"
  using assms by (induction rule: rtranclp_induct) (auto simp: send_step_def send_inv_loop send_inv_caller)

lemma send_inv_start:
  assumes "\<And>i. \<not> owns (pc i)"
  shows "send_inv (startSend pc)"
proof -
  have "pc i \<noteq> PcEncode m" for i m using assms [of i] by auto
  then show ?thesis using assms unfolding send_inv_def startSend_def newClient_def by simp
qed


definition twoCallers :: "nat \<Rightarrow> send_pc" where
  "twoCallers i = (if i < 2 then PcSend [itoa i] None (itoa i) else PcReturned None)"


end
