(* ===== verification/ClientQuit.thy ===== *)
theory ClientQuit
  imports ClientSend
begin

text \<open>
  The end of a client subscription under concurrency, \<^verbatim>\<open>src/rpc/client.go\<close>: a goroutine that calls
  \<^verbatim>\<open>Unsubscribe\<close> and the dispatch loop that closes all subscriptions after a read error or \<^verbatim>\<open>Close\<close>
  meet in \<^verbatim>\<open>quitWithError\<close>, whose body runs once under \<^verbatim>\<open>sync.Once\<close>: a second caller waits until the
  first has finished the body. The theory \<open>Client\<close> runs that body in one step; here it is taken
  apart at the points where it waits.
\<close>

section \<open>The two goroutines\<close>

datatype unsub_pc =
    UCall                    \<comment> \<open>about to call \<^verbatim>\<open>Unsubscribe\<close>\<close>
  | USend                    \<comment> \<open>in the body, \<^verbatim>\<open>quit\<close> closed, at the select statement of \<^verbatim>\<open>send\<close>\<close>
  | UWait                    \<comment> \<open>in the body, waiting for the response to the unsubscribe request\<close>
  | UReturned

datatype loop_pc =
    LSelect                  \<comment> \<open>at the select statement of \<^verbatim>\<open>dispatch\<close>\<close>
  | LQuit string             \<comment> \<open>in \<^verbatim>\<open>closeRequestOps\<close>, about to call \<^verbatim>\<open>quitWithError\<close>\<close>
  | LExit                    \<comment> \<open>returned, \<^verbatim>\<open>didQuit\<close> closed\<close>

text \<open>The state of \<^verbatim>\<open>quitOnce\<close>: not called yet, a caller in its body, done.\<close>

datatype once = OnceFree | OnceRunning | OnceDone

record quit_sys =
  qsUnsub :: unsub_pc
  qsLoop :: loop_pc
  qsOnce :: once
  qsClosing :: bool
  qsSub :: ClientSubscription
  qsResp :: bool

text \<open>
  \<open>qsResp\<close> tells that the channel of the unsubscribe request has a response or is closed;
  \<open>qsClosing\<close> that the loop returns after \<^verbatim>\<open>closeRequestOps\<close>. The context of the unsubscribe request is
  \<^verbatim>\<open>context.Background()\<close>, which never ends.
\<close>

inductive quit_step :: "quit_sys \<Rightarrow> quit_sys \<Rightarrow> bool" for s where
  unsub_body:
    "qsUnsub s = UCall \<Longrightarrow> qsOnce s = OnceFree \<Longrightarrow>
     quit_step s (s\<lparr>qsUnsub := USend, qsOnce := OnceRunning,
       qsSub := (qsSub s)\<lparr>csQuit := True, csUnsubscribed := True\<rparr>\<rparr>)"
| unsub_again:
    "qsUnsub s = UCall \<Longrightarrow> qsOnce s = OnceDone \<Longrightarrow>
     quit_step s (s\<lparr>qsUnsub := UReturned, qsSub := (qsSub s)\<lparr>csErrClosed := True\<rparr>\<rparr>)"
| unsub_sent:
    "qsUnsub s = USend \<Longrightarrow> qsLoop s = LSelect \<Longrightarrow> quit_step s (s\<lparr>qsUnsub := UWait\<rparr>)"
| unsub_quit:
    "qsUnsub s = USend \<Longrightarrow> qsLoop s = LExit \<Longrightarrow>
     quit_step s (s\<lparr>qsUnsub := UReturned, qsOnce := OnceDone,
       qsSub := (qsSub s)\<lparr>csErrClosed := True\<rparr>\<rparr>)"
| unsub_done:
    "qsUnsub s = UWait \<Longrightarrow> qsResp s \<Longrightarrow>
     quit_step s (s\<lparr>qsUnsub := UReturned, qsOnce := OnceDone,
       qsSub := (qsSub s)\<lparr>csErrClosed := True\<rparr>\<rparr>)"
| loop_response:
    "qsLoop s = LSelect \<Longrightarrow> qsUnsub s = UWait \<Longrightarrow> quit_step s (s\<lparr>qsResp := True\<rparr>)"
| loop_read_err:
    "qsLoop s = LSelect \<Longrightarrow>
     quit_step s (s\<lparr>qsLoop := LQuit e, qsResp := (qsResp s \<or> qsUnsub s = UWait)\<rparr>)"
| loop_close:
    "qsLoop s = LSelect \<Longrightarrow>
     quit_step s (s\<lparr>qsLoop := LQuit ErrClientQuit, qsClosing := True,
       qsResp := (qsResp s \<or> qsUnsub s = UWait)\<rparr>)"
| loop_body:
    "qsLoop s = LQuit e \<Longrightarrow> qsOnce s = OnceFree \<Longrightarrow>
     quit_step s (s\<lparr>qsLoop := (if qsClosing s then LExit else LSelect), qsOnce := OnceDone,
       qsSub := quitWithError (Some e) False (qsSub s)\<rparr>)"
| loop_again:
    "qsLoop s = LQuit e \<Longrightarrow> qsOnce s = OnceDone \<Longrightarrow>
     quit_step s (s\<lparr>qsLoop := (if qsClosing s then LExit else LSelect)\<rparr>)"

inductive_simps quit_step_iff: "quit_step s s'"

definition startQuit :: quit_sys where
  "startQuit = \<lparr>qsUnsub = UCall, qsLoop = LSelect, qsOnce = OnceFree, qsClosing = False,
     qsSub = newClientSubscription ''eth'', qsResp = False\<rparr>"

section \<open>Deadlock\<close>

definition quit_stuck :: "quit_sys \<Rightarrow> bool" where
  "quit_stuck s \<longleftrightarrow> qsUnsub s = USend \<and> (\<exists>e. qsLoop s = LQuit e) \<and> qsOnce s = OnceRunning"

text \<open>The body of the once is run by the goroutine that unsubscribes while it is in it.\<close>

definition quit_inv :: "quit_sys \<Rightarrow> bool" where
  "quit_inv s \<longleftrightarrow> (qsOnce s = OnceRunning \<longleftrightarrow> qsUnsub s \<in> {USend, UWait}) \<and>
     (qsUnsub s = UWait \<longrightarrow> qsResp s \<or> qsLoop s = LSelect)"

lemma quit_inv_step: "quit_step s s' \<Longrightarrow> quit_inv s \<Longrightarrow> quit_inv s'"
  by (cases rule: quit_step.cases) (auto simp: quit_inv_def)

lemma quit_inv_reachable: "quit_step\<^sup>*\<^sup>* s s' \<Longrightarrow> quit_inv s \<Longrightarrow> quit_inv s'"
  by (induction rule: rtranclp_induct) (auto intro: quit_inv_step)

lemma quit_inv_start: "quit_inv startQuit"
  by (simp add: quit_inv_def startQuit_def)

lemma no_step_iff:
  assumes "quit_inv s"
  shows "(\<nexists>s'. quit_step s s') \<longleftrightarrow> quit_stuck s \<or> (qsUnsub s = UReturned \<and> qsLoop s = LExit)"
proof -
  have "(\<exists>s'. quit_step s s') \<longleftrightarrow>
      (qsUnsub s = UCall \<and> qsOnce s \<noteq> OnceRunning) \<or>
      (qsUnsub s = USend \<and> (qsLoop s = LSelect \<or> qsLoop s = LExit)) \<or>
      (qsUnsub s = UWait \<and> qsResp s) \<or> qsLoop s = LSelect \<or>
      ((\<exists>e. qsLoop s = LQuit e) \<and> qsOnce s \<noteq> OnceRunning)"
    unfolding quit_step_iff by (cases "qsOnce s"; simp) blast+
  then show ?thesis
    using assms unfolding quit_stuck_def quit_inv_def
    by (cases "qsUnsub s"; cases "qsLoop s"; cases "qsOnce s") auto
qed



end
