(* ===== verification/Script.thy ===== *)
theory Script
  imports Hexutil "HOL-Library.State_Monad"
begin

text \<open>
  The common part of the programs that send transactions: the transactions themselves, the node they
  talk to, and the discipline of nonces they share.

  A program runs in the state monad over the list of the events it has had with its environment: calls
  to the node with their replies, turns of a select statement, sleeps and random numbers. The node
  is a record of functions that choose each reply from the events so far, so that a statement
  about every node is a statement about every behaviour of network, chain and clock. The
  primitives of \<^verbatim>\<open>crypto\<close> and \<^verbatim>\<open>core/types\<close>, which are third-party code, are the record \<open>cryptolib\<close>.
\<close>

section \<open>Transactions\<close>

type_synonym address = "8 word list"

record transaction =
  txNonce :: "64 word"
  txTo :: "address option"
  txAmount :: int
  txGasLimit :: "64 word"
  txGasPrice :: int
  txData :: "8 word list"

text \<open>\<^verbatim>\<open>types.NewTransaction\<close> and \<^verbatim>\<open>types.NewContractCreation\<close>; a nil amount is zero.\<close>

definition NewTransaction ::
  "64 word \<Rightarrow> address \<Rightarrow> int \<Rightarrow> 64 word \<Rightarrow> int \<Rightarrow> 8 word list \<Rightarrow> transaction" where
  "NewTransaction nonce to amount gasLimit gasPrice data =
     \<lparr>txNonce = nonce, txTo = Some to, txAmount = amount, txGasLimit = gasLimit,
      txGasPrice = gasPrice, txData = data\<rparr>"

definition NewContractCreation ::
  "64 word \<Rightarrow> int \<Rightarrow> 64 word \<Rightarrow> int \<Rightarrow> 8 word list \<Rightarrow> transaction" where
  "NewContractCreation nonce amount gasLimit gasPrice data =
     \<lparr>txNonce = nonce, txTo = None, txAmount = amount, txGasLimit = gasLimit,
      txGasPrice = gasPrice, txData = data\<rparr>"

datatype signer = HomesteadSigner | EIP155Signer int | Sm2Signer int

type_synonym privkey = nat
type_synonym signedTx = "transaction \<times> signer \<times> privkey"

text \<open>
  Parsing a private key, the address of its public key, the error of signing (if any), hashing, and
  the encoding of messages by \<^verbatim>\<open>proto.Marshal\<close> and the error of \<^verbatim>\<open>rlp.EncodeToBytes\<close> on a transaction.
\<close>

datatype proto_msg =
    Invocation string "8 word list list" "(string \<times> 8 word list) list"
  | PTransaction nat "8 word list"
  | Deployment string string proto_msg
  | DomainItem string string string
  | KeyItem string string "8 word list"

record cryptolib =
  HexToECDSA :: "string \<Rightarrow> string + privkey"
  PubkeyToAddress :: "privkey \<Rightarrow> address"
  SignErr :: "transaction \<Rightarrow> signer \<Rightarrow> privkey \<Rightarrow> string option"
  Sm2InitKey :: "int \<Rightarrow> privkey"
  Keccak256 :: "8 word list \<Rightarrow> 8 word list"
  ProtoMarshal :: "proto_msg \<Rightarrow> string + 8 word list"
  RlpErr :: "signedTx option \<Rightarrow> string option"

definition SignTx :: "cryptolib \<Rightarrow> transaction \<Rightarrow> signer \<Rightarrow> privkey \<Rightarrow> string + signedTx" where
  "SignTx lib tx s k = (case SignErr lib tx s k of Some e \<Rightarrow> Inl e | None \<Rightarrow> Inr (tx, s, k))"

text \<open>The result of a call whose error is ignored: nil when it fails.\<close>

definition orNil :: "string + 'a \<Rightarrow> 'a option" where
  "orNil r = (case r of Inl _ \<Rightarrow> None | Inr x \<Rightarrow> Some x)"

definition orZero :: "string + 64 word \<Rightarrow> 64 word" where
  "orZero r = (case r of Inl _ \<Rightarrow> 0 | Inr x \<Rightarrow> x)"

definition bytesOf :: "string \<Rightarrow> 8 word list" where
  "bytesOf s = map (\<lambda>c. of_char c) s"

section \<open>Events\<close>

record callMsg =
  cmFrom :: "address option"
  cmTo :: "address option"
  cmValue :: int
  cmData :: "8 word list"

datatype select_case = TimerCase | TickerCase | DefaultCase

datatype event =
    EvDial string "string option"
  | EvNonceAt address "string + 64 word"
  | EvPendingNonceAt address "string + 64 word"
  | EvEstimateGas callMsg "string + 64 word"
  | EvSuggestGasPrice "string + int"
  | EvSend "signedTx option" "string option"
  | EvReadFile string "string + 8 word list"
  | EvSelect select_case
  | EvSleep int
  | EvIntn nat nat

record node =
  ndDial :: "event list \<Rightarrow> string \<Rightarrow> string option"
  ndNonceAt :: "event list \<Rightarrow> address \<Rightarrow> string + 64 word"
  ndPendingNonceAt :: "event list \<Rightarrow> address \<Rightarrow> string + 64 word"
  ndEstimateGas :: "event list \<Rightarrow> callMsg \<Rightarrow> string + 64 word"
  ndSuggestGasPrice :: "event list \<Rightarrow> string + int"
  ndSend :: "event list \<Rightarrow> signedTx option \<Rightarrow> string option"
  ndReadFile :: "event list \<Rightarrow> string \<Rightarrow> string + 8 word list"
  ndSelect :: "event list \<Rightarrow> select_case"
  ndIntn :: "event list \<Rightarrow> nat \<Rightarrow> nat"

type_synonym 'a script = "(event list, 'a) state"

text \<open>How a program ends: it returns, or \<^verbatim>\<open>log.Fatal\<close> ends the process.\<close>

datatype exit = Return | Fatal | Panic

definition perform :: "(event list \<Rightarrow> 'a) \<Rightarrow> ('a \<Rightarrow> event) \<Rightarrow> 'a script" where
  "perform f e = State (\<lambda>h. (f h, h @ [e (f h)]))"

definition dial :: "node \<Rightarrow> string \<Rightarrow> string option script" where
  "dial nd host = perform (\<lambda>h. ndDial nd h host) (EvDial host)"

definition nonceAt :: "node \<Rightarrow> address \<Rightarrow> (string + 64 word) script" where
  "nonceAt nd a = perform (\<lambda>h. ndNonceAt nd h a) (EvNonceAt a)"

definition pendingNonceAt :: "node \<Rightarrow> address \<Rightarrow> (string + 64 word) script" where
  "pendingNonceAt nd a = perform (\<lambda>h. ndPendingNonceAt nd h a) (EvPendingNonceAt a)"

definition estimateGas :: "node \<Rightarrow> callMsg \<Rightarrow> (string + 64 word) script" where
  "estimateGas nd msg = perform (\<lambda>h. ndEstimateGas nd h msg) (EvEstimateGas msg)"

definition suggestGasPrice :: "node \<Rightarrow> (string + int) script" where
  "suggestGasPrice nd = perform (\<lambda>h. ndSuggestGasPrice nd h) EvSuggestGasPrice"

text \<open>The outcome of sending is an error or none; the programs only print the hash.\<close>

definition sendRaw :: "node \<Rightarrow> signedTx option \<Rightarrow> string option script" where
  "sendRaw nd tx = perform (\<lambda>h. ndSend nd h tx) (EvSend tx)"

definition readFile :: "node \<Rightarrow> string \<Rightarrow> (string + 8 word list) script" where
  "readFile nd path = perform (\<lambda>h. ndReadFile nd h path) (EvReadFile path)"

definition select :: "node \<Rightarrow> select_case script" where
  "select nd = perform (\<lambda>h. ndSelect nd h) EvSelect"

definition sleep :: "int \<Rightarrow> unit script" where
  "sleep d = perform (\<lambda>h. ()) (\<lambda>_. EvSleep d)"

text \<open>\<^verbatim>\<open>rand.Intn(n)\<close> for a positive \<open>n\<close>: the choice of the environment, within the range.\<close>

definition intn :: "node \<Rightarrow> nat \<Rightarrow> nat script" where
  "intn nd n = perform (\<lambda>h. ndIntn nd h n mod n) (EvIntn n)"

lemma run_perform: "run_state (perform f e) h = (f h, h @ [e (f h)])"
  by (simp add: perform_def)

lemmas script_ops = dial_def nonceAt_def pendingNonceAt_def estimateGas_def suggestGasPrice_def
  sendRaw_def readFile_def select_def sleep_def intn_def

named_theorems script_rule

lemmas run_script = run_perform script_ops run_state_bind

section \<open>Loops\<close>

text \<open>
  The first \<open>n\<close> turns of a loop whose body returns the next state of its variables (\<^term>\<open>Inl\<close>), or
  ends the program. The loops of the programs have no bound of their own: a statement about every
  \<open>n\<close> is one about every prefix of their runs.
\<close>

fun iterate :: "nat \<Rightarrow> ('s \<Rightarrow> ('s + exit) script) \<Rightarrow> 's \<Rightarrow> ('s + exit) script" where
  "iterate 0 body s = State_Monad.return (Inl s)"
| "iterate (Suc n) body s =
     do {
       r \<leftarrow> body s;
       case r of Inl s' \<Rightarrow> iterate n body s' | Inr x \<Rightarrow> State_Monad.return (Inr x)
     }"

text \<open>
  How most programs start: connect to the node, parse the private key, and ask for the nonce of its
  address; \<open>onKey\<close> and \<open>onNonce\<close> say how the program ends when the key is bad or the nonce unknown.
\<close>

definition withAccount ::
  "cryptolib \<Rightarrow> node \<Rightarrow> string \<Rightarrow> string \<Rightarrow> exit \<Rightarrow> exit \<Rightarrow>
     (privkey \<Rightarrow> address \<Rightarrow> 64 word \<Rightarrow> ('s + exit) script) \<Rightarrow> ('s + exit) script" where
  "withAccount lib nd host hexKey onKey onNonce k =
     do {
       err \<leftarrow> dial nd host;
       case err of
         Some _ \<Rightarrow> State_Monad.return (Inr Return)
       | None \<Rightarrow>
           (case HexToECDSA lib hexKey of
              Inl _ \<Rightarrow> State_Monad.return (Inr onKey)
            | Inr key \<Rightarrow>
                do {
                  r \<leftarrow> nonceAt nd (PubkeyToAddress lib key);
                  case r of
                    Inl _ \<Rightarrow> State_Monad.return (Inr onNonce)
                  | Inr nonce \<Rightarrow> k key (PubkeyToAddress lib key) nonce
                })
     }"

text \<open>
  The ticker of the select statements: sleep, ask for the nonce again, and go on with it or return.
\<close>

definition askNonce :: "node \<Rightarrow> address \<Rightarrow> int \<Rightarrow> (64 word \<Rightarrow> 's) \<Rightarrow> ('s + exit) script" where
  "askNonce nd a pause k =
     do {
       sleep pause;
       r \<leftarrow> nonceAt nd a;
       State_Monad.return (case r of Inl _ \<Rightarrow> Inr Return | Inr n \<Rightarrow> Inl (k n))
     }"

text \<open>
  The same for the programs that repeat the question until it is answered: one turn of that loop.
\<close>

definition retryNonce :: "node \<Rightarrow> address \<Rightarrow> int \<Rightarrow> (64 word \<Rightarrow> 's) \<Rightarrow> 's \<Rightarrow> ('s + exit) script" where
  "retryNonce nd a pause k again =
     do {
       r \<leftarrow> nonceAt nd a;
       case r of
         Inl _ \<Rightarrow> do { sleep pause; State_Monad.return (Inl again) }
       | Inr n \<Rightarrow> State_Monad.return (Inl (k n))
     }"

text \<open>A select statement with a timer and a default only.\<close>

definition timerOrDefault :: "node \<Rightarrow> bool script" where
  "timerOrDefault nd = perform (\<lambda>h. ndSelect nd h = TimerCase)
     (\<lambda>b. EvSelect (if b then TimerCase else DefaultCase))"

text \<open>Durations in nanoseconds.\<close>

definition millisecond :: int where "millisecond = 1000000"
definition seconds :: int where "seconds = 1000000000"
definition minute :: int where "minute = 60000000000"

section \<open>The discipline of nonces\<close>

text \<open>
  What a well-behaved sender of transactions for one account may do: it sends only after it has
  learned the nonce of the account, each transaction carries the nonce that is next, and a
  transaction that is accepted makes the following nonce the next one; one that is refused does not.
\<close>

datatype nonce_state = Unknown | Next "64 word" | Broken

fun ns_step :: "nonce_state \<Rightarrow> event \<Rightarrow> nonce_state" where
  "ns_step Broken _ = Broken"
| "ns_step _ (EvNonceAt a (Inr n)) = Next n"
| "ns_step _ (EvNonceAt a (Inl e)) = Unknown"
| "ns_step _ (EvPendingNonceAt a (Inr n)) = Next n"
| "ns_step _ (EvPendingNonceAt a (Inl e)) = Unknown"
| "ns_step (Next n) (EvSend (Some st) r) =
     (if txNonce (fst st) = n then Next (case r of None \<Rightarrow> n + 1 | Some e \<Rightarrow> n) else Broken)"
| "ns_step Unknown (EvSend st r) = Broken"
| "ns_step (Next n) (EvSend None r) = Broken"
| "ns_step s _ = s"

definition expected :: "event list \<Rightarrow> nonce_state" where
  "expected h = foldl ns_step Unknown h"

lemma expected_Nil [simp]: "expected [] = Unknown"
  by (simp add: expected_def)

lemma expected_snoc [simp]: "expected (h @ [e]) = ns_step (expected h) e"
  by (simp add: expected_def)

definition disciplined :: "event list \<Rightarrow> bool" where
  "disciplined h \<longleftrightarrow> expected h \<noteq> Broken"

text \<open>The transactions that the node accepted.\<close>

fun accepted :: "event list \<Rightarrow> transaction list" where
  "accepted [] = []"
| "accepted (EvSend (Some st) None # h) = fst st # accepted h"
| "accepted (_ # h) = accepted h"

lemma accepted_append [simp]: "accepted (h @ h') = accepted h @ accepted h'"
  by (induction h rule: accepted.induct) auto

definition signs :: "cryptolib \<Rightarrow> bool" where
  "signs lib \<longleftrightarrow> (\<forall>tx s k. SignErr lib tx s k = None)"

lemma signs_SignTx [simp]: "signs lib \<Longrightarrow> SignTx lib tx s k = Inr (tx, s, k)"
  by (simp add: signs_def SignTx_def)

lemma orNil_simps [simp]: "orNil (Inl e) = None" "orNil (Inr x) = Some x"
  by (simp_all add: orNil_def)

lemma NewTransaction_nonce [simp]:
  "txNonce (NewTransaction n to a gl gp d) = n" "txNonce (NewContractCreation n a gl gp d) = n"
  by (simp_all add: NewTransaction_def NewContractCreation_def)

text \<open>A library that signs is one whose signing is replaced by one without errors.\<close>

definition withSigning :: "cryptolib \<Rightarrow> cryptolib" where
  "withSigning lib = lib\<lparr>SignErr := (\<lambda>_ _ _. None)\<rparr>"

lemma signs_withSigning [simp]: "signs (withSigning lib)"
  by (simp add: signs_def withSigning_def)

lemma withSigning_id: "signs lib \<Longrightarrow> withSigning lib = lib"
proof -
  assume "signs lib"
  then have "SignErr lib = (\<lambda>_ _ _. None)" by (intro ext) (simp add: signs_def)
  then show ?thesis by (cases lib) (simp add: withSigning_def)
qed

section \<open>Reasoning about programs\<close>

text \<open>
  The next nonce together with the number of accepted transactions, and what a piece of a program
  does to them: from the tracked state \<open>e\<close> it goes on with variables that satisfy \<open>Q\<close> in the
  resulting tracked state, or ends the program in a tracked state that satisfies \<open>F\<close>.
\<close>

definition tracked :: "event list \<Rightarrow> nonce_state \<times> nat" where
  "tracked h = (expected h, length (accepted h))"

fun after ::
  "('s \<Rightarrow> nonce_state \<times> nat \<Rightarrow> bool) \<Rightarrow> (nonce_state \<times> nat \<Rightarrow> bool) \<Rightarrow> ('s + exit) \<times> event list \<Rightarrow> bool" where
  "after Q F (Inl s, h) = Q s (tracked h)"
| "after Q F (Inr x, h) = F (tracked h)"

definition keeps ::
  "nonce_state \<times> nat \<Rightarrow> ('s + exit) script \<Rightarrow> ('s \<Rightarrow> nonce_state \<times> nat \<Rightarrow> bool) \<Rightarrow>
     (nonce_state \<times> nat \<Rightarrow> bool) \<Rightarrow> bool" where
  "keeps e m Q F \<longleftrightarrow> (\<forall>h. tracked h = e \<longrightarrow> after Q F (run_state m h))"

lemma keepsD: "keeps e m Q F \<Longrightarrow> tracked h = e \<Longrightarrow> after Q F (run_state m h)"
  unfolding keeps_def by blast

lemma keeps_go [script_rule]: "Q s e \<Longrightarrow> keeps e (State_Monad.return (Inl s)) Q F"
  by (simp add: keeps_def)

lemma keeps_end [script_rule]: "F e \<Longrightarrow> keeps e (State_Monad.return (Inr x)) Q F"
  by (simp add: keeps_def)

lemma keeps_perform:
  assumes "\<And>h. tracked h = e \<Longrightarrow> keeps (tracked (h @ [ev (f h)])) (k (f h)) Q F"
  shows "keeps e (do { x \<leftarrow> perform f ev; k x }) Q F"
  unfolding keeps_def
proof (intro allI impI)
  fix h
  assume "tracked h = e"
  then have "after Q F (run_state (k (f h)) (h @ [ev (f h)]))" using keepsD [OF assms] by blast
  then show "after Q F (run_state (do { x \<leftarrow> perform f ev; k x }) h)"
    by (simp add: run_state_bind run_perform)
qed

lemma tracked_snoc: "tracked (h @ [e]) =
    (ns_step (fst (tracked h)) e, snd (tracked h) + length (accepted [e]))"
  by (simp add: tracked_def)

text \<open>Events that do not concern the nonce.\<close>

lemma keeps_neutral:
  assumes "\<And>r n. ns_step n (ev r) = n" "\<And>r. accepted [ev r] = []" "\<And>r. keeps e (k r) Q F"
  shows "keeps e (do { x \<leftarrow> perform f ev; k x }) Q F"
  by (rule keeps_perform) (use assms in \<open>simp add: tracked_snoc\<close>)

lemma ns_step_neutral [simp]:
  "ns_step n (EvDial a b) = n" "ns_step n (EvEstimateGas msg g) = n" "ns_step n (EvSuggestGasPrice p) = n"
  "ns_step n (EvReadFile path r) = n" "ns_step n (EvSelect c) = n" "ns_step n (EvSleep d) = n"
  "ns_step n (EvIntn m j) = n"
  by (cases n; simp)+

lemma keeps_select [script_rule]:
  "(\<And>c. keeps e (k c) Q F) \<Longrightarrow> keeps e (do { c \<leftarrow> select nd; k c }) Q F"
  unfolding select_def by (rule keeps_neutral) auto

lemma keeps_sleep [script_rule]:
  "keeps e (k ()) Q F \<Longrightarrow> keeps e (do { u \<leftarrow> sleep d; k u }) Q F"
  unfolding sleep_def by (rule keeps_neutral) auto

lemma keeps_intn [script_rule]:
  "(\<And>j. keeps e (k j) Q F) \<Longrightarrow> keeps e (do { j \<leftarrow> intn nd m; k j }) Q F"
  unfolding intn_def by (rule keeps_neutral) auto

lemma keeps_dial [script_rule]:
  "(\<And>r. keeps e (k r) Q F) \<Longrightarrow> keeps e (do { r \<leftarrow> dial nd host; k r }) Q F"
  unfolding dial_def by (rule keeps_neutral) auto

lemma keeps_estimateGas [script_rule]:
  "(\<And>r. keeps e (k r) Q F) \<Longrightarrow> keeps e (do { r \<leftarrow> estimateGas nd msg; k r }) Q F"
  unfolding estimateGas_def by (rule keeps_neutral) auto

lemma keeps_suggestGasPrice [script_rule]:
  "(\<And>r. keeps e (k r) Q F) \<Longrightarrow> keeps e (do { r \<leftarrow> suggestGasPrice nd; k r }) Q F"
  unfolding suggestGasPrice_def by (rule keeps_neutral) auto

lemma keeps_readFile [script_rule]:
  "(\<And>r. keeps e (k r) Q F) \<Longrightarrow> keeps e (do { r \<leftarrow> readFile nd path; k r }) Q F"
  unfolding readFile_def by (rule keeps_neutral) auto

text \<open>Asking for the nonce, and sending a transaction.\<close>

lemma keeps_nonceAt [script_rule]:
  assumes "fst e \<noteq> Broken" "\<And>n. keeps (Next n, snd e) (k (Inr n)) Q F"
    and "\<And>err. keeps (Unknown, snd e) (k (Inl err)) Q F"
  shows "keeps e (do { r \<leftarrow> nonceAt nd a; k r }) Q F"
  unfolding nonceAt_def
proof (rule keeps_perform)
  fix h
  assume "tracked h = e"
  then show "keeps (tracked (h @ [EvNonceAt a (ndNonceAt nd h a)])) (k (ndNonceAt nd h a)) Q F"
    using assms by (cases "ndNonceAt nd h a"; cases "fst e") (simp_all add: tracked_snoc)
qed

lemma keeps_pendingNonceAt [script_rule]:
  assumes "fst e \<noteq> Broken" "\<And>n. keeps (Next n, snd e) (k (Inr n)) Q F"
    and "\<And>err. keeps (Unknown, snd e) (k (Inl err)) Q F"
  shows "keeps e (do { r \<leftarrow> pendingNonceAt nd a; k r }) Q F"
  unfolding pendingNonceAt_def
proof (rule keeps_perform)
  fix h
  assume "tracked h = e"
  then show "keeps (tracked (h @ [EvPendingNonceAt a (ndPendingNonceAt nd h a)])) (k (ndPendingNonceAt nd h a)) Q F"
    using assms by (cases "ndPendingNonceAt nd h a"; cases "fst e") (simp_all add: tracked_snoc)
qed

lemma keeps_send [script_rule]:
  assumes "txNonce (fst st) = n" "keeps (Next (n + 1), Suc c) (k None) Q F"
    and "\<And>err. keeps (Next n, c) (k (Some err)) Q F"
  shows "keeps (Next n, c) (do { r \<leftarrow> sendRaw nd (Some st); k r }) Q F"
  unfolding sendRaw_def
proof (rule keeps_perform)
  fix h
  assume "tracked h = (Next n, c)"
  then show "keeps (tracked (h @ [EvSend (Some st) (ndSend nd h (Some st))])) (k (ndSend nd h (Some st))) Q F"
    using assms by (cases "ndSend nd h (Some st)") (simp_all add: tracked_snoc)
qed

lemma keeps_case_option [script_rule]:
  "(r = None \<Longrightarrow> keeps e m Q F) \<Longrightarrow> (\<And>x. r = Some x \<Longrightarrow> keeps e (k x) Q F) \<Longrightarrow>
   keeps e (case r of None \<Rightarrow> m | Some x \<Rightarrow> k x) Q F"
  by (cases r) auto

lemma keeps_case_sum [script_rule]:
  "(\<And>x. r = Inl x \<Longrightarrow> keeps e (m x) Q F) \<Longrightarrow> (\<And>x. r = Inr x \<Longrightarrow> keeps e (k x) Q F) \<Longrightarrow>
   keeps e (case r of Inl x \<Rightarrow> m x | Inr x \<Rightarrow> k x) Q F"
  by (cases r) auto

lemma keeps_case_select [script_rule]:
  "keeps e m1 Q F \<Longrightarrow> keeps e m2 Q F \<Longrightarrow> keeps e m3 Q F \<Longrightarrow>
   keeps e (case c of TimerCase \<Rightarrow> m1 | TickerCase \<Rightarrow> m2 | DefaultCase \<Rightarrow> m3) Q F"
  by (cases c) auto

lemma keeps_if [script_rule]:
  "(b \<Longrightarrow> keeps e m1 Q F) \<Longrightarrow> (\<not> b \<Longrightarrow> keeps e m2 Q F) \<Longrightarrow> keeps e (if b then m1 else m2) Q F"
  by simp

lemma keeps_askNonce [script_rule]:
  assumes "fst e \<noteq> Broken" "\<And>n. Q (k n) (Next n, snd e)" "F (Unknown, snd e)"
  shows "keeps e (askNonce nd a pause k) Q F"
  unfolding askNonce_def
  by (intro keeps_sleep keeps_nonceAt) (use assms in \<open>auto intro: keeps_go keeps_end\<close>)

lemma keeps_retryNonce [script_rule]:
  assumes "fst e \<noteq> Broken" "\<And>n. Q (k n) (Next n, snd e)" "Q again (Unknown, snd e)"
  shows "keeps e (retryNonce nd a pause k again) Q F"
  unfolding retryNonce_def
  by (intro keeps_nonceAt) (use assms in \<open>auto intro: keeps_go keeps_sleep\<close>)

lemma keeps_timerOrDefault [script_rule]:
  "(\<And>b. keeps e (k b) Q F) \<Longrightarrow> keeps e (do { b \<leftarrow> timerOrDefault nd; k b }) Q F"
  unfolding timerOrDefault_def by (rule keeps_neutral) auto

lemma keeps_iterate:
  assumes "\<And>s e. Q s e \<Longrightarrow> keeps e (body s) Q F"
  shows "Q s e \<Longrightarrow> keeps e (iterate k body s) Q F"
proof (induction k arbitrary: s e)
  case 0
  then show ?case by (simp add: keeps_go)
next
  case (Suc k)
  have b: "keeps e (body s) Q F" using assms Suc.prems .
  show ?case
    unfolding keeps_def
  proof (intro allI impI)
    fix h
    assume h: "tracked h = e"
    obtain r h1 where r: "run_state (body s) h = (r, h1)" by fastforce
    show "after Q F (run_state (iterate (Suc k) body s) h)"
    proof (cases r)
      case (Inl s1)
      then have "Q s1 (tracked h1)" using keepsD [OF b h] r by simp
      from keepsD [OF Suc.IH [OF this] refl] show ?thesis using Inl r by (simp add: run_state_bind)
    next
      case (Inr x)
      then show ?thesis using keepsD [OF b h] r by (simp add: run_state_bind)
    qed
  qed
qed

lemma keeps_withAccount:
  assumes "\<And>key n. keeps (Next n, 0) (k key (PubkeyToAddress lib key) n) Q F" "F (Unknown, 0)"
  shows "keeps (Unknown, 0) (withAccount lib nd host hexKey e1 e2 k) Q F"
  unfolding withAccount_def
  by (intro keeps_dial keeps_case_option keeps_case_sum keeps_nonceAt keeps_end) (use assms in auto)

text \<open>
  The contract of the loop of a sender: \<open>nonce\<close> and \<open>count\<close> read the variables of the loop, \<open>limit\<close> is the
  number of transactions after which it stops. A turn keeps the nonce variable equal to
  the next nonce and counts the accepted transactions, or ends the program within the limit.
\<close>

definition below :: "nat option \<Rightarrow> nat \<Rightarrow> bool" where
  "below limit c \<longleftrightarrow> (case limit of None \<Rightarrow> True | Some l \<Rightarrow> c < l)"

definition within :: "nat option \<Rightarrow> nat \<Rightarrow> bool" where
  "within limit c \<longleftrightarrow> (case limit of None \<Rightarrow> True | Some l \<Rightarrow> c \<le> l)"

lemma below_within [simp]: "below limit c \<Longrightarrow> within limit c" "below limit c \<Longrightarrow> within limit (Suc c)"
  by (auto simp: below_def within_def split: option.splits)

lemma below_None [simp]: "below None c" by (simp add: below_def)

locale sender =
  fixes body :: "'s \<Rightarrow> ('s + exit) script" and view :: "'s \<Rightarrow> nonce_state \<times> nat" and limit :: "nat option"
  assumes turn: "below limit (snd (view s)) \<Longrightarrow> fst (view s) \<noteq> Broken \<Longrightarrow>
      keeps (view s) (body s) (\<lambda>s' e. e = view s' \<and> fst e \<noteq> Broken \<and> below limit (snd e))
        (\<lambda>e. fst e \<noteq> Broken \<and> within limit (snd e))"
begin

lemma turns:
  assumes "tracked h = view s" "fst (view s) \<noteq> Broken" "below limit (snd (view s))"
  shows "disciplined (snd (run_state (iterate k body s) h)) \<and>
    within limit (length (accepted (snd (run_state (iterate k body s) h))))"
proof -
  have "keeps (view s) (iterate k body s) (\<lambda>s' e. e = view s' \<and> fst e \<noteq> Broken \<and> below limit (snd e))
        (\<lambda>e. fst e \<noteq> Broken \<and> within limit (snd e))"
    by (rule keeps_iterate) (use turn assms in auto)
  from keepsD [OF this assms(1)] show ?thesis
    by (cases "run_state (iterate k body s) h"; cases "fst (run_state (iterate k body s) h)")
       (auto simp: disciplined_def tracked_def)
qed

end

text \<open>A program that starts with \<^const>\<open>withAccount\<close> and goes on in a disciplined way is disciplined.\<close>

lemma withAccount_disciplined:
  assumes "\<And>key n h. tracked h = (Next n, 0) \<Longrightarrow>
      P (snd (run_state (k key (PubkeyToAddress lib key) n) h))"
    and "\<And>h. expected h = Unknown \<Longrightarrow> accepted h = [] \<Longrightarrow> P h"
  shows "P (snd (run_state (withAccount lib nd host hexKey e1 e2 k) []))"
proof (cases "ndDial nd [] host")
  case None
  note dial = None
  show ?thesis
  proof (cases "HexToECDSA lib hexKey")
    case (Inl e)
    then show ?thesis using None assms(2) [of "[EvDial host None]"]
      by (simp add: withAccount_def run_script expected_def)
  next
    case (Inr key)
    let ?a = "PubkeyToAddress lib key"
    let ?h = "[EvDial host None, EvNonceAt ?a (ndNonceAt nd [EvDial host None] ?a)]"
    show ?thesis
    proof (cases "ndNonceAt nd [EvDial host None] ?a")
      case (Inl e)
      then show ?thesis using assms(2) [of ?h] dial Inr
        by (simp add: withAccount_def run_script expected_def)
    next
      case nonce: (Inr n)
      then show ?thesis using assms(1) [of ?h n key] dial Inr
        by (simp add: withAccount_def run_script expected_def tracked_def)
    qed
  qed
next
  case (Some e)
  then show ?thesis using assms(2) [of "[EvDial host (Some e)]"]
    by (simp add: withAccount_def run_script expected_def)
qed

section \<open>Programs add events\<close>

definition grows :: "'a script \<Rightarrow> bool" where
  "grows m \<longleftrightarrow> (\<forall>h. \<exists>h'. snd (run_state m h) = h @ h')"

named_theorems grow_rule

lemma grows_return [grow_rule]: "grows (State_Monad.return x)"
  by (simp add: grows_def)

lemma grows_perform: "grows (perform f e)"
  by (simp add: grows_def run_perform)

lemma grows_ops [grow_rule]:
  "grows (dial nd host)" "grows (nonceAt nd a)" "grows (pendingNonceAt nd a)" "grows (estimateGas nd msg)"
  "grows (suggestGasPrice nd)" "grows (sendRaw nd tx)" "grows (readFile nd path)" "grows (select nd)"
  "grows (sleep d)" "grows (intn nd n)" "grows (timerOrDefault nd)"
  unfolding script_ops timerOrDefault_def by (rule grows_perform)+

lemma grows_bind [grow_rule]:
  assumes "grows m" "\<And>x. grows (k x)"
  shows "grows (do { x \<leftarrow> m; k x })"
  unfolding grows_def
proof
  fix h
  obtain x h1 where m: "run_state m h = (x, h @ h1)" using assms(1) by (auto simp: grows_def) (metis prod.collapse)
  obtain h2 where "snd (run_state (k x) (h @ h1)) = (h @ h1) @ h2" using assms(2) unfolding grows_def by blast
  then show "\<exists>h'. snd (run_state (do { x \<leftarrow> m; k x }) h) = h @ h'" using m by (simp add: run_state_bind)
qed

lemma grows_cases [grow_rule]:
  "(\<And>x. grows (k x)) \<Longrightarrow> grows m \<Longrightarrow> grows (case r of None \<Rightarrow> m | Some x \<Rightarrow> k x)"
  "(\<And>x. grows (f x)) \<Longrightarrow> (\<And>x. grows (g x)) \<Longrightarrow> grows (case q of Inl x \<Rightarrow> f x | Inr x \<Rightarrow> g x)"
  "grows m1 \<Longrightarrow> grows m2 \<Longrightarrow> grows m3 \<Longrightarrow>
     grows (case c of TimerCase \<Rightarrow> m1 | TickerCase \<Rightarrow> m2 | DefaultCase \<Rightarrow> m3)"
  "grows m1 \<Longrightarrow> grows m2 \<Longrightarrow> grows (if b then m1 else m2)"
  by (auto split: option.splits sum.splits select_case.splits)

lemma grows_ask [grow_rule]: "grows (askNonce nd a pause f)" "grows (retryNonce nd a pause f again)"
  unfolding askNonce_def retryNonce_def by (intro grow_rule)+

lemma grows_iterate: "(\<And>s. grows (body s)) \<Longrightarrow> grows (iterate k body s)"
  by (induction k arbitrary: s) (auto intro!: grow_rule)

text \<open>What has been broken stays broken.\<close>

lemma grows_broken:
  assumes "grows m" "expected h = Broken"
  shows "expected (snd (run_state m h)) = Broken"
proof -
  obtain h' where h': "snd (run_state m h) = h @ h'" using assms(1) unfolding grows_def by blast
  have "foldl ns_step Broken h' = Broken" by (induction h') auto
  then show ?thesis using assms(2) by (simp add: h' expected_def)
qed

section \<open>Consecutive nonces\<close>

text \<open>The events of a whole run.\<close>

definition events :: "'a script \<Rightarrow> event list" where
  "events m = snd (run_state m [])"

text \<open>
  A node that counts: every nonce it tells is \<open>base\<close> plus the number of transactions it has accepted.
\<close>

fun counting :: "64 word \<Rightarrow> event list \<Rightarrow> bool" where
  "counting base [] \<longleftrightarrow> True"
| "counting base (EvNonceAt a (Inr n) # h) \<longleftrightarrow> n = base \<and> counting base h"
| "counting base (EvPendingNonceAt a (Inr n) # h) \<longleftrightarrow> n = base \<and> counting base h"
| "counting base (EvSend (Some st) None # h) \<longleftrightarrow> counting (base + 1) h"
| "counting base (_ # h) \<longleftrightarrow> counting base h"

definition consecutive :: "64 word \<Rightarrow> 64 word list \<Rightarrow> bool" where
  "consecutive base ns \<longleftrightarrow> ns = map (\<lambda>i. base + word_of_nat i) [0..<length ns]"

lemma consecutive_Nil [simp]: "consecutive base []"
  by (simp add: consecutive_def)

lemma consecutive_Cons [simp]: "consecutive base (n # ns) \<longleftrightarrow> n = base \<and> consecutive (base + 1) ns"
proof -
  have "map (\<lambda>i. base + word_of_nat i) [0..<Suc (length ns)] =
      base # map (\<lambda>i. base + 1 + word_of_nat i) [0..<length ns]"
    by (rule nth_equalityI) (auto simp: nth_Cons upt_conv_Cons simp del: upt_Suc split: nat.splits)
  then show ?thesis by (auto simp: consecutive_def simp del: upt_Suc)
qed

lemma consecutive_distinct:
  assumes "consecutive base ns" "length ns \<le> 2 ^ 64"
  shows "distinct ns"
proof -
  have "inj_on (\<lambda>i. base + (word_of_nat i :: 64 word)) {0..<length ns}"
  proof (rule inj_onI)
    fix i j
    assume i: "i \<in> {0..<length ns}" and j: "j \<in> {0..<length ns}"
      and eq: "base + (word_of_nat i :: 64 word) = base + word_of_nat j"
    then have "unat (word_of_nat i :: 64 word) = unat (word_of_nat j :: 64 word)" by simp
    then show "i = j" using i j assms(2) by (simp add: unat_of_nat take_bit_nat_eq_self)
  qed
  then show ?thesis using assms(1) by (metis consecutive_def distinct_map distinct_upt set_upt)
qed

lemma foldl_Broken: "foldl ns_step Broken h = Broken"
  by (induction h) auto

lemma ns_step_refused:
  "ns_step (Next n) (EvSend v (Some e)) = (case v of Some st \<Rightarrow> (if txNonce (fst st) = n then Next n else Broken) | None \<Rightarrow> Broken)"
  by (cases v) auto

lemma counting_consecutive:
  "foldl ns_step s h \<noteq> Broken \<Longrightarrow> counting base h \<Longrightarrow> s = Unknown \<or> s = Next base \<Longrightarrow>
   consecutive base (map txNonce (accepted h))"
proof (induction base h arbitrary: s rule: counting.induct)
  case (4 base st h)
  then have "s = Next base" and "txNonce (fst st) = base"
    by (auto simp: foldl_Broken split: if_splits)
  then show ?case using 4 by auto
qed (auto simp: foldl_Broken ns_step_refused split: if_splits option.splits)

text \<open>
  A disciplined sender and a node that counts give each accepted transaction the next nonce, with
  no gap and no nonce used twice.
\<close>

lemma disciplined_consecutive:
  "disciplined h \<Longrightarrow> counting base h \<Longrightarrow> consecutive base (map txNonce (accepted h))"
  by (rule counting_consecutive [of Unknown]) (auto simp: disciplined_def expected_def)

end
