(* ===== verification/Senders.thy ===== *)
theory Senders
  imports Script
begin

text \<open>
  The programs that send transactions in a loop, one goroutine per private key. Each body of a loop is
  one turn of its select statement on the variables \<^verbatim>\<open>nonce\<close> and \<^verbatim>\<open>i\<close>; each program is shown to
  keep the discipline of nonces by interpreting the locale \<open>sender\<close>.
\<close>

section \<open>src/transfer/transfer.go\<close>

type_synonym counters = "64 word \<times> nat"

definition transfer_host :: string where "transfer_host = ''http://10.0.0.4:33333''"
definition transfer_sleepDuration :: int where "transfer_sleepDuration = minute * 1000"
definition transfer_txNum :: int where "transfer_txNum = 1"

definition transfer_privKeys :: "string list" where
  "transfer_privKeys = [''d29ce71545474451d8292838d4a0680a8444e6e4c14da018b4a08345fb2bbb84'']"

text \<open>The conversion \<^verbatim>\<open>string(i)\<close> of an integer: the UTF-8 encoding of the code point.\<close>

definition runeBytes :: "nat \<Rightarrow> 8 word list" where
  "runeBytes i =
     (if i < 0x80 then [word_of_nat i]
      else if i < 0x800 then [word_of_nat (0xC0 + i div 64), word_of_nat (0x80 + i mod 64)]
      else if 0x110000 \<le> i \<or> (0xD800 \<le> i \<and> i < 0xE000) then [0xEF, 0xBF, 0xBD]
      else if i < 0x10000 then
        [word_of_nat (0xE0 + i div 4096), word_of_nat (0x80 + i div 64 mod 64), word_of_nat (0x80 + i mod 64)]
      else
        [word_of_nat (0xF0 + i div 262144), word_of_nat (0x80 + i div 4096 mod 64),
         word_of_nat (0x80 + i div 64 mod 64), word_of_nat (0x80 + i mod 64)])"

definition limitReached :: "int \<Rightarrow> nat \<Rightarrow> bool" where
  "limitReached txNum i \<longleftrightarrow> txNum \<noteq> -1 \<and> txNum \<le> int i"

definition transfer_tx :: "64 word \<Rightarrow> nat \<Rightarrow> transaction" where
  "transfer_tx nonce i =
     NewTransaction nonce (HexToAddress ''0x48c60bdeed69477460127c28b27e43a7ad442b9a'')
       (1 * 10 ^ 18) 22000 (10 ^ 9 * 4000) (runeBytes i)"

definition transfer_body :: "cryptolib \<Rightarrow> node \<Rightarrow> privkey \<Rightarrow> address \<Rightarrow> counters \<Rightarrow> (counters + exit) script" where
  "transfer_body lib nd key from s =
     (let (nonce, i) = s in
      do {
        c \<leftarrow> select nd;
        case c of
          TimerCase \<Rightarrow> State_Monad.return (Inr Return)
        | TickerCase \<Rightarrow> askNonce nd from transfer_sleepDuration (\<lambda>n. (n, i))
        | DefaultCase \<Rightarrow>
            do {
              err \<leftarrow> sendRaw nd (orNil (SignTx lib (transfer_tx nonce i) (EIP155Signer 222) key));
              case err of
                Some _ \<Rightarrow> do { r \<leftarrow> nonceAt nd from; State_Monad.return (Inr Return) }
              | None \<Rightarrow>
                  if limitReached transfer_txNum (i + 1) then State_Monad.return (Inr Return)
                  else State_Monad.return (Inl (nonce + 1, i + 1))
            }
      })"

text \<open>The first \<open>k\<close> turns of \<^verbatim>\<open>sendTestTx\<close>.\<close>

definition transfer_sendTestTx :: "cryptolib \<Rightarrow> node \<Rightarrow> nat \<Rightarrow> string \<Rightarrow> (counters + exit) script" where
  "transfer_sendTestTx lib nd k privKey =
     withAccount lib nd transfer_host privKey Return Return
       (\<lambda>key from nonce. iterate k (transfer_body lib nd key from) (nonce, 0))"

text \<open>The goroutines that \<^verbatim>\<open>main\<close> starts: a private key and the text that marks its output.\<close>

definition goroutines :: "string list \<Rightarrow> (string \<times> string) list" where
  "goroutines keys = map (\<lambda>(i, key). (key, itoa i @ '':'')) (enumerate 0 keys)"

definition transfer_main :: "(string \<times> string) list" where
  "transfer_main = goroutines transfer_privKeys"

fun viewCounters :: "counters \<Rightarrow> nonce_state \<times> nat" where
  "viewCounters (nonce, i) = (Next nonce, i)"

definition limitOf :: "int \<Rightarrow> nat option" where
  "limitOf txNum = (if txNum = -1 then None else Some (nat txNum))"

lemma limitReached_below [simp]:
  "below (limitOf txNum) i \<Longrightarrow> \<not> limitReached txNum (Suc i) \<Longrightarrow> below (limitOf txNum) (Suc i)"
  by (auto simp: limitOf_def limitReached_def below_def split: if_splits)

interpretation transfer: sender "transfer_body (withSigning lib) nd key a" viewCounters
    "limitOf transfer_txNum" for lib nd key a
  by unfold_locales
     (auto simp: split_paired_all transfer_body_def transfer_tx_def intro!: script_rule)

section \<open>src/callsol/transfer.go\<close>

definition callsol_host1 :: string where "callsol_host1 = ''http://127.0.0.1:8547''"
definition callsol_sleepDuration :: int where "callsol_sleepDuration = minute * 100"
definition callsol_txNum :: int where "callsol_txNum = 10000"

definition callsol_privKeys :: "string list" where
  "callsol_privKeys = [''d29ce71545474451d8292838d4a0680a8444e6e4c14da018b4a08345fb2bbb84'']"

definition callsol_tx :: "64 word \<Rightarrow> transaction" where
  "callsol_tx nonce =
     NewTransaction nonce (HexToAddress ''0x7de2a31d6ca36302ea7b7917c4fc5ef4c12913b6'')
       (10 * 10 ^ 18) 21000 (10 ^ 9 * 1000) []"

text \<open>
  The default case of this and the following programs: sign, return when that fails, send, ask for
  the nonce and return when that fails, and count.
\<close>

definition signSendCount ::
  "cryptolib \<Rightarrow> node \<Rightarrow> privkey \<Rightarrow> address \<Rightarrow> transaction \<Rightarrow> signer \<Rightarrow> int \<Rightarrow> counters \<Rightarrow> (counters + exit) script" where
  "signSendCount lib nd key from tx sg txNum s =
     (let (nonce, i) = s in
      case SignTx lib tx sg key of
        Inl _ \<Rightarrow> State_Monad.return (Inr Return)
      | Inr st \<Rightarrow>
          do {
            err \<leftarrow> sendRaw nd (Some st);
            case err of
              Some _ \<Rightarrow> do { r \<leftarrow> nonceAt nd from; State_Monad.return (Inr Return) }
            | None \<Rightarrow>
                if limitReached txNum (i + 1) then State_Monad.return (Inr Return)
                else State_Monad.return (Inl (nonce + 1, i + 1))
          })"

definition callsol_body :: "cryptolib \<Rightarrow> node \<Rightarrow> privkey \<Rightarrow> address \<Rightarrow> counters \<Rightarrow> (counters + exit) script" where
  "callsol_body lib nd key from s =
     (let (nonce, i) = s in
      do {
        c \<leftarrow> select nd;
        case c of
          TimerCase \<Rightarrow> State_Monad.return (Inr Return)
        | TickerCase \<Rightarrow> askNonce nd from callsol_sleepDuration (\<lambda>n. (n, i))
        | DefaultCase \<Rightarrow>
            signSendCount lib nd key from (callsol_tx nonce) (EIP155Signer 777) callsol_txNum s
      })"

definition callsol_sendTestTx :: "cryptolib \<Rightarrow> node \<Rightarrow> nat \<Rightarrow> string \<Rightarrow> (counters + exit) script" where
  "callsol_sendTestTx lib nd k privKey =
     withAccount lib nd callsol_host1 privKey Return Return
       (\<lambda>key from nonce. iterate k (callsol_body lib nd key from) (nonce, 0))"

definition callsol_main :: "(string \<times> string) list" where
  "callsol_main = goroutines callsol_privKeys"

lemma SignTx_Inr: "SignTx lib tx s k = Inr st \<Longrightarrow> fst st = tx"
  by (auto simp: SignTx_def split: option.splits)

lemma keeps_signSendCount [script_rule]:
  assumes "txNonce tx = nonce" "below (limitOf txNum) i"
  shows "keeps (Next nonce, i) (signSendCount lib nd key a tx sg txNum (nonce, i))
     (\<lambda>s' e. e = viewCounters s' \<and> fst e \<noteq> Broken \<and> below (limitOf txNum) (snd e))
     (\<lambda>e. fst e \<noteq> Broken \<and> within (limitOf txNum) (snd e))"
  unfolding signSendCount_def using assms by (auto intro!: script_rule dest: SignTx_Inr)

interpretation callsol: sender "callsol_body lib nd key a" viewCounters "limitOf callsol_txNum"
  for lib nd key a
  by unfold_locales (auto simp: split_paired_all callsol_body_def callsol_tx_def intro!: script_rule)

section \<open>src/callsol/sol/callsol2.go\<close>

definition callsol2_sleepDuration :: int where "callsol2_sleepDuration = minute * 10"
definition callsol2_txNum :: int where "callsol2_txNum = 100000"

definition callsol2_privKeys :: "string list" where
  "callsol2_privKeys =
     [''a9f1481564399443bb39188d3f8da55585c9238ab175010b81e7a28956559381'',
      ''d29ce71545474451d8292838d4a0680a8444e6e4c14da018b4a08345fb2bbb84'',
      ''009f1dfe52be1015970d9087de0ad2a98f4c68f610711d1533aa21a71ccc8f4a'',
      ''69192206e447dbc8b6627d7beb540e6c606c5b94afa9ebc00734ff404a1e5617'']"

definition callsol2_input :: string where
  "callsol2_input =
     ''0x841321fd0000000000000000000000000000000000000000000000000000000000000020'' @
     ''0000000000000000000000000000000000000000000000000000000000000001'' @
     ''3100000000000000000000000000000000000000000000000000000000000000''"

text \<open>The error of \<^verbatim>\<open>hex.DecodeString\<close> is ignored.\<close>

definition callsol2_tx :: "64 word \<Rightarrow> transaction" where
  "callsol2_tx nonce =
     NewTransaction nonce (HexToAddress ''0xDa3Ce11D916fFBa4a1289cEf66A7f142eC5A0f74'')
       (0 * 10 ^ 18) 21000 (10 ^ 9 * 4000) (fst (hexDecodeString callsol2_input))"

definition callsol2_body :: "cryptolib \<Rightarrow> node \<Rightarrow> privkey \<Rightarrow> address \<Rightarrow> counters \<Rightarrow> (counters + exit) script" where
  "callsol2_body lib nd key from s =
     (let (nonce, i) = s in
      do {
        c \<leftarrow> select nd;
        case c of
          TimerCase \<Rightarrow> State_Monad.return (Inr Return)
        | TickerCase \<Rightarrow> askNonce nd from callsol2_sleepDuration (\<lambda>n. (n, i))
        | DefaultCase \<Rightarrow>
            signSendCount lib nd key from (callsol2_tx nonce) (EIP155Signer 111) callsol2_txNum s
      })"

definition callsol2_sendTestTx :: "cryptolib \<Rightarrow> node \<Rightarrow> nat \<Rightarrow> string \<Rightarrow> (counters + exit) script" where
  "callsol2_sendTestTx lib nd k privKey =
     withAccount lib nd ''http://127.0.0.1:8547'' privKey Return Return
       (\<lambda>key from nonce. iterate k (callsol2_body lib nd key from) (nonce, 0))"

definition callsol2_main :: "(string \<times> string) list" where
  "callsol2_main = goroutines callsol2_privKeys"

interpretation callsol2: sender "callsol2_body lib nd key a" viewCounters "limitOf callsol2_txNum"
  for lib nd key a
  by unfold_locales (auto simp: split_paired_all callsol2_body_def callsol2_tx_def intro!: script_rule)

section \<open>src/callsol/sm2Transfer.go and src/callsol/fuwuqi/sm2fuwuqi.go\<close>

text \<open>\<^verbatim>\<open>new(big.Int).SetString(s, 16)\<close>\<close>

definition SetString16 :: "string \<Rightarrow> int option" where
  "SetString16 s =
     (let (neg, ds) = (case s of CHR ''-'' # r \<Rightarrow> (True, r) | CHR ''+'' # r \<Rightarrow> (False, r) | _ \<Rightarrow> (False, s)) in
      if ds = [] then None
      else case parse_digits 16 0 ds of
             None \<Rightarrow> None
           | Some n \<Rightarrow> Some (if neg then - int n else int n))"

definition sm2_to :: "nat \<Rightarrow> address" where
  "sm2_to i = HexToAddress (''0x08b299d855734914cd7b19eea60dc84b'' @ itoa i @ ''25680f'' @ itoa i)"

definition sm2_tx :: "64 word \<Rightarrow> nat \<Rightarrow> transaction" where
  "sm2_tx nonce i = NewTransaction nonce (sm2_to i) (0 * 10 ^ 18) 22000 (10 ^ 9 * 4000) []"

text \<open>The programs with an SM2 key; \<open>err\<close> of the RLP encoder ends the first of them.\<close>

definition withSm2Account ::
  "cryptolib \<Rightarrow> node \<Rightarrow> string \<Rightarrow> string \<Rightarrow> (privkey \<Rightarrow> address \<Rightarrow> 64 word \<Rightarrow> ('s + exit) script) \<Rightarrow>
     ('s + exit) script" where
  "withSm2Account lib nd host privKey k =
     do {
       err \<leftarrow> dial nd host;
       case err of
         Some _ \<Rightarrow> State_Monad.return (Inr Return)
       | None \<Rightarrow>
           (case SetString16 privKey of
              None \<Rightarrow> State_Monad.return (Inr Return)
            | Some sbin \<Rightarrow>
                do {
                  r \<leftarrow> nonceAt nd (PubkeyToAddress lib (Sm2InitKey lib sbin));
                  case r of
                    Inl _ \<Rightarrow> State_Monad.return (Inr Return)
                  | Inr nonce \<Rightarrow>
                      k (Sm2InitKey lib sbin) (PubkeyToAddress lib (Sm2InitKey lib sbin)) nonce
                })
     }"

definition sm2_txNum1 :: int where "sm2_txNum1 = 1"

definition sm2_body :: "cryptolib \<Rightarrow> node \<Rightarrow> privkey \<Rightarrow> address \<Rightarrow> counters \<Rightarrow> (counters + exit) script" where
  "sm2_body lib nd key from s =
     (let (nonce, i) = s in
      do {
        c \<leftarrow> select nd;
        case c of
          TimerCase \<Rightarrow> State_Monad.return (Inr Return)
        | TickerCase \<Rightarrow> askNonce nd from (minute * 1) (\<lambda>n. (n, i))
        | DefaultCase \<Rightarrow>
            (let st = orNil (SignTx lib (sm2_tx nonce i) (Sm2Signer 777) key) in
             if RlpErr lib st \<noteq> None then State_Monad.return (Inr Return)
             else
               do {
                 err \<leftarrow> sendRaw nd st;
                 case err of
                   Some _ \<Rightarrow> State_Monad.return (Inr Return)
                 | None \<Rightarrow>
                     if limitReached sm2_txNum1 (i + 1) then State_Monad.return (Inr Return)
                     else State_Monad.return (Inl (nonce + 1, i + 1))
               })
      })"

definition sm2_sendTestTx1 :: "cryptolib \<Rightarrow> node \<Rightarrow> nat \<Rightarrow> string \<Rightarrow> (counters + exit) script" where
  "sm2_sendTestTx1 lib nd k privKey =
     withSm2Account lib nd ''http://10.0.0.113:22222'' privKey
       (\<lambda>key from nonce. iterate k (sm2_body lib nd key from) (nonce, 0))"

definition sm2_main :: "(string \<times> string) list" where
  "sm2_main = goroutines [''72660cbaef2ca607751c0514922ca995a566f5bd508ccfae4896265db856d115'']"

interpretation sm2: sender "sm2_body (withSigning lib) nd key a" viewCounters "limitOf sm2_txNum1"
  for lib nd key a
  by unfold_locales (auto simp: split_paired_all sm2_body_def sm2_tx_def Let_def intro!: script_rule)

definition sm2fuwuqi_txNum1 :: int where "sm2fuwuqi_txNum1 = -1"

definition sm2fuwuqi_body :: "cryptolib \<Rightarrow> node \<Rightarrow> privkey \<Rightarrow> address \<Rightarrow> counters \<Rightarrow> (counters + exit) script" where
  "sm2fuwuqi_body lib nd key from s =
     (let (nonce, i) = s in
      do {
        c \<leftarrow> select nd;
        case c of
          TimerCase \<Rightarrow> State_Monad.return (Inr Return)
        | TickerCase \<Rightarrow> askNonce nd from (minute * 1) (\<lambda>n. (n, i))
        | DefaultCase \<Rightarrow>
            do {
              err \<leftarrow> sendRaw nd (orNil (SignTx lib (sm2_tx nonce i) (Sm2Signer 777) key));
              case err of
                Some _ \<Rightarrow> do { r \<leftarrow> nonceAt nd from; State_Monad.return (Inr Return) }
              | None \<Rightarrow>
                  if limitReached sm2fuwuqi_txNum1 (i + 1) then State_Monad.return (Inr Return)
                  else State_Monad.return (Inl (nonce + 1, i + 1))
            }
      })"

definition sm2fuwuqi_sendTestTx1 :: "cryptolib \<Rightarrow> node \<Rightarrow> nat \<Rightarrow> string \<Rightarrow> (counters + exit) script" where
  "sm2fuwuqi_sendTestTx1 lib nd k privKey =
     withSm2Account lib nd ''http://127.0.0.1:8547'' privKey
       (\<lambda>key from nonce. iterate k (sm2fuwuqi_body lib nd key from) (nonce, 0))"

interpretation sm2fuwuqi: sender "sm2fuwuqi_body (withSigning lib) nd key a" viewCounters
    "limitOf sm2fuwuqi_txNum1" for lib nd key a
  by unfold_locales (auto simp: split_paired_all sm2fuwuqi_body_def sm2_tx_def intro!: script_rule)

section \<open>src/callsol/fuwuqi/transferfuwuqi.go\<close>

text \<open>
  The range of private keys that the flags \<open>start\<close> and \<open>end\<close> choose, both cut to \<open>m\<close>; \<^term>\<open>None\<close> is the
  panic of the slice expression when its bounds are out of range.
\<close>

definition keyRange :: "int \<Rightarrow> string list \<Rightarrow> int \<Rightarrow> int \<Rightarrow> string list option" where
  "keyRange m keys start end' =
     (let s = (if m \<le> start then m else start); e = (if m \<le> end' then m else end') in
      if 0 \<le> s \<and> s \<le> e \<and> e \<le> int (length keys) then Some (take (nat e - nat s) (drop (nat s) keys))
      else None)"

definition transferfuwuqi_main :: "string list \<Rightarrow> int \<Rightarrow> int \<Rightarrow> (string \<times> string) list option" where
  "transferfuwuqi_main privKeys start end' = map_option goroutines (keyRange 30000 privKeys start end')"

definition transferfuwuqi_txNum :: int where "transferfuwuqi_txNum = -1"

definition transferfuwuqi_tx :: "64 word \<Rightarrow> nat \<Rightarrow> transaction" where
  "transferfuwuqi_tx nonce x =
     NewTransaction nonce
       (HexToAddress (''0x08b299d855734914cd7b19eea60c84b'' @ itoa x @ ''256840'' @ itoa (x + 1)))
       (0 * 10 ^ 18) 21000 (10 ^ 9 * 4000) []"

definition transferfuwuqi_body ::
  "cryptolib \<Rightarrow> node \<Rightarrow> nat \<Rightarrow> privkey \<Rightarrow> address \<Rightarrow> counters \<Rightarrow> (counters + exit) script" where
  "transferfuwuqi_body lib nd x key from s =
     (let (nonce, i) = s in
      do {
        c \<leftarrow> select nd;
        case c of
          TimerCase \<Rightarrow> State_Monad.return (Inr Return)
        | TickerCase \<Rightarrow> askNonce nd from (minute * 1) (\<lambda>n. (n, i))
        | DefaultCase \<Rightarrow>
            signSendCount lib nd key from (transferfuwuqi_tx nonce x) (EIP155Signer 777) transferfuwuqi_txNum s
      })"

definition transferfuwuqi_sendTestTx ::
  "cryptolib \<Rightarrow> node \<Rightarrow> nat \<Rightarrow> string \<Rightarrow> string \<Rightarrow> nat \<Rightarrow> (counters + exit) script" where
  "transferfuwuqi_sendTestTx lib nd k host privKey x =
     withAccount lib nd host privKey Return Return
       (\<lambda>key from nonce. iterate k (transferfuwuqi_body lib nd x key from) (nonce, 0))"

interpretation transferfuwuqi: sender "transferfuwuqi_body lib nd x key a" viewCounters
    "limitOf transferfuwuqi_txNum" for lib nd x key a
  by unfold_locales
     (auto simp: split_paired_all transferfuwuqi_body_def transferfuwuqi_tx_def intro!: script_rule)

end
