(* ===== verification/ContractSenders.thy ===== *)
theory ContractSenders
  imports Senders
begin

text \<open>
  The programs that call contracts and chaincode in a loop. Their payloads are hexadecimal literals, which
  \<^verbatim>\<open>common.Hex2Bytes\<close> decodes without reporting errors, or protocol buffers.
\<close>

section \<open>Payloads\<close>

text \<open>
  The call of \<^verbatim>\<open>setGreeting\<close>: selector, offset, length and text, as the literals of the programs
  have it; \<open>n\<close> is the length of the text \<open>digits\<close> in hexadecimal.
\<close>

definition greetingInput :: "char \<Rightarrow> string \<Rightarrow> string" where
  "greetingInput n digits =
     ''a4136862'' @ replicate 62 (CHR ''0'') @ ''20'' @ replicate 63 (CHR ''0'') @ [n] @
     digits @ replicate (64 - length digits) (CHR ''0'')"

definition greetings :: "string list" where
  "greetings =
     map (greetingInput (CHR ''1'')) [''31'', ''32'', ''33'', ''34'', ''35'', ''36'', ''37'', ''38'', ''39''] @
     [greetingInput (CHR ''2'') ''3130'', greetingInput (CHR ''3'') ''313030''] @
     map (greetingInput (CHR ''1'')) [''61'', ''62'', ''63'', ''64'', ''65'', ''66'', ''67'']"

text \<open>A literal of the source that has a blank after its first \<open>k\<close> digits.\<close>

definition withBlank :: "nat \<Rightarrow> string \<Rightarrow> string" where
  "withBlank k s = take k s @ '' '' @ drop k s"

definition invokePayload ::
  "cryptolib \<Rightarrow> string \<Rightarrow> 8 word list list \<Rightarrow> (string \<times> 8 word list) list \<Rightarrow> string + 8 word list" where
  "invokePayload lib fcn args meta =
     ProtoMarshal lib (PTransaction 1
       (case ProtoMarshal lib (Invocation fcn args meta) of Inl _ \<Rightarrow> [] | Inr payload \<Rightarrow> payload))"

section \<open>src/cc.go\<close>

text \<open>
  The variables of the loop: the nonce and the number of transactions (the loop counter is that
  number above a random start), or the nested loop that repeats the question for the nonce.
\<close>

datatype cc_state = CCTurn "64 word" nat | CCRetry nat

fun viewCC :: "cc_state \<Rightarrow> nonce_state \<times> nat" where
  "viewCC (CCTurn nonce k) = (Next nonce, k)"
| "viewCC (CCRetry k) = (Unknown, k)"

definition cc_payload :: "cryptolib \<Rightarrow> 64 word \<Rightarrow> string + 8 word list" where
  "cc_payload lib i =
     invokePayload lib ''put'' [bytesOf ''name'', bytesOf (itoa_int (sint i))]
       [(''baap-tx-type'', bytesOf ''exec'')]"

fun cc_body :: "cryptolib \<Rightarrow> node \<Rightarrow> address \<Rightarrow> 64 word \<Rightarrow> privkey \<Rightarrow> address \<Rightarrow> cc_state \<Rightarrow> (cc_state + exit) script" where
  "cc_body lib nd to i0 key from (CCRetry k) =
     retryNonce nd from (5 * seconds) (\<lambda>n. CCTurn n k) (CCRetry k)"
| "cc_body lib nd to i0 key from (CCTurn nonce k) =
     do {
       c \<leftarrow> select nd;
       case c of
         TimerCase \<Rightarrow> State_Monad.return (Inr Return)
       | TickerCase \<Rightarrow>
           do { sleep (40 * seconds); retryNonce nd from (5 * seconds) (\<lambda>n. CCTurn n k) (CCRetry k) }
       | DefaultCase \<Rightarrow>
           (case cc_payload lib (i0 + word_of_nat k) of
              Inl _ \<Rightarrow> State_Monad.return (Inr Return)
            | Inr data \<Rightarrow>
                do {
                  err \<leftarrow> sendRaw nd (orNil (SignTx lib
                    (NewTransaction nonce to 0 43766 46000000000 data) HomesteadSigner key));
                  case err of
                    Some _ \<Rightarrow>
                      do {
                        r \<leftarrow> nonceAt nd from;
                        retryNonce nd from (5 * seconds) (\<lambda>n. CCTurn n k) (CCRetry k)
                      }
                  | None \<Rightarrow> State_Monad.return (Inl (CCTurn (nonce + 1) (k + 1)))
                })
     }"

definition cc_sendTestTx ::
  "cryptolib \<Rightarrow> node \<Rightarrow> nat \<Rightarrow> 64 word \<Rightarrow> string \<Rightarrow> string \<Rightarrow> (cc_state + exit) script" where
  "cc_sendTestTx lib nd k i0 contract privKey =
     withAccount lib nd ''http://127.0.0.1:8546'' privKey Return Return
       (\<lambda>key from nonce. iterate k (cc_body lib nd (HexToAddress contract) i0 key from) (CCTurn nonce 0))"

text \<open>The address of a chaincode: the last bytes of the hash of its name.\<close>

definition Keccak256ToAddress :: "cryptolib \<Rightarrow> string \<Rightarrow> address" where
  "Keccak256ToAddress lib ccName = BytesToAddress (Keccak256 lib (bytesOf ccName))"

interpretation cc: sender "cc_body (withSigning lib) nd to i0 key a" viewCC None for lib nd to i0 key a
proof
  fix s
  assume "fst (viewCC s) \<noteq> Broken"
  then show "keeps (viewCC s) (cc_body (withSigning lib) nd to i0 key a s)
      (\<lambda>s' e. e = viewCC s' \<and> fst e \<noteq> Broken \<and> below None (snd e))
      (\<lambda>e. fst e \<noteq> Broken \<and> within None (snd e))"
    by (cases s) (auto simp: within_def intro!: script_rule)
qed

section \<open>src/solidityAndCC.go\<close>

definition solidityAndCC_inputs :: "string list" where
  "solidityAndCC_inputs = greetings[9 := withBlank 163 (greetings ! 9)]"

definition chaincode_body ::
  "cryptolib \<Rightarrow> node \<Rightarrow> address \<Rightarrow> privkey \<Rightarrow> address \<Rightarrow> counters \<Rightarrow> (counters + exit) script" where
  "chaincode_body lib nd to key from s =
     (let (nonce, i) = s in
      do {
        over \<leftarrow> timerOrDefault nd;
        if over then State_Monad.return (Inr Return)
        else
          (case cc_payload lib (word_of_nat i) of
             Inl _ \<Rightarrow> State_Monad.return (Inr Return)
           | Inr data \<Rightarrow>
               do {
                 err \<leftarrow> sendRaw nd (orNil (SignTx lib
                   (NewTransaction nonce to 0 43766 240000000000 data) HomesteadSigner key));
                 case err of
                   Some _ \<Rightarrow> State_Monad.return (Inr Return)
                 | None \<Rightarrow> State_Monad.return (Inl (nonce + 1, i + 1))
               })
      })"

definition sendChainCodeTx :: "cryptolib \<Rightarrow> node \<Rightarrow> nat \<Rightarrow> string \<Rightarrow> string \<Rightarrow> (counters + exit) script" where
  "sendChainCodeTx lib nd k contract privKey =
     withAccount lib nd ''http://127.0.0.1:8546'' privKey Return Return
       (\<lambda>key from nonce. iterate k (chaincode_body lib nd (HexToAddress contract) key from) (nonce, 0))"

definition soliditycc_body ::
  "cryptolib \<Rightarrow> node \<Rightarrow> address \<Rightarrow> privkey \<Rightarrow> address \<Rightarrow> counters \<Rightarrow> (counters + exit) script" where
  "soliditycc_body lib nd to key from s =
     (let (nonce, i) = s in
      do {
        over \<leftarrow> timerOrDefault nd;
        if over then State_Monad.return (Inr Return)
        else
          do {
            r \<leftarrow> intn nd (length solidityAndCC_inputs);
            err \<leftarrow> sendRaw nd (orNil (SignTx lib
              (NewTransaction nonce to 0 43766 240000000000 (Hex2Bytes (solidityAndCC_inputs ! r)))
              HomesteadSigner key));
            case err of
              Some _ \<Rightarrow> State_Monad.return (Inr Return)
            | None \<Rightarrow> State_Monad.return (Inl (nonce + 1, i + 1))
          }
      })"

definition soliditycc_sendSolidityTx :: "cryptolib \<Rightarrow> node \<Rightarrow> nat \<Rightarrow> string \<Rightarrow> string \<Rightarrow> (counters + exit) script" where
  "soliditycc_sendSolidityTx lib nd k contract privKey =
     withAccount lib nd ''http://127.0.0.1:8546'' privKey Return Return
       (\<lambda>key from nonce. iterate k (soliditycc_body lib nd (HexToAddress contract) key from) (nonce, 0))"

lemma within_None [simp]: "within None c" by (simp add: within_def)

interpretation chaincode: sender "chaincode_body (withSigning lib) nd to key a" viewCounters None
  for lib nd to key a
  by unfold_locales (auto simp: split_paired_all chaincode_body_def intro!: script_rule)

interpretation soliditycc: sender "soliditycc_body (withSigning lib) nd to key a" viewCounters None
  for lib nd to key a
  by unfold_locales (auto simp: split_paired_all soliditycc_body_def intro!: script_rule)

section \<open>src/doublesolidity/solidity.go\<close>

definition doublesolidity_inputs :: "string list" where
  "doublesolidity_inputs = greetings[9 := withBlank 173 (greetings ! 9)]"

definition doublesolidity_txNum :: int where "doublesolidity_txNum = -1"

definition doublesolidity_body ::
  "cryptolib \<Rightarrow> node \<Rightarrow> address \<Rightarrow> privkey \<Rightarrow> address \<Rightarrow> counters \<Rightarrow> (counters + exit) script" where
  "doublesolidity_body lib nd to key from s =
     (let (nonce, i) = s in
      do {
        over \<leftarrow> timerOrDefault nd;
        if over then State_Monad.return (Inr Return)
        else
          do {
            r \<leftarrow> intn nd (length doublesolidity_inputs);
            err \<leftarrow> sendRaw nd (orNil (SignTx lib
              (NewTransaction nonce to 0 43766 240000000000 (Hex2Bytes (doublesolidity_inputs ! r)))
              (EIP155Signer 739) key));
            case err of
              Some _ \<Rightarrow> State_Monad.return (Inl (nonce, i))
            | None \<Rightarrow>
                if limitReached doublesolidity_txNum (i + 1) then State_Monad.return (Inr Return)
                else State_Monad.return (Inl (nonce + 1, i + 1))
          }
      })"

definition doublesolidity_sendSolidityTx ::
  "cryptolib \<Rightarrow> node \<Rightarrow> nat \<Rightarrow> string \<Rightarrow> string \<Rightarrow> (counters + exit) script" where
  "doublesolidity_sendSolidityTx lib nd k contract privKey =
     withAccount lib nd ''http://127.0.0.1:8547'' privKey Return Return
       (\<lambda>key from nonce. iterate k (doublesolidity_body lib nd (HexToAddress contract) key from) (nonce, 0))"

definition doublesolidity_main :: "(string \<times> string) list" where
  "doublesolidity_main = goroutines [''d29ce71545474451d8292838d4a0680a8444e6e4c14da018b4a08345fb2bbb84'']"

interpretation doublesolidity: sender "doublesolidity_body (withSigning lib) nd to key a" viewCounters
    "limitOf doublesolidity_txNum" for lib nd to key a
  by unfold_locales (auto simp: split_paired_all doublesolidity_body_def intro!: script_rule)

section \<open>src/solidity.go\<close>

definition solidity_body ::
  "cryptolib \<Rightarrow> node \<Rightarrow> address \<Rightarrow> 8 word list \<Rightarrow> privkey \<Rightarrow> address \<Rightarrow> counters \<Rightarrow> (counters + exit) script" where
  "solidity_body lib nd to data key from s =
     (let (nonce, i) = s in
      do {
        over \<leftarrow> timerOrDefault nd;
        if over then State_Monad.return (Inr Return)
        else
          do {
            err \<leftarrow> sendRaw nd (orNil (SignTx lib
              (NewTransaction nonce to 0 43766 240000000000 data) HomesteadSigner key));
            case err of
              Some _ \<Rightarrow> State_Monad.return (Inr Return)
            | None \<Rightarrow> State_Monad.return (Inl (nonce + 1, i + 1))
          }
      })"

definition solidity_sendCCTx ::
  "cryptolib \<Rightarrow> node \<Rightarrow> nat \<Rightarrow> string \<Rightarrow> string \<Rightarrow> string \<Rightarrow> (counters + exit) script" where
  "solidity_sendCCTx lib nd k contract privKey input =
     withAccount lib nd ''http://127.0.0.1:8546'' privKey Return Return
       (\<lambda>key from nonce.
          iterate k (solidity_body lib nd (HexToAddress contract) (Hex2Bytes input) key from) (nonce, 0))"

definition solidity_main :: "(string \<times> string) list" where
  "solidity_main = goroutines
     [''a2f1a32e5234f64a6624210b871c22909034f24a52166369c2619681390433aa'',
      ''5ca4829b9ad9ba68e74a747115e33ef3998f0f786f924e6f3b6ec2e56504ed15'',
      ''65035d9621f7be3bb6dc1f5a646e6ee2ef6bddf3f1ce57782d409c23857401a6'',
      ''6043505f0f0e3748d7b83bfef873ed1d3224998adae81fc85bd059c5e0a75baf'']"

interpretation solidity: sender "solidity_body (withSigning lib) nd to data key a" viewCounters None
  for lib nd to data key a
  by unfold_locales (auto simp: split_paired_all solidity_body_def intro!: script_rule)

text \<open>
  The goroutines of \<^verbatim>\<open>cc.go\<close> and of \<^verbatim>\<open>solidityAndCC.go\<close>, which gives the first five keys to the
  chaincode and the others to the contract.
\<close>

definition cc_main :: "(string \<times> string) list" where
  "cc_main = goroutines [''5ca4829b9ad9ba68e74a747115e33ef3998f0f786f924e6f3b6ec2e56504ed15'']"

definition soliditycc_privKeys :: "string list" where
  "soliditycc_privKeys =
     [''a2f1a32e5234f64a6624210b871c22909034f24a52166369c2619681390433aa'',
      ''5ca4829b9ad9ba68e74a747115e33ef3998f0f786f924e6f3b6ec2e56504ed15'',
      ''65035d9621f7be3bb6dc1f5a646e6ee2ef6bddf3f1ce57782d409c23857401a6'',
      ''6043505f0f0e3748d7b83bfef873ed1d3224998adae81fc85bd059c5e0a75baf'',
      ''e1b918a4006cb3651bfaf75cea0f885a948ea5ae5ade33fa7d22a3a080f6878e'',
      ''32869ab5cedc7d88d7c802744d0050380abfa566146b1b0836a21c3d5bb9df2a'',
      ''2a05f5e97817f97080ae9304c2c45fddf762096eb87da86eb651640a418c94c8'',
      ''9feafa9ab9903f7ddf771864fc7c5844cc9e49fcc1b34bfcfbee3bcace6b0c29'',
      ''51151f67c0a5e046caa0803b3decafec67706439ef1ec8fdbc6de400588f79f8'',
      ''a135f278036250fea709196921425b86f3755e70d1cc61d7a7d908ffcffb53cb'']"

definition soliditycc_main :: "(string \<times> string) list \<times> (string \<times> string) list" where
  "soliditycc_main = (goroutines (take 5 soliditycc_privKeys), goroutines (drop 5 soliditycc_privKeys))"

section \<open>src/cryptoSolidity/cryptoSolidity.go and src/solidity2.go\<close>

text \<open>
  Both programs ask for the nonce and then set it to zero; after a transaction was refused they ask
  until they get an answer. The differences are arguments: the time \<open>pause\<close> of the ticker, the sleep before
  a transaction (if any), the gas price and the signer.
\<close>

definition cryptoSolidity_inputs :: "string list" where
  "cryptoSolidity_inputs = greetings[3 := withBlank 198 (greetings ! 3)]"

fun randomCall_body ::
  "cryptolib \<Rightarrow> node \<Rightarrow> int \<Rightarrow> int option \<Rightarrow> int \<Rightarrow> signer \<Rightarrow> string list \<Rightarrow> address \<Rightarrow> privkey \<Rightarrow> address \<Rightarrow>
     cc_state \<Rightarrow> (cc_state + exit) script" where
  "randomCall_body lib nd pause before gasPrice sg inputs to key from (CCRetry k) =
     retryNonce nd from (5 * seconds) (\<lambda>n. CCTurn n k) (CCRetry k)"
| "randomCall_body lib nd pause before gasPrice sg inputs to key from (CCTurn nonce k) =
     do {
       c \<leftarrow> select nd;
       case c of
         TimerCase \<Rightarrow> State_Monad.return (Inr Return)
       | TickerCase \<Rightarrow> askNonce nd from pause (\<lambda>n. CCTurn n k)
       | DefaultCase \<Rightarrow>
           do {
             u \<leftarrow> (case before of None \<Rightarrow> State_Monad.return () | Some d \<Rightarrow> sleep d);
             r \<leftarrow> intn nd (length inputs);
             err \<leftarrow> sendRaw nd (orNil (SignTx lib
               (NewTransaction nonce to 0 43766 gasPrice (Hex2Bytes (inputs ! r))) sg key));
             case err of
               Some _ \<Rightarrow>
                 do {
                   r' \<leftarrow> nonceAt nd from;
                   retryNonce nd from (5 * seconds) (\<lambda>n. CCTurn n k) (CCRetry k)
                 }
             | None \<Rightarrow> State_Monad.return (Inl (CCTurn (nonce + 1) (k + 1)))
           }
     }"

definition cryptoSolidity_sendCCTx2 ::
  "cryptolib \<Rightarrow> node \<Rightarrow> nat \<Rightarrow> string \<Rightarrow> string \<Rightarrow> string list \<Rightarrow> (cc_state + exit) script" where
  "cryptoSolidity_sendCCTx2 lib nd k contract privKey inputs =
     withAccount lib nd ''http://39.100.92.41:8545'' privKey Fatal Fatal
       (\<lambda>key from nonce.
          iterate k (randomCall_body lib nd (minute * 1) None 26000000000000 HomesteadSigner inputs
            (HexToAddress contract) key from) (CCTurn 0 0))"

text \<open>The error of the connection is ignored: the nil client panics when it is asked for the nonce.\<close>

definition solidity2_sendCCTx2 ::
  "cryptolib \<Rightarrow> node \<Rightarrow> nat \<Rightarrow> string \<Rightarrow> string \<Rightarrow> string list \<Rightarrow> (cc_state + exit) script" where
  "solidity2_sendCCTx2 lib nd k contract privKey inputs =
     do {
       err \<leftarrow> dial nd ''http://utopia-chain-739:8545'';
       case HexToECDSA lib privKey of
         Inl _ \<Rightarrow> State_Monad.return (Inr Fatal)
       | Inr key \<Rightarrow>
           (case err of
              Some _ \<Rightarrow> State_Monad.return (Inr Panic)
            | None \<Rightarrow>
                do {
                  r \<leftarrow> nonceAt nd (PubkeyToAddress lib key);
                  case r of
                    Inl _ \<Rightarrow> State_Monad.return (Inr Fatal)
                  | Inr nonce \<Rightarrow>
                      iterate k (randomCall_body lib nd (seconds * 10) (Some (millisecond * 10)) 2000000000
                        (EIP155Signer 739) inputs (HexToAddress contract) key (PubkeyToAddress lib key)) (CCTurn 0 0)
                })
     }"

definition cryptoSolidity_main :: "(string \<times> string) list" where
  "cryptoSolidity_main = goroutines (take 9 soliditycc_privKeys)"

definition solidity2_main :: "(string \<times> string) list" where
  "solidity2_main = goroutines [''d29ce71545474451d8292838d4a0680a8444e6e4c14da018b4a08345fb2bbb84'']"

lemma keeps_before [script_rule]:
  "keeps e (k ()) Q F \<Longrightarrow>
   keeps e (do { u \<leftarrow> (case before of None \<Rightarrow> State_Monad.return () | Some d \<Rightarrow> sleep d); k u }) Q F"
  by (cases before) (auto intro: keeps_sleep)

interpretation randomCall: sender "randomCall_body (withSigning lib) nd pause before gp sg inputs to key a" viewCC None
  for lib nd pause before gp sg inputs to key a
proof
  fix s
  assume "fst (viewCC s) \<noteq> Broken"
  then show "keeps (viewCC s) (randomCall_body (withSigning lib) nd pause before gp sg inputs to key a s)
      (\<lambda>s' e. e = viewCC s' \<and> fst e \<noteq> Broken \<and> below None (snd e))
      (\<lambda>e. fst e \<noteq> Broken \<and> within None (snd e))"
    by (cases s) (auto intro!: script_rule)
qed

section \<open>src/safe and src/callsol/fuwuqi/safefuwuqi.go\<close>

text \<open>
  The payload of the safe contract: an item and the action are wrapped into an invocation and a
  transaction; the program returns when one of the encodings fails.
\<close>

definition ACTION :: string where "ACTION = ''PDX_SAFE_ACTION''"
definition JWT :: string where "JWT = ''PDX_SAFE_AUTHZ''"
definition PDXS_CREATE_DOMAIN :: "8 word list" where "PDXS_CREATE_DOMAIN = [0]"
definition PDXS_CREATE_KEY :: "8 word list" where "PDXS_CREATE_KEY = [4]"

definition safePayload :: "cryptolib \<Rightarrow> proto_msg \<Rightarrow> (string \<times> 8 word list) list \<Rightarrow> string + 8 word list" where
  "safePayload lib item meta =
     (case ProtoMarshal lib item of
        Inl e \<Rightarrow> Inl e
      | Inr dibyte \<Rightarrow>
          (case ProtoMarshal lib (Invocation [] [dibyte] meta) of
             Inl e \<Rightarrow> Inl e
           | Inr invocationbyte \<Rightarrow> ProtoMarshal lib (PTransaction 1 invocationbyte)))"

definition safe_txNum :: int where "safe_txNum = 1"
definition safefuwuqi_txNum :: int where "safefuwuqi_txNum = -1"

text \<open>
  The turn of the loop that the three programs share; \<open>item\<close> is the payload for a nonce, and \<open>to\<close> is
  \<^verbatim>\<open>util.EthAddress("PDXSafe")\<close>.
\<close>

definition safe_body ::
  "cryptolib \<Rightarrow> node \<Rightarrow> int \<Rightarrow> int \<Rightarrow> int \<Rightarrow> 64 word \<Rightarrow> address \<Rightarrow> (64 word \<Rightarrow> string + 8 word list) \<Rightarrow>
     privkey \<Rightarrow> address \<Rightarrow> counters \<Rightarrow> (counters + exit) script" where
  "safe_body lib nd pause txNum amount gasLimit to item key from s =
     (let (nonce, i) = s in
      do {
        c \<leftarrow> select nd;
        case c of
          TimerCase \<Rightarrow> State_Monad.return (Inr Return)
        | TickerCase \<Rightarrow> askNonce nd from pause (\<lambda>n. (n, i))
        | DefaultCase \<Rightarrow>
            (case item nonce of
               Inl _ \<Rightarrow> State_Monad.return (Inr Return)
             | Inr data \<Rightarrow>
                 signSendCount lib nd key from (NewTransaction nonce to amount gasLimit (10 ^ 9 * 1000) data)
                   (EIP155Signer 777) txNum s)
      })"

definition sendTestTxKey ::
  "cryptolib \<Rightarrow> (string \<Rightarrow> address) \<Rightarrow> node \<Rightarrow> string \<Rightarrow> nat \<Rightarrow> string \<Rightarrow> string \<Rightarrow> string \<Rightarrow> (counters + exit) script" where
  "sendTestTxKey lib EthAddress nd jwt k privKey key1 val =
     withAccount lib nd ''http://127.0.0.1:8547'' privKey Return Return
       (\<lambda>key from nonce.
          iterate k (safe_body lib nd (minute * 100) safe_txNum (100 * 10 ^ 18) 2100000 (EthAddress ''PDXSafe'')
            (\<lambda>_. safePayload lib (KeyItem key1 [] (bytesOf val))
                   [(ACTION, PDXS_CREATE_KEY), (JWT, bytesOf jwt)]) key from) (nonce, 0))"

definition safe_sendTestTx ::
  "cryptolib \<Rightarrow> (string \<Rightarrow> address) \<Rightarrow> node \<Rightarrow> nat \<Rightarrow> string \<Rightarrow> string \<Rightarrow> (counters + exit) script" where
  "safe_sendTestTx lib EthAddress nd k privKey domain =
     withAccount lib nd ''http://127.0.0.1:8547'' privKey Return Return
       (\<lambda>key from nonce.
          iterate k (safe_body lib nd (minute * 100) safe_txNum (0 * 10 ^ 18) 210000 (EthAddress ''PDXSafe'')
            (\<lambda>_. safePayload lib (DomainItem domain ''1'' ''jiao'') [(ACTION, PDXS_CREATE_DOMAIN)]) key from) (nonce, 0))"

text \<open>The name of the domain is the text of the address, which \<open>str\<close> gives, and the nonce.\<close>

definition sendSafeTx ::
  "cryptolib \<Rightarrow> (string \<Rightarrow> address) \<Rightarrow> (address \<Rightarrow> string) \<Rightarrow> node \<Rightarrow> nat \<Rightarrow> string \<Rightarrow> string \<Rightarrow> (counters + exit) script" where
  "sendSafeTx lib EthAddress str nd k safehost1 privKey =
     withAccount lib nd safehost1 privKey Return Return
       (\<lambda>key from nonce.
          iterate k (safe_body lib nd (minute * 1) safefuwuqi_txNum (100 * 10 ^ 18) 210000 (EthAddress ''PDXSafe'')
            (\<lambda>n. safePayload lib (DomainItem (str from @ itoa_int (sint n)) ''1'' ''jiao'')
                   [(ACTION, PDXS_CREATE_DOMAIN)]) key from) (nonce, 0))"

definition safefuwuqi_main :: "string list \<Rightarrow> int \<Rightarrow> int \<Rightarrow> (string \<times> string) list option" where
  "safefuwuqi_main safePrivKeys start end' = map_option goroutines (keyRange 2500 safePrivKeys start end')"

interpretation safe: sender "safe_body lib nd pause txNum amount gl to item key a" viewCounters "limitOf txNum"
  for lib nd pause txNum amount gl to item key a
  by unfold_locales (auto simp: split_paired_all safe_body_def intro!: script_rule)

section \<open>src/callsol/fuwuqi/solidityfuwuqi.go\<close>

text \<open>
  The program deploys a contract and calls it in a loop; \<open>code\<close> is the contract, \<open>data\<close> the packed call
  that \<^verbatim>\<open>creatAbi\<close> returns, and \<open>createAddress\<close> is \<^verbatim>\<open>crypto.CreateAddress\<close>.
\<close>

definition solidityfuwuqi_txNum2 :: int where "solidityfuwuqi_txNum2 = -1"

definition solidityfuwuqi_body ::
  "cryptolib \<Rightarrow> node \<Rightarrow> address \<Rightarrow> 64 word \<Rightarrow> 8 word list \<Rightarrow> privkey \<Rightarrow> address \<Rightarrow> counters \<Rightarrow> (counters + exit) script" where
  "solidityfuwuqi_body lib nd to gasLimit data key from s =
     (let (nonce, i) = s in
      do {
        c \<leftarrow> select nd;
        case c of
          TimerCase \<Rightarrow> State_Monad.return (Inr Return)
        | TickerCase \<Rightarrow> askNonce nd from (minute * 1) (\<lambda>n. (n, i))
        | DefaultCase \<Rightarrow>
            signSendCount lib nd key from (NewTransaction nonce to (0 * 10 ^ 18) gasLimit (10 ^ 9 * 4000) data)
              (EIP155Signer 777) solidityfuwuqi_txNum2 s
      })"

definition sendTestTx2 ::
  "cryptolib \<Rightarrow> (address \<Rightarrow> 64 word \<Rightarrow> address) \<Rightarrow> node \<Rightarrow> 8 word list \<Rightarrow> 8 word list \<Rightarrow> nat \<Rightarrow> string \<Rightarrow> string \<Rightarrow>
     (counters + exit) script" where
  "sendTestTx2 lib createAddress nd code data k host1 privKey =
     withAccount lib nd host1 privKey Return Return
       (\<lambda>key from nonce.
          case SignTx lib (NewContractCreation nonce 0 245567 (10 ^ 9 * 18) code) (EIP155Signer 777) key of
            Inl _ \<Rightarrow> State_Monad.return (Inr Fatal)
          | Inr st \<Rightarrow>
              do {
                err \<leftarrow> sendRaw nd (Some st);
                case err of
                  Some _ \<Rightarrow> State_Monad.return (Inr Return)
                | None \<Rightarrow>
                    do {
                      sleep (20 * seconds);
                      g \<leftarrow> estimateGas nd \<lparr>cmFrom = Some from, cmTo = Some (createAddress from nonce),
                                            cmValue = 0, cmData = data\<rparr>;
                      case g of
                        Inl _ \<Rightarrow> State_Monad.return (Inr Return)
                      | Inr gas \<Rightarrow>
                          do {
                            r \<leftarrow> nonceAt nd from;
                            case r of
                              Inl _ \<Rightarrow> State_Monad.return (Inr Return)
                            | Inr nonce' \<Rightarrow>
                                iterate k (solidityfuwuqi_body lib nd (createAddress from nonce) gas data key from) (nonce', 0)
                          }
                    }
              })"

definition solidityfuwuqi_privKeys2 :: "string list" where
  "solidityfuwuqi_privKeys2 =
     [''a9f1481564399443bb39188d3f8da55585c9238ab175010b81e7a28956559381'',
      ''d29ce71545474451d8292838d4a0680a8444e6e4c14da018b4a08345fb2bbb84'',
      ''009f1dfe52be1015970d9087de0ad2a98f4c68f610711d1533aa21a71ccc8f4a'',
      ''69192206e447dbc8b6627d7beb540e6c606c5b94afa9ebc00734ff404a1e5617'',
      ''d29ce71545474451d8292838d4a0680a8444e6e4c14da018b4a08345fb2bbb84'',
      ''72660cbaef2ca607751c0514922ca995a566f5bd508ccfae4896265db856d115'',
      ''e7bb5c0bc8456fe0c2af281fe5753095c5150fbdbd622776330cece60e9feaec'',
      ''5dc4c81695f4606394b535e44315f9a444b7f860f1951f4eb5eb8fdf59913b0a'',
      ''de2f935c24ba2af4fa37c7794b944803d3c44992c04330bd4b80631ea24397c6'',
      ''d8f9556d406e09b2a692e91b849705869df7c8b6cc02d650a0048cd4ad3884ee'',
      ''f5e166ecd28e2c0afdf7f764e9844588ec1b7a34c77c7be3b673f5a4d9b31f6a'',
      ''1598e1b4f6b2f911142fe5720554360bdd45c5487ff922e06930513c25c87577'',
      ''b5df2ce6d414388ca6d425282e116f6910b679d13d576a7d70616d3b7bc9180f'',
      ''9985bfb012da6de074b2377287723b86704a7cffc1ce3661ddf5fa091b789a72'',
      ''e3686e780a7ee0c1e02a3f2fae004c3d763199cb4247e9ecbb0117a7718d4bc6'']"

definition solidityfuwuqi_main :: "int \<Rightarrow> int \<Rightarrow> (string \<times> string) list option" where
  "solidityfuwuqi_main start end' = map_option goroutines (keyRange 15 solidityfuwuqi_privKeys2 start end')"

interpretation solidityfuwuqi: sender "solidityfuwuqi_body lib nd to gl data key a" viewCounters
    "limitOf solidityfuwuqi_txNum2" for lib nd to gl data key a
  by unfold_locales (auto simp: split_paired_all solidityfuwuqi_body_def intro!: script_rule)

end
