(* ===== verification/SenderLaws.thy ===== *)
theory SenderLaws
  imports ContractSenders
begin

text \<open>
  What the programs of the theories \<open>Senders\<close> and \<open>ContractSenders\<close> do as a whole: from the connection to the
  end of a run of any length, against any node. Each case is the lemma \<open>turns\<close> of the locale \<open>sender\<close> at
  the interpretation for the program.
\<close>

section \<open>Discipline\<close>

definition wellBehaved :: "nat option \<Rightarrow> event list \<Rightarrow> bool" where
  "wellBehaved limit h \<longleftrightarrow> disciplined h \<and> within limit (length (accepted h))"

lemma within_0 [simp]: "within limit 0"
  by (simp add: within_def split: option.splits)

lemma withAccount_wellBehaved:
  assumes "\<And>key n h. tracked h = (Next n, 0) \<Longrightarrow>
      wellBehaved limit (snd (run_state (k key (PubkeyToAddress lib key) n) h))"
  shows "wellBehaved limit (events (withAccount lib nd host hexKey e1 e2 k))"
  unfolding events_def
  by (rule withAccount_disciplined [where P = "wellBehaved limit"])
     (use assms in \<open>auto simp: wellBehaved_def disciplined_def\<close>)

lemma withSm2Account_wellBehaved:
  assumes "\<And>key n h. tracked h = (Next n, 0) \<Longrightarrow>
      wellBehaved limit (snd (run_state (k key (PubkeyToAddress lib key) n) h))"
  shows "wellBehaved limit (events (withSm2Account lib nd host hexKey k))"
proof (cases "ndDial nd [] host")
  case dial: None
  show ?thesis
  proof (cases "SetString16 hexKey")
    case None
    then show ?thesis using dial
      by (simp add: events_def withSm2Account_def run_script wellBehaved_def disciplined_def expected_def)
  next
    case (Some sbin)
    let ?a = "PubkeyToAddress lib (Sm2InitKey lib sbin)"
    let ?h = "[EvDial host None, EvNonceAt ?a (ndNonceAt nd [EvDial host None] ?a)]"
    show ?thesis using dial Some assms [of ?h _ "Sm2InitKey lib sbin"]
      by (cases "ndNonceAt nd [EvDial host None] ?a")
         (simp_all add: events_def withSm2Account_def run_script wellBehaved_def disciplined_def
            expected_def tracked_def)
  qed
next
  case (Some e)
  then show ?thesis
    by (simp add: events_def withSm2Account_def run_script wellBehaved_def disciplined_def expected_def)
qed

lemma below_limitOf: "txNum = -1 \<or> 0 < txNum \<Longrightarrow> below (limitOf txNum) 0"
  by (auto simp: below_def limitOf_def)

lemmas txNums = transfer_txNum_def callsol_txNum_def callsol2_txNum_def sm2_txNum1_def sm2fuwuqi_txNum1_def
  transferfuwuqi_txNum_def doublesolidity_txNum_def safe_txNum_def safefuwuqi_txNum_def solidityfuwuqi_txNum2_def

lemma account_sender:
  assumes "\<And>key a. sender (body key a) view limit" "\<And>n. view (init n) = (Next n, 0)" "below limit 0"
  shows "wellBehaved limit (events (withAccount lib nd host hexKey e1 e2
      (\<lambda>key from nonce. iterate k (body key from) (init nonce))))"
  by (rule withAccount_wellBehaved) (use sender.turns [OF assms(1)] assms(2, 3) in \<open>simp add: wellBehaved_def\<close>)

lemma sm2_sender:
  assumes "\<And>key a. sender (body key a) view limit" "\<And>n. view (init n) = (Next n, 0)" "below limit 0"
  shows "wellBehaved limit (events (withSm2Account lib nd host hexKey
      (\<lambda>key from nonce. iterate k (body key from) (init nonce))))"
  by (rule withSm2Account_wellBehaved) (use sender.turns [OF assms(1)] assms(2, 3) in \<open>simp add: wellBehaved_def\<close>)

lemma transfer_wellBehaved:
  "signs lib \<Longrightarrow> wellBehaved (limitOf transfer_txNum) (events (transfer_sendTestTx lib nd k key))"
  unfolding transfer_sendTestTx_def
  by (rule account_sender [where view = viewCounters]) (use transfer.sender_axioms [of lib] in \<open>simp_all add: withSigning_id below_limitOf txNums\<close>)

lemma callsol_wellBehaved:
  "wellBehaved (limitOf callsol_txNum) (events (callsol_sendTestTx lib nd k key))"
  unfolding callsol_sendTestTx_def
  by (rule account_sender [where view = viewCounters]) (use callsol.sender_axioms in \<open>simp_all add: withSigning_id below_limitOf txNums\<close>)

lemma callsol2_wellBehaved:
  "wellBehaved (limitOf callsol2_txNum) (events (callsol2_sendTestTx lib nd k key))"
  unfolding callsol2_sendTestTx_def
  by (rule account_sender [where view = viewCounters]) (use callsol2.sender_axioms in \<open>simp_all add: withSigning_id below_limitOf txNums\<close>)

lemma sm2_wellBehaved:
  "signs lib \<Longrightarrow> wellBehaved (limitOf sm2_txNum1) (events (sm2_sendTestTx1 lib nd k key))"
  unfolding sm2_sendTestTx1_def
  by (rule sm2_sender [where view = viewCounters]) (use sm2.sender_axioms [of lib] in \<open>simp_all add: withSigning_id below_limitOf txNums\<close>)

lemma sm2fuwuqi_wellBehaved:
  "signs lib \<Longrightarrow> wellBehaved (limitOf sm2fuwuqi_txNum1) (events (sm2fuwuqi_sendTestTx1 lib nd k key))"
  unfolding sm2fuwuqi_sendTestTx1_def
  by (rule sm2_sender [where view = viewCounters]) (use sm2fuwuqi.sender_axioms [of lib] in \<open>simp_all add: withSigning_id below_limitOf txNums\<close>)

lemma transferfuwuqi_wellBehaved:
  "wellBehaved (limitOf transferfuwuqi_txNum) (events (transferfuwuqi_sendTestTx lib nd k host key x))"
  unfolding transferfuwuqi_sendTestTx_def
  by (rule account_sender [where view = viewCounters]) (use transferfuwuqi.sender_axioms in \<open>simp_all add: withSigning_id below_limitOf txNums\<close>)

lemma doublesolidity_wellBehaved:
  "signs lib \<Longrightarrow> wellBehaved (limitOf doublesolidity_txNum) (events (doublesolidity_sendSolidityTx lib nd k contract key))"
  unfolding doublesolidity_sendSolidityTx_def
  by (rule account_sender [where view = viewCounters]) (use doublesolidity.sender_axioms [of lib] in \<open>simp_all add: withSigning_id below_limitOf txNums\<close>)

lemma cc_wellBehaved:
  "signs lib \<Longrightarrow> wellBehaved None (events (cc_sendTestTx lib nd k i0 contract key))"
  unfolding cc_sendTestTx_def
  by (rule account_sender [where view = viewCC]) (use cc.sender_axioms [of lib] in \<open>simp_all add: withSigning_id below_limitOf txNums\<close>)

lemma chaincode_wellBehaved:
  "signs lib \<Longrightarrow> wellBehaved None (events (sendChainCodeTx lib nd k contract key))"
  unfolding sendChainCodeTx_def
  by (rule account_sender [where view = viewCounters]) (use chaincode.sender_axioms [of lib] in \<open>simp_all add: withSigning_id below_limitOf txNums\<close>)

lemma soliditycc_wellBehaved:
  "signs lib \<Longrightarrow> wellBehaved None (events (soliditycc_sendSolidityTx lib nd k contract key))"
  unfolding soliditycc_sendSolidityTx_def
  by (rule account_sender [where view = viewCounters]) (use soliditycc.sender_axioms [of lib] in \<open>simp_all add: withSigning_id below_limitOf txNums\<close>)

lemma solidity_wellBehaved:
  "signs lib \<Longrightarrow> wellBehaved None (events (solidity_sendCCTx lib nd k contract key input))"
  unfolding solidity_sendCCTx_def
  by (rule account_sender [where view = viewCounters]) (use solidity.sender_axioms [of lib] in \<open>simp_all add: withSigning_id below_limitOf txNums\<close>)

lemma sendTestTxKey_wellBehaved:
  "wellBehaved (limitOf safe_txNum) (events (sendTestTxKey lib ea nd jwt k key key1 val))"
  unfolding sendTestTxKey_def
  by (rule account_sender [where view = viewCounters]) (use safe.sender_axioms in \<open>simp_all add: below_limitOf txNums\<close>)

lemma safe_sendTestTx_wellBehaved:
  "wellBehaved (limitOf safe_txNum) (events (safe_sendTestTx lib ea nd k key domain))"
  unfolding safe_sendTestTx_def
  by (rule account_sender [where view = viewCounters]) (use safe.sender_axioms in \<open>simp_all add: below_limitOf txNums\<close>)

lemma sendSafeTx_wellBehaved:
  "wellBehaved (limitOf safefuwuqi_txNum) (events (sendSafeTx lib ea str nd k host key))"
  unfolding sendSafeTx_def
  by (rule account_sender [where view = viewCounters]) (use safe.sender_axioms in \<open>simp_all add: below_limitOf txNums\<close>)

text \<open>The program that deploys its contract first has one accepted transaction more than it counts.\<close>

fun viewAfterDeploy :: "counters \<Rightarrow> nonce_state \<times> nat" where
  "viewAfterDeploy (nonce, i) = (Next nonce, Suc i)"

interpretation deployed: sender "solidityfuwuqi_body lib nd to gl data key a" viewAfterDeploy None
  for lib nd to gl data key a
proof
  fix s :: counters
  assume "fst (viewAfterDeploy s) \<noteq> Broken"
  then show "keeps (viewAfterDeploy s) (solidityfuwuqi_body lib nd to gl data key a s)
      (\<lambda>s' e. e = viewAfterDeploy s' \<and> fst e \<noteq> Broken \<and> below None (snd e))
      (\<lambda>e. fst e \<noteq> Broken \<and> within None (snd e))"
    by (cases s) (auto simp: solidityfuwuqi_body_def signSendCount_def intro!: script_rule dest: SignTx_Inr)
qed

lemma keeps_deployed:
  "keeps (Next n, Suc 0) (iterate k (solidityfuwuqi_body lib nd to gl data key a) (n, 0))
     (\<lambda>_ e. fst e \<noteq> Broken) (\<lambda>e. fst e \<noteq> Broken)"
  unfolding keeps_def
proof (intro allI impI)
  fix h
  assume "tracked h = (Next n, Suc 0)"
  then have "disciplined (snd (run_state (iterate k (solidityfuwuqi_body lib nd to gl data key a) (n, 0)) h))"
    using deployed.turns [of h "(n, 0)"] by simp
  then show "after (\<lambda>_ e. fst e \<noteq> Broken) (\<lambda>e. fst e \<noteq> Broken)
      (run_state (iterate k (solidityfuwuqi_body lib nd to gl data key a) (n, 0)) h)"
    by (cases "run_state (iterate k (solidityfuwuqi_body lib nd to gl data key a) (n, 0)) h";
        cases "fst (run_state (iterate k (solidityfuwuqi_body lib nd to gl data key a) (n, 0)) h)")
       (auto simp: disciplined_def tracked_def)
qed

lemma keeps_disciplined:
  assumes "tracked h = e" "keeps e m (\<lambda>_ e. fst e \<noteq> Broken) (\<lambda>e. fst e \<noteq> Broken)"
  shows "wellBehaved None (snd (run_state m h))"
  using keepsD [OF assms(2, 1)]
  by (cases "run_state m h"; cases "fst (run_state m h)")
     (auto simp: wellBehaved_def disciplined_def tracked_def)

lemma sendTestTx2_wellBehaved: "wellBehaved None (events (sendTestTx2 lib ca nd code data k host key))"
  unfolding sendTestTx2_def
  by (rule withAccount_wellBehaved, erule keeps_disciplined)
     (auto intro!: script_rule keeps_deployed dest: SignTx_Inr)

text \<open>
  A library and a node to evaluate the programs on: keys parse and signing succeeds; the node is
  always reachable, counts the nonces from \<open>base\<close>, accepts every transaction, and no timer ever fires.
\<close>

definition sampleLib :: cryptolib where
  "sampleLib = \<lparr>HexToECDSA = (\<lambda>s. Inr (length s)), PubkeyToAddress = (\<lambda>k. [word_of_nat k]),
     SignErr = (\<lambda>_ _ _. None), Sm2InitKey = nat, Keccak256 = (\<lambda>b. b),
     ProtoMarshal = (\<lambda>_. Inr [1, 2]), RlpErr = (\<lambda>_. None)\<rparr>"

definition sampleNode :: "64 word \<Rightarrow> node" where
  "sampleNode base = \<lparr>ndDial = (\<lambda>_ _. None),
     ndNonceAt = (\<lambda>h _. Inr (base + word_of_nat (length (accepted h)))),
     ndPendingNonceAt = (\<lambda>h _. Inr (base + word_of_nat (length (accepted h)))),
     ndEstimateGas = (\<lambda>_ _. Inr 21000), ndSuggestGasPrice = (\<lambda>_. Inr 1), ndSend = (\<lambda>_ _. None),
     ndReadFile = (\<lambda>_ _. Inr []), ndSelect = (\<lambda>_. DefaultCase), ndIntn = (\<lambda>h _. length h)\<rparr>"

lemma sampleLib_signs [simp]: "signs sampleLib"
  by (simp add: signs_def sampleLib_def)


lemmas sample_defs = sampleLib_def sampleNode_def events_def withAccount_def run_script numeral_eq_Suc

lemma callsol_sample:
  "events (callsol_sendTestTx sampleLib (sampleNode 7) 2 ''key'') =
     [EvDial callsol_host1 None, EvNonceAt [3] (Inr 7), EvSelect DefaultCase,
      EvSend (Some (callsol_tx 7, EIP155Signer 777, 3)) None, EvSelect DefaultCase,
      EvSend (Some (callsol_tx 8, EIP155Signer 777, 3)) None]"
  by (simp add: callsol_sendTestTx_def callsol_body_def signSendCount_def SignTx_def limitReached_def
      txNums sampleLib_def sampleNode_def events_def withAccount_def run_script numeral_2_eq_2)


text \<open>
  The programs with a limit stop at it: no run of \<^verbatim>\<open>transfer.go\<close>, \<^verbatim>\<open>sm2Transfer.go\<close> and of the programs for
  the safe has more than one accepted transaction, and no run of \<^verbatim>\<open>callsol/transfer.go\<close> and
  \<^verbatim>\<open>callsol2.go\<close> more than 10000 and 100000, although every loop may take any number of turns.
\<close>

theorem senders_within_limit:
  assumes "signs lib"
  shows "length (accepted (events (transfer_sendTestTx lib nd k key))) \<le> 1 \<and>
    length (accepted (events (sm2_sendTestTx1 lib nd k key))) \<le> 1 \<and>
    length (accepted (events (sendTestTxKey lib ea nd jwt k key key1 val))) \<le> 1 \<and>
    length (accepted (events (safe_sendTestTx lib ea nd k key domain))) \<le> 1 \<and>
    length (accepted (events (callsol_sendTestTx lib nd k key))) \<le> 10000 \<and>
    length (accepted (events (callsol2_sendTestTx lib nd k key))) \<le> 100000"
  using transfer_wellBehaved [OF assms, of nd k key] sm2_wellBehaved [OF assms, of nd k key]
    sendTestTxKey_wellBehaved [of lib ea nd jwt k key key1 val] safe_sendTestTx_wellBehaved [of lib ea nd k key domain]
    callsol_wellBehaved [of lib nd k key] callsol2_wellBehaved [of lib nd k key]
  by (simp add: wellBehaved_def within_def limitOf_def txNums)

theorem senders_within_limit_witness:
  "length (accepted (events (callsol_sendTestTx sampleLib (sampleNode 7) 5 ''key''))) \<le> 10000 \<and>
   length (accepted (events (transfer_sendTestTx sampleLib (sampleNode 7) 5 ''key''))) \<le> 1"
  using senders_within_limit [of sampleLib "sampleNode 7" 5 "''key''"] by simp

section \<open>Where the discipline is broken\<close>

lemma randomCall_grows: "grows (randomCall_body lib nd pause before gp sg inputs to key a s)"
  by (cases s) (auto intro!: grow_rule)

text \<open>
  The first turn sends the nonce zero, and the turns after it cannot mend the discipline. The lemma is
  about the loop started at a state where the node has told the nonce \<open>n\<close>.
\<close>

lemma randomCall_override:
  assumes "signs lib" "tracked h = (Next n, 0)" "ndSelect nd h = DefaultCase"
  shows "disciplined (snd (run_state (iterate (Suc k)
      (randomCall_body lib nd pause before gp sg inputs to key a) (CCTurn 0 0)) h)) \<longleftrightarrow> n = 0"
proof (cases "n = 0")
  case True
  then show ?thesis
    using randomCall.turns [of h "CCTurn 0 0" "Suc k" lib] assms by (simp add: withSigning_id)
next
  case False
  let ?b = "randomCall_body lib nd pause before gp sg inputs to key a"
  let ?h0 = "h @ [EvSelect DefaultCase] @ (case before of None \<Rightarrow> [] | Some d \<Rightarrow> [EvSleep d])"
  let ?j = "ndIntn nd ?h0 (length inputs) mod length inputs"
  let ?h1 = "?h0 @ [EvIntn (length inputs) ?j]"
  let ?st = "Some (NewTransaction 0 to 0 43766 gp (Hex2Bytes (inputs ! ?j)), sg, key)"
  let ?h2 = "?h1 @ [EvSend ?st (ndSend nd ?h1 ?st)]"
  define rest where "rest = (case ndSend nd ?h1 ?st of
      Some _ \<Rightarrow> do { r' \<leftarrow> nonceAt nd a; retryNonce nd a (5 * seconds) (\<lambda>n. CCTurn n 0) (CCRetry 0) }
    | None \<Rightarrow> State_Monad.return (Inl (CCTurn 1 (Suc 0))))"
  have run: "run_state (?b (CCTurn 0 0)) h = run_state rest ?h2"
    using assms(1, 3) by (cases before) (simp_all add: run_script rest_def split: option.splits)
  have "expected ?h2 = Broken" using assms(2) False by (cases before) (simp_all add: tracked_def expected_def)
  moreover have "grows (do { r \<leftarrow> rest; case r of Inl s' \<Rightarrow> iterate k ?b s' | Inr x \<Rightarrow> State_Monad.return (Inr x) })"
    unfolding rest_def by (intro grow_rule grows_iterate randomCall_grows)
  ultimately have "expected (snd (run_state (do { r \<leftarrow> rest; case r of Inl s' \<Rightarrow> iterate k ?b s' |
      Inr x \<Rightarrow> State_Monad.return (Inr x) }) ?h2)) = Broken" by (intro grows_broken)
  then show ?thesis using False run by (simp add: disciplined_def run_state_bind del: randomCall_body.simps)
qed

text \<open>
  The programs \<^verbatim>\<open>cryptoSolidity.go\<close> and \<^verbatim>\<open>solidity2.go\<close> ask for the nonce of the account and then set it to
  zero. Whenever the first turn sends, their runs keep the discipline of nonces if and only if the
  account has never sent a transaction: for every other account the first transaction has a nonce
  that is used already.
\<close>

theorem nonce_override_iff:
  assumes "signs lib" "HexToECDSA lib privKey = Inr key"
    and "ndDial nd [] host = None" "ndNonceAt nd [EvDial host None] (PubkeyToAddress lib key) = Inr n"
    and "ndSelect nd [EvDial host None, EvNonceAt (PubkeyToAddress lib key) (Inr n)] = DefaultCase"
  shows "(host = ''http://39.100.92.41:8545'' \<longrightarrow>
      (disciplined (events (cryptoSolidity_sendCCTx2 lib nd (Suc k) contract privKey inputs)) \<longleftrightarrow> n = 0)) \<and>
    (host = ''http://utopia-chain-739:8545'' \<longrightarrow>
      (disciplined (events (solidity2_sendCCTx2 lib nd (Suc k) contract privKey inputs)) \<longleftrightarrow> n = 0))"
proof -
  let ?h = "[EvDial host None, EvNonceAt (PubkeyToAddress lib key) (Inr n)]"
  have h: "tracked ?h = (Next n, 0)" by (simp add: tracked_def expected_def)
  show ?thesis
    using randomCall_override [OF assms(1) h assms(5)] assms(2-4)
    by (auto simp: events_def cryptoSolidity_sendCCTx2_def solidity2_sendCCTx2_def withAccount_def run_script
        simp del: iterate.simps)
qed

theorem nonce_override_iff_witness:
  "\<not> disciplined (events (cryptoSolidity_sendCCTx2 sampleLib (sampleNode 7) 3 ''1c'' ''key'' [''a4'']))"
  using nonce_override_iff [of sampleLib "''key''" 3 "sampleNode 7" "''http://39.100.92.41:8545''" 7 2 "''1c''" "[''a4'']"]
  by (simp add: sampleLib_def sampleNode_def signs_def numeral_3_eq_3 del: iterate.simps)

section \<open>Payloads\<close>

definition isHex :: "char \<Rightarrow> bool" where
  "isHex c \<longleftrightarrow> digit_val c \<noteq> None"

text \<open>The decoder takes pairs of digits up to the first character that is none.\<close>

lemma Hex2Bytes_length: "length (Hex2Bytes s) = length (takeWhile isHex s) div 2"
  unfolding Hex2Bytes_def
  by (induction s rule: hexDecodeString.induct) (auto simp: isHex_def split: option.splits prod.splits)

lemma digit_zero: "isHex (CHR ''0'')" "\<not> isHex (CHR '' '')" "isHex (CHR ''0'') \<and> \<not> isHex (CHR ''x'')"
  by code_simp+

lemma greetingInput_hex:
  assumes "isHex n" "list_all isHex digits" "length digits \<le> 64"
  shows "list_all isHex (greetingInput n digits) \<and> length (greetingInput n digits) = 200"
proof -
  have "list_all isHex ''a4136862''" "list_all isHex ''20''" by code_simp+
  then show ?thesis using assms digit_zero(1) by (auto simp: greetingInput_def list_all_iff)
qed

lemma greetings_hex: "list_all (\<lambda>s. list_all isHex s \<and> length s = 200) greetings"
proof -
  have *: "list_all (\<lambda>d. list_all isHex d \<and> length d \<le> 64)
      [''31'', ''32'', ''33'', ''34'', ''35'', ''36'', ''37'', ''38'', ''39'', ''3130'', ''313030'',
       ''61'', ''62'', ''63'', ''64'', ''65'', ''66'', ''67'']" by code_simp
  have **: "isHex (CHR ''1'')" "isHex (CHR ''2'')" "isHex (CHR ''3'')" by code_simp+
  show ?thesis using * ** by (simp add: greetings_def greetingInput_hex)
qed

lemma length_greetings: "length greetings = 18"
  by (simp add: greetings_def)

lemma greetings_nth: "i < 18 \<Longrightarrow> (\<forall>c \<in> set (greetings ! i). isHex c) \<and> length (greetings ! i) = 200"
  using greetings_hex unfolding list_all_length length_greetings by (simp add: all_set_conv_all_nth)

lemma greetings_bytes: "i < 18 \<Longrightarrow> length (Hex2Bytes (greetings ! i)) = 100"
  using greetings_nth [of i] by (simp add: Hex2Bytes_length takeWhile_eq_all_conv [THEN iffD2])

lemma withBlank_bytes:
  assumes "i < 18" "k \<le> 200"
  shows "length (Hex2Bytes (withBlank k (greetings ! i))) = k div 2"
proof -
  have "takeWhile isHex (take k (greetings ! i) @ CHR '' '' # drop k (greetings ! i)) = take k (greetings ! i)"
    using greetings_nth [OF assms(1)] digit_zero(2) by (subst takeWhile_append2) (auto dest: in_set_takeD)
  then show ?thesis using greetings_nth [OF assms(1)] assms(2) by (simp add: Hex2Bytes_length withBlank_def)
qed

lemma blanked_bytes:
  assumes "j < 18" "k \<le> 200"
  shows "map (\<lambda>s. length (Hex2Bytes s)) (greetings[j := withBlank k (greetings ! j)]) = (replicate 18 100)[j := k div 2]"
  using assms by (intro nth_equalityI) (auto simp: length_greetings nth_list_update greetings_bytes withBlank_bytes)

text \<open>
  Which bytes the hexadecimal literals of the contract callers denote. A blank inside a literal
  silently cuts the data of the transaction: in the programs with such a literal, one input has
  fewer than the 100 bytes of the call, and the literal of \<^verbatim>\<open>callsol2.go\<close>, which starts with
  \<^verbatim>\<open>0x\<close>, denotes no data at all.
\<close>

theorem payload_bytes:
  "map (\<lambda>s. length (Hex2Bytes s)) solidityAndCC_inputs = (replicate 18 100)[9 := 81] \<and>
   map (\<lambda>s. length (Hex2Bytes s)) doublesolidity_inputs = (replicate 18 100)[9 := 86] \<and>
   map (\<lambda>s. length (Hex2Bytes s)) cryptoSolidity_inputs = (replicate 18 100)[3 := 99] \<and>
   txData (callsol2_tx nonce) = []"
proof -
  have "length (Hex2Bytes callsol2_input) = 0"
    using digit_zero(3) by (simp add: Hex2Bytes_length callsol2_input_def)
  then show ?thesis
    using blanked_bytes [of 9 163] blanked_bytes [of 9 173] blanked_bytes [of 3 198]
    by (simp add: solidityAndCC_inputs_def doublesolidity_inputs_def cryptoSolidity_inputs_def
        callsol2_tx_def NewTransaction_def Hex2Bytes_def del: map_update)
qed

end
