(* ===== verification/Payouts.thy ===== *)
theory Payouts
  imports SenderLaws "HOL-Library.Sublist"
begin

text \<open>
  The programs that pay a list of recipients, one transaction each: \<^verbatim>\<open>src/transferadder/transfer.go\<close>,
  \<^verbatim>\<open>src/generateKey/transfer.go\<close> and \<^verbatim>\<open>src/zhiya/zhiya.go\<close>. Their loops run over the list, so they end;
  the theorems say who is paid, in which order and how often, whatever the node replies.
\<close>

section \<open>src/transferadder/transfer.go\<close>

definition transferadder_txNum :: int where "transferadder_txNum = 41"

definition transferadder_add :: "string list" where
  "transferadder_add =
     [''0xde587cff6c1137c4eb992cf8149ecff3e163ee07'',
      ''0x1ceb7edecea8d481aa315b9a51b65c4def9b3dc6'',
      ''0x89293fd490355c515aa5df19215b7f3b48e697ec'',
      ''0x5de0589274363cb4f80029db33f8e5c70e762e95'',
      ''0xe8d2ee92a42d494b9574d3d856647d2995623aea'',
      ''0x6997e5b29d3d5466b6c9ad3d2b79c83cecda6375'',
      ''0x806951812847172c834c5d5c6e22862ebeee18fa'',
      ''0xbddf6dae1363d3950c6a1b4e74f6f8d358c831d6'',
      ''0xd94cb8bd4bd0ffb7c1ec4ce1b76ccd15d3eee136'',
      ''0xfa962629c97f6e4da9ac7de75b91ffb566432dff'',
      ''0x37dedd34e52e19681937fe5ee854e5ab1ae2b490'',
      ''0xe3b14eed02502156a53bf3985fec15ca44b1a859'',
      ''0xb05b62e185b3508e315b7fde5ae68c704d6d5ab3'',
      ''0x149502da15637bf0652459243caa6a7dfaad88bc'',
      ''0x022c246d04809730dfacd6b86c4f3fce39aae56b'',
      ''0x4f16914675888dbeed14d81a330698b20b126fdb'',
      ''0xf75179cad6230dfdcc89a909fc1635397c91784e'',
      ''0xe2e5eab9cf073790d924ab82b34dcf938a287e10'',
      ''0x491c69fda8319f8e7cc77edca2525a7322f7e492'',
      ''0xd255ff0136cb2255a8996bdb8208cdc50486ca60'',
      ''0x3ae403f36ac8a3b336f2e931be03077b0ec4f935'',
      ''0x5fcc67d0d737900db68dd62f029b5c62759bb35c'',
      ''0x1170dab93a4612b7e56b0b541d7d203f7d239fa8'',
      ''0xa61191d95cd8c457c8dec274065a4be052ed1df0'',
      ''0xc4b8c2737d8e6b522a9d6f36c2cccb26c42ce00c'',
      ''0x95454465f639dc9640c9a39a45ec3b031cfa890d'',
      ''0x2deee1ac815d3f81a969cbfc4a087bc929e43805'',
      ''0xf5ea3b72e56822b1d638b5f6d6e8666da0b0a88f'',
      ''0xebbcb59c19f4a2e6c12d8055883f256493f2a62d'',
      ''0x824a1eb49226f853943b83c7875d1323f45b18b6'',
      ''0xa3d61c23d456df12b8007ce6fdcbafe0e12044b2'',
      ''0x69633dbb9ebc560ca28f94e18d743f774b8ef01c'',
      ''0xc7496966fcd7dd5375c288d524c88a40b944de66'',
      ''0xaa1a3cbec641330c4d832a584668ac2e20008f95'',
      ''0x28b60a979b79ec34711b6cee23b131781cb232d7'',
      ''0x8447995a4478065329701eeb00d8a5615327110e'',
      ''0x202aeda58992f9ecd897340011f38ae752f69cab'',
      ''0x2709eb3dc15f2b46e4012bc0bff5ab2606261202'',
      ''0x14e1c6f458a67b4d1eafd5fb5cd9704b8b3ad283'',
      ''0x5b5c21690b903d3335d388368772ed7baef54725'',
      ''0x60c045c1e49e364a40405e0818243e0fcbc2c6ba'']"

definition transferadder_tx :: "64 word \<Rightarrow> address \<Rightarrow> transaction" where
  "transferadder_tx nonce to = NewTransaction nonce to (20 * 10 ^ 18) 21000 24000000000 []"

text \<open>The loop over the recipients: a turn of the ticker passes to the next one.\<close>

fun transferadder_loop ::
  "cryptolib \<Rightarrow> node \<Rightarrow> privkey \<Rightarrow> address \<Rightarrow> string list \<Rightarrow> counters \<Rightarrow> (counters + exit) script" where
  "transferadder_loop lib nd key from [] s = State_Monad.return (Inl s)"
| "transferadder_loop lib nd key from (a # as) (nonce, i) =
     do {
       c \<leftarrow> select nd;
       case c of
         TimerCase \<Rightarrow> State_Monad.return (Inr Return)
       | TickerCase \<Rightarrow>
           do {
             sleep (minute * 1);
             r \<leftarrow> nonceAt nd from;
             case r of
               Inl _ \<Rightarrow> State_Monad.return (Inr Return)
             | Inr n \<Rightarrow> transferadder_loop lib nd key from as (n, i)
           }
       | DefaultCase \<Rightarrow>
           do {
             err \<leftarrow> sendRaw nd (orNil (SignTx lib (transferadder_tx nonce (HexToAddress a)) (EIP155Signer 739) key));
             case err of
               Some _ \<Rightarrow> State_Monad.return (Inr Return)
             | None \<Rightarrow>
                 if limitReached transferadder_txNum (i + 1) then State_Monad.return (Inr Return)
                 else transferadder_loop lib nd key from as (nonce + 1, i + 1)
           }
     }"

definition transferadder_sendTestTx :: "cryptolib \<Rightarrow> node \<Rightarrow> string list \<Rightarrow> string \<Rightarrow> (counters + exit) script" where
  "transferadder_sendTestTx lib nd add privKey =
     withAccount lib nd ''http://47.92.137.120:30100'' privKey Return Return
       (\<lambda>key from nonce. transferadder_loop lib nd key from add (nonce, 0))"

definition transferadder_main :: "(string \<times> string) list" where
  "transferadder_main = goroutines [''d29ce71545474451d8292838d4a0680a8444e6e4c14da018b4a08345fb2bbb84'']"

section \<open>src/generateKey/transfer.go\<close>

text \<open>
  The loop makes as many turns as there are recipients, but takes the recipient by the number of
  accepted transactions, so that a refused one is repeated. The nonce is zero when the
  node does not answer after that: its error is ignored.
\<close>

definition generateKey_txNum :: int where "generateKey_txNum = -1"

definition generateKey_adds :: "string list" where
  "generateKey_adds =
     [''0x42495a0d681896C3aB8a93E14e9Ec6f84509B820'',
      ''0xDBd359ad6a6084AF32Bd0315e6f23DC183427A48'',
      ''0x8cD1c58b370437328B63A3F57B40DdE2BEFC9599'']"

definition generateKey_main :: "(string \<times> string) list" where
  "generateKey_main = goroutines [''d29ce71545474451d8292838d4a0680a8444e6e4c14da018b4a08345fb2bbb84'']"

definition generateKey_tx :: "64 word \<Rightarrow> address \<Rightarrow> transaction" where
  "generateKey_tx nonce to = NewTransaction nonce to (1000000 * 10 ^ 18) 21000 9000000000 []"

fun generateKey_loop ::
  "cryptolib \<Rightarrow> node \<Rightarrow> string list \<Rightarrow> privkey \<Rightarrow> address \<Rightarrow> nat \<Rightarrow> counters \<Rightarrow> (counters + exit) script" where
  "generateKey_loop lib nd adds key from 0 s = State_Monad.return (Inl s)"
| "generateKey_loop lib nd adds key from (Suc j) (nonce, i) =
     do {
       c \<leftarrow> select nd;
       case c of
         TimerCase \<Rightarrow> State_Monad.return (Inr Return)
       | TickerCase \<Rightarrow>
           do {
             sleep (minute * 1);
             r \<leftarrow> nonceAt nd from;
             case r of
               Inl _ \<Rightarrow> State_Monad.return (Inr Return)
             | Inr n \<Rightarrow> generateKey_loop lib nd adds key from j (n, i)
           }
       | DefaultCase \<Rightarrow>
           do {
             err \<leftarrow> sendRaw nd (orNil (SignTx lib (generateKey_tx nonce (HexToAddress (adds ! i))) (EIP155Signer 739) key));
             case err of
               Some _ \<Rightarrow>
                 do { r \<leftarrow> nonceAt nd from; generateKey_loop lib nd adds key from j (orZero r, i) }
             | None \<Rightarrow>
                 if limitReached generateKey_txNum (i + 1) then State_Monad.return (Inr Return)
                 else generateKey_loop lib nd adds key from j (nonce + 1, i + 1)
           }
     }"

definition generateKey_sendTestTx :: "cryptolib \<Rightarrow> node \<Rightarrow> string list \<Rightarrow> string \<Rightarrow> (counters + exit) script" where
  "generateKey_sendTestTx lib nd adds privKey =
     withAccount lib nd ''http://127.0.0.1:8547'' privKey Return Return
       (\<lambda>key from nonce. generateKey_loop lib nd adds key from (length adds) (nonce, 0))"

section \<open>src/zhiya/zhiya.go\<close>

text \<open>
  Pledges for a list of addresses; \<open>rlp\<close> encodes the struct \<^verbatim>\<open>HypothecationAddress\<close>. The errors of the
  estimation of the gas and of its price are only printed; the transaction of a failed signing is
  nil, on which \<^verbatim>\<open>ChainId\<close> panics.
\<close>

record HypothecationAddress =
  Address :: address

definition zhiya_add1 :: "string list" where
  "zhiya_add1 =
     [''0x2ab41eab7251cfed27fb8dcc82422c118bc27ecf'',
      ''0x9ac6911b4a060f22dddd92846cbcd8111658c81f'',
      ''0xb9e21add8495c75e6eaab9c41ff28b70e92a3daf'',
      ''0x8e040f58551a2e9a7e4df6a81bbe4a954d671cd3'',
      ''0xc59c6c9ee3c2e1bab90caf2a7917436c5a095a2c'',
      ''0xc9785932f19d36aa7fb6b61afb8dc5365f578657'',
      ''0x91cb690a49164b064206d8785d5624e09800c9eb'',
      ''0xdd8c5c4826a59045aa4ffebe4db85c94e3572986'',
      ''0x5cebe47f36a6df45128bc595646e27c5f439f83d'']"

definition zhiya_tx :: "64 word \<Rightarrow> address \<Rightarrow> 64 word \<Rightarrow> 8 word list \<Rightarrow> transaction" where
  "zhiya_tx nonce to gas payload = NewTransaction nonce to (100000 * 10 ^ 18) gas (10 ^ 9 * 4000) payload"

fun zhiya_loop ::
  "cryptolib \<Rightarrow> (HypothecationAddress \<Rightarrow> 8 word list) \<Rightarrow> node \<Rightarrow> privkey \<Rightarrow> address \<Rightarrow> string list \<Rightarrow> 64 word \<Rightarrow>
     (64 word + exit) script" where
  "zhiya_loop lib rlp nd key from [] nonce = State_Monad.return (Inr Return)"
| "zhiya_loop lib rlp nd key from (a # as) nonce =
     (let payload1 = rlp \<lparr>Address = HexToAddress a\<rparr>;
          to = BytesToAddress (drop 12 (Keccak256 lib (bytesOf ''hypothecation''))) in
      do {
        g \<leftarrow> estimateGas nd \<lparr>cmFrom = Some from, cmTo = Some to, cmValue = 100000 * 10 ^ 18, cmData = payload1\<rparr>;
        p \<leftarrow> suggestGasPrice nd;
        case SignTx lib (zhiya_tx nonce to (orZero g) payload1) (EIP155Signer 739) key of
          Inl _ \<Rightarrow> State_Monad.return (Inr Panic)
        | Inr st \<Rightarrow>
            do {
              err \<leftarrow> sendRaw nd (Some st);
              case err of
                Some _ \<Rightarrow> State_Monad.return (Inr Return)
              | None \<Rightarrow> zhiya_loop lib rlp nd key from as (nonce + 1)
            }
      })"

definition zhiya_main ::
  "cryptolib \<Rightarrow> (HypothecationAddress \<Rightarrow> 8 word list) \<Rightarrow> node \<Rightarrow> string list \<Rightarrow> (64 word + exit) script" where
  "zhiya_main lib rlp nd add1 =
     do {
       err \<leftarrow> dial nd ''http://127.0.0.1:8547'';
       case err of
         Some _ \<Rightarrow> State_Monad.return (Inr Return)
       | None \<Rightarrow>
           (case HexToECDSA lib ''a9f1481564399443bb39188d3f8da55585c9238ab175010b81e7a28956559381'' of
              Inl _ \<Rightarrow> State_Monad.return (Inr Return)
            | Inr key \<Rightarrow>
                do {
                  r \<leftarrow> pendingNonceAt nd (PubkeyToAddress lib key);
                  case r of
                    Inl _ \<Rightarrow> State_Monad.return (Inr Return)
                  | Inr nonce \<Rightarrow> zhiya_loop lib rlp nd key (PubkeyToAddress lib key) add1 nonce
                })
     }"

section \<open>Who is paid\<close>

text \<open>
  What a transaction pays, and the payments to a list of addresses. \<open>pays m P\<close> says that the transactions
  accepted while \<open>m\<close> runs satisfy \<open>P\<close>.
\<close>

definition payment :: "transaction \<Rightarrow> address option \<times> int" where
  "payment tx = (txTo tx, txAmount tx)"

definition payments :: "int \<Rightarrow> string list \<Rightarrow> (address option \<times> int) list" where
  "payments amount as = map (\<lambda>a. (Some (HexToAddress a), amount)) as"

definition pays :: "'a script \<Rightarrow> (transaction list \<Rightarrow> bool) \<Rightarrow> bool" where
  "pays m P \<longleftrightarrow> (\<forall>h. \<exists>ts. accepted (snd (run_state m h)) = accepted h @ ts \<and> P ts)"

named_theorems pay_rule

lemma pays_mono: "pays m P \<Longrightarrow> (\<And>ts. P ts \<Longrightarrow> Q ts) \<Longrightarrow> pays m Q"
  unfolding pays_def by blast

lemma pays_return [pay_rule]: "P [] \<Longrightarrow> pays (State_Monad.return x) P"
  by (simp add: pays_def)

lemma pays_perform:
  assumes "\<And>h. pays (k (f h)) (\<lambda>ts. P (accepted [ev (f h)] @ ts))"
  shows "pays (do { x \<leftarrow> perform f ev; k x }) P"
  unfolding pays_def
proof
  fix h
  obtain ts where "accepted (snd (run_state (k (f h)) (h @ [ev (f h)]))) = accepted (h @ [ev (f h)]) @ ts"
    "P (accepted [ev (f h)] @ ts)"
    using assms [of h] unfolding pays_def by blast
  then show "\<exists>ts. accepted (snd (run_state (do { x \<leftarrow> perform f ev; k x }) h)) = accepted h @ ts \<and> P ts"
    by (intro exI [of _ "accepted [ev (f h)] @ ts"]) (simp add: run_state_bind run_perform)
qed

lemma pays_neutral:
  assumes "\<And>r. accepted [ev r] = []" "\<And>h. pays (k (f h)) P"
  shows "pays (do { x \<leftarrow> perform f ev; k x }) P"
  by (rule pays_perform) (use assms in simp)

lemma pays_ops [pay_rule]:
  "(\<And>h. pays (k1 (ndSelect nd h)) P) \<Longrightarrow> pays (do { c \<leftarrow> select nd; k1 c }) P"
  "pays (k2 ()) P \<Longrightarrow> pays (do { u \<leftarrow> sleep d; k2 u }) P"
  "(\<And>r. pays (k3 r) P) \<Longrightarrow> pays (do { r \<leftarrow> nonceAt nd a; k3 r }) P"
  "(\<And>r. pays (k3 r) P) \<Longrightarrow> pays (do { r \<leftarrow> pendingNonceAt nd a; k3 r }) P"
  "(\<And>r. pays (k3 r) P) \<Longrightarrow> pays (do { r \<leftarrow> estimateGas nd msg; k3 r }) P"
  "(\<And>p. pays (k4 p) P) \<Longrightarrow> pays (do { p \<leftarrow> suggestGasPrice nd; k4 p }) P"
  "(\<And>r. pays (k5 r) P) \<Longrightarrow> pays (do { r \<leftarrow> dial nd host; k5 r }) P"
  unfolding script_ops by (rule pays_neutral; simp)+

lemma pays_sendRaw:
  "pays (k None) (\<lambda>ts. P (fst st # ts)) \<Longrightarrow> (\<And>err. pays (k (Some err)) P) \<Longrightarrow>
   pays (do { r \<leftarrow> sendRaw nd (Some st); k r }) P"
  unfolding sendRaw_def
proof (rule pays_perform)
  fix h
  assume "pays (k None) (\<lambda>ts. P (fst st # ts))" "\<And>err. pays (k (Some err)) P"
  then show "pays (k (ndSend nd h (Some st))) (\<lambda>ts. P (accepted [EvSend (Some st) (ndSend nd h (Some st))] @ ts))"
    by (cases "ndSend nd h (Some st)") simp_all
qed

text \<open>A transaction whose signing failed is not there to be accepted.\<close>

lemma pays_send [pay_rule]:
  assumes "pays (k None) (\<lambda>ts. P (tx # ts))" "pays (k None) P" "\<And>err. pays (k (Some err)) P"
  shows "pays (do { r \<leftarrow> sendRaw nd (orNil (SignTx lib tx sg key)); k r }) P"
proof (cases "SignErr lib tx sg key")
  case None
  then show ?thesis using assms(1, 3) pays_sendRaw [of k P "(tx, sg, key)" nd] by (simp add: SignTx_def)
next
  case (Some e)
  have "pays (k r) P" for r using assms(2, 3) by (cases r) auto
  then show ?thesis using Some unfolding sendRaw_def by (intro pays_neutral) (simp_all add: SignTx_def)
qed

lemma pays_cases [pay_rule]:
  "(\<And>x. r = Some x \<Longrightarrow> pays (f x) P) \<Longrightarrow> (r = None \<Longrightarrow> pays m P) \<Longrightarrow> pays (case r of None \<Rightarrow> m | Some x \<Rightarrow> f x) P"
  "(\<And>x. q = Inl x \<Longrightarrow> pays (f1 x) P) \<Longrightarrow> (\<And>x. q = Inr x \<Longrightarrow> pays (f2 x) P) \<Longrightarrow>
     pays (case q of Inl x \<Rightarrow> f1 x | Inr x \<Rightarrow> f2 x) P"
  "(c = TimerCase \<Longrightarrow> pays m1 P) \<Longrightarrow> (c = TickerCase \<Longrightarrow> pays m2 P) \<Longrightarrow> (c = DefaultCase \<Longrightarrow> pays m3 P) \<Longrightarrow>
     pays (case c of TimerCase \<Rightarrow> m1 | TickerCase \<Rightarrow> m2 | DefaultCase \<Rightarrow> m3) P"
  "(b \<Longrightarrow> pays m1 P) \<Longrightarrow> (\<not> b \<Longrightarrow> pays m2 P) \<Longrightarrow> pays (if b then m1 else m2) P"
  by (auto split: option.splits sum.splits select_case.splits)

lemma pays_withAccount:
  assumes "P []" "\<And>key n. pays (k key (PubkeyToAddress lib key) n) P"
  shows "pays (withAccount lib nd host hexKey e1 e2 k) P"
  unfolding withAccount_def using assms by (auto intro!: pay_rule)

lemma paysD: "pays m P \<Longrightarrow> accepted h = [] \<Longrightarrow> P (accepted (snd (run_state m h)))"
  unfolding pays_def by (metis self_append_conv2)

lemma pays_events: "pays m P \<Longrightarrow> P (accepted (events m))"
  unfolding events_def by (erule paysD) simp

lemma payments_simps [simp]:
  "payments amount [] = []" "payments amount (a # as) = (Some (HexToAddress a), amount) # payments amount as"
  by (simp_all add: payments_def)

lemma payment_tx [simp]: "payment (NewTransaction n to amount gl gp d) = (Some to, amount)"
  by (simp add: payment_def NewTransaction_def)

lemma transferadder_pays:
  "pays (transferadder_loop lib nd key a as s) (\<lambda>ts. subseq (map payment ts) (payments (20 * 10 ^ 18) as))"
proof (induction as arbitrary: s)
  case (Cons x xs)
  obtain nonce i where s: "s = (nonce, i)" by (cases s)
  have IH: "pays (transferadder_loop lib nd key a xs s)
      (\<lambda>ts. subseq (map payment ts) (payments (20 * 10 ^ 18) (x # xs)))" for s
    using Cons.IH by (rule pays_mono) auto
  have IH2: "pays (transferadder_loop lib nd key a xs s)
      (\<lambda>ts. subseq (map payment (transferadder_tx n (HexToAddress x) # ts)) (payments (20 * 10 ^ 18) (x # xs)))" for s n
    using Cons.IH by (rule pays_mono) (simp add: transferadder_tx_def)
  show ?case
    unfolding s transferadder_loop.simps by (intro pay_rule IH IH2) (simp_all add: transferadder_tx_def)
qed (auto intro!: pay_rule)

lemma generateKey_pays:
  assumes "signs lib"
  shows "i + j \<le> length adds \<Longrightarrow>
   pays (generateKey_loop lib nd adds key a j (nonce, i))
     (\<lambda>ts. prefix (map payment ts) (payments (1000000 * 10 ^ 18) (drop i adds)))"
proof (induction j arbitrary: nonce i)
  case (Suc j)
  then have i: "drop i adds = adds ! i # drop (Suc i) adds" by (simp add: Cons_nth_drop_Suc)
  have IH: "pays (generateKey_loop lib nd adds key a j (n, i))
      (\<lambda>ts. prefix (map payment ts) (payments (1000000 * 10 ^ 18) (drop i adds)))" for n
    using Suc.IH [of i n] Suc.prems by simp
  have "pays (generateKey_loop lib nd adds key a j (n', i + 1))
      (\<lambda>ts. prefix (map payment ts) (payments (1000000 * 10 ^ 18) (drop (i + 1) adds)))" for n'
    using Suc.IH [of "i + 1" n'] Suc.prems by simp
  then have IH2: "pays (generateKey_loop lib nd adds key a j (n', i + 1))
      (\<lambda>ts. prefix (map payment (fst (generateKey_tx n (HexToAddress (adds ! i)), sg, key) # ts))
         (payments (1000000 * 10 ^ 18) (drop i adds)))" for n n' sg
    by (rule pays_mono) (simp add: generateKey_tx_def i)
  show ?case
    unfolding generateKey_loop.simps signs_SignTx [OF assms] orNil_simps
    by (intro pay_rule pays_sendRaw IH IH2) (simp_all add: generateKey_tx_def i)
qed (auto intro!: pay_rule)

lemma zhiya_pays:
  "pays (zhiya_loop lib rlp nd key a as nonce)
     (\<lambda>ts. prefix (map (\<lambda>t. (txAmount t, txData t)) ts)
        (map (\<lambda>x. (100000 * 10 ^ 18, rlp \<lparr>Address = HexToAddress x\<rparr>)) as))"
proof (induction as arbitrary: nonce)
  case (Cons x xs)
  have IH: "pays (zhiya_loop lib rlp nd key a xs n)
     (\<lambda>ts. prefix (map (\<lambda>t. (txAmount t, txData t)) (fst st # ts))
        (map (\<lambda>x. (100000 * 10 ^ 18, rlp \<lparr>Address = HexToAddress x\<rparr>)) (x # xs)))"
    if "SignTx lib (zhiya_tx n' to g (rlp \<lparr>Address = HexToAddress x\<rparr>)) sg key = Inr st" for n n' to g sg st
    using Cons.IH [of n] by (rule pays_mono) (simp add: SignTx_Inr [OF that] zhiya_tx_def NewTransaction_def)
  show ?case
    unfolding zhiya_loop.simps Let_def by (intro pay_rule pays_sendRaw) (erule IH | simp)+
qed (auto intro!: pay_rule)

text \<open>The runs against a node that accepts everything while no timer fires.\<close>

definition faultless :: "node \<Rightarrow> bool" where
  "faultless nd \<longleftrightarrow> (\<forall>h. ndSelect nd h = DefaultCase \<and> (\<forall>tx. ndSend nd h tx = None))"

lemma pays_send_faultless:
  assumes "faultless nd" "pays (k None) (\<lambda>ts. P (fst st # ts))"
  shows "pays (do { r \<leftarrow> sendRaw nd (Some st); k r }) P"
  unfolding sendRaw_def by (rule pays_perform) (use assms in \<open>simp add: faultless_def\<close>)

lemma transferadder_complete:
  assumes "signs lib" "faultless nd"
  shows "i + length as \<le> 41 \<Longrightarrow> pays (transferadder_loop lib nd key a as (nonce, i))
     (\<lambda>ts. map payment ts = payments (20 * 10 ^ 18) as)"
proof (induction as arbitrary: nonce i)
  case (Cons x xs)
  have sel: "ndSelect nd h = DefaultCase" for h using assms(2) by (simp add: faultless_def)
  have IH: "pays (transferadder_loop lib nd key a xs (n, i + 1)) (\<lambda>ts. map payment ts = payments (20 * 10 ^ 18) xs)" for n
    using Cons.IH [of "i + 1" n] Cons.prems by simp
  have stop: "limitReached transferadder_txNum (i + 1) \<Longrightarrow> xs = []"
    using Cons.prems by (cases xs) (auto simp: limitReached_def transferadder_txNum_def)
  show ?case
    unfolding transferadder_loop.simps signs_SignTx [OF assms(1)] orNil_simps
    by (rule pays_ops, simp only: sel select_case.case, rule pays_send_faultless [OF assms(2)])
       (use IH stop in \<open>auto simp: transferadder_tx_def intro!: pays_cases pays_return\<close>)
qed (auto intro!: pay_rule)

lemma length_transferadder_add: "length transferadder_add = 41"
  by (simp add: transferadder_add_def)



text \<open>
  C12. When the node accepts every transaction and no timer fires, \<^verbatim>\<open>transferadder\<close> pays each of its 41
  recipients exactly once; its limit of 41 transactions does not cut the list. A single turn of the
  ticker makes it pass over a recipient: the select statement asks for the nonce in the turn that
  belongs to that recipient.
\<close>

theorem transferadder_pays_all:
  assumes "signs lib" "faultless nd" "HexToECDSA lib privKey = Inr key"
    and "ndDial nd [] ''http://47.92.137.120:30100'' = None"
    and "ndNonceAt nd [EvDial ''http://47.92.137.120:30100'' None] (PubkeyToAddress lib key) = Inr n"
  shows "map payment (accepted (events (transferadder_sendTestTx lib nd transferadder_add privKey))) =
      payments (20 * 10 ^ 18) transferadder_add \<and>
    (\<forall>nonce i a as h. ndSelect nd' h = TickerCase \<longrightarrow>
       ndNonceAt nd' (h @ [EvSelect TickerCase, EvSleep minute]) from = Inr n' \<longrightarrow>
       run_state (transferadder_loop lib nd' key from (a # as) (nonce, i)) h =
       run_state (transferadder_loop lib nd' key from as (n', i))
         (h @ [EvSelect TickerCase, EvSleep minute, EvNonceAt from (Inr n')]))"
proof (intro conjI allI impI)
  let ?h = "[EvDial ''http://47.92.137.120:30100'' None, EvNonceAt (PubkeyToAddress lib key) (Inr n)]"
  have "pays (transferadder_loop lib nd key (PubkeyToAddress lib key) transferadder_add (n, 0))
      (\<lambda>ts. map payment ts = payments (20 * 10 ^ 18) transferadder_add)"
    by (rule transferadder_complete) (use assms(1, 2) in \<open>simp_all add: length_transferadder_add\<close>)
  from paysD [OF this, of ?h]
  have "map payment (accepted (snd (run_state (transferadder_loop lib nd key (PubkeyToAddress lib key) transferadder_add (n, 0)) ?h))) =
      payments (20 * 10 ^ 18) transferadder_add" by simp
  then show "map payment (accepted (events (transferadder_sendTestTx lib nd transferadder_add privKey))) =
      payments (20 * 10 ^ 18) transferadder_add"
    using assms(3-5) by (simp add: events_def transferadder_sendTestTx_def withAccount_def run_script)
qed (simp add: run_script)

lemma sampleNode_faultless: "faultless (sampleNode n)"
  by (simp add: faultless_def sampleNode_def)

theorem transferadder_pays_all_witness:
  "map payment (accepted (events (transferadder_sendTestTx sampleLib (sampleNode 7) transferadder_add ''key''))) =
     payments (20 * 10 ^ 18) transferadder_add"
  using transferadder_pays_all [of sampleLib "sampleNode 7" "''key''" 3 7] sampleNode_faultless
  by (simp add: sampleLib_def sampleNode_def signs_def)

end
