(* ===== verification/TxSend.thy ===== *)
theory TxSend
  imports ContractSenders
begin

text \<open>
  The load generator \<^verbatim>\<open>src/tool\<close>: the three kinds of transactions it sends, and the interplay of its two
  goroutines, the sender \<^verbatim>\<open>txsend\<close> and the watcher \<^verbatim>\<open>checkNonce\<close>, which share a channel with ten places.
  The goroutine \<^verbatim>\<open>nonceNum\<close> only reads and prints the nonce.
\<close>

section \<open>The transactions\<close>

definition tool_privKeys :: string where
  "tool_privKeys = ''d29ce71545474451d8292838d4a0680a8444e6e4c14da018b4a08345fb2bbb84''"

definition tool_tx :: "64 word \<Rightarrow> transaction" where
  "tool_tx nonce = NewTransaction nonce (HexToAddress ''0x69633dbb9ebc560ca28f94e18d743f774b8ef01c'')
     1 12021000 (7000 * 10 ^ 10) (replicate (1000 * 300) 0)"

text \<open>
  \<^verbatim>\<open>sendTestTx\<close> ignores the errors of the key and of the signing; with a nil key signing panics, so
  \<open>Panic\<close> is the outcome then.
\<close>

definition tool_sendTestTx :: "cryptolib \<Rightarrow> node \<Rightarrow> string \<Rightarrow> 64 word \<Rightarrow> (string option + exit) script" where
  "tool_sendTestTx lib nd privKey1 nonce =
     (case HexToECDSA lib privKey1 of
        Inl _ \<Rightarrow> State_Monad.return (Inr Panic)
      | Inr key \<Rightarrow>
          do {
            err \<leftarrow> sendRaw nd (orNil (SignTx lib (tool_tx nonce) (EIP155Signer 739) key));
            State_Monad.return (Inl err)
          })"

definition tool_sendSolidityTx ::
  "cryptolib \<Rightarrow> node \<Rightarrow> string \<Rightarrow> string \<Rightarrow> 64 word \<Rightarrow> (string option + exit) script" where
  "tool_sendSolidityTx lib nd contract privKey nonce =
     (case HexToECDSA lib privKey of
        Inl _ \<Rightarrow> State_Monad.return (Inr Fatal)
      | Inr key \<Rightarrow>
          do {
            r \<leftarrow> intn nd (length doublesolidity_inputs);
            err \<leftarrow> sendRaw nd (orNil (SignTx lib
              (NewTransaction nonce (HexToAddress contract) 0 43766 240000000000 (Hex2Bytes (doublesolidity_inputs ! r)))
              (EIP155Signer 739) key));
            State_Monad.return (Inl err)
          })"

text \<open>\<open>path\<close> is the literal with the code of the contract.\<close>

definition tool_DeployWasm ::
  "cryptolib \<Rightarrow> node \<Rightarrow> string \<Rightarrow> string \<Rightarrow> 64 word \<Rightarrow> (string option + exit) script" where
  "tool_DeployWasm lib nd path privKey nonce =
     (case hexDecodeString path of
        (code, Some _) \<Rightarrow> State_Monad.return (Inr Fatal)
      | (code, None) \<Rightarrow>
          (case HexToECDSA lib privKey of
             Inl _ \<Rightarrow> State_Monad.return (Inr Fatal)
           | Inr key \<Rightarrow>
               (case SignTx lib (NewContractCreation nonce 0 338689 (10 ^ 9 * 18) code) (EIP155Signer 739) key of
                  Inl _ \<Rightarrow> State_Monad.return (Inr Fatal)
                | Inr st \<Rightarrow> do { err \<leftarrow> sendRaw nd (Some st); State_Monad.return (Inl err) })))"

text \<open>
  \<^verbatim>\<open>DeploySol\<close> returns the address of the contract even when the transaction was refused, and takes
  the nonce zero when the node does not answer.
\<close>

definition DeploySol ::
  "cryptolib \<Rightarrow> (address \<Rightarrow> 64 word \<Rightarrow> address) \<Rightarrow> node \<Rightarrow> string \<Rightarrow> (address + exit) script" where
  "DeploySol lib createAddress nd path =
     (case hexDecodeString path of
        (code, Some _) \<Rightarrow> State_Monad.return (Inr Fatal)
      | (code, None) \<Rightarrow>
          (case HexToECDSA lib tool_privKeys of
             Inl _ \<Rightarrow> State_Monad.return (Inr Fatal)
           | Inr key \<Rightarrow>
               do {
                 r \<leftarrow> pendingNonceAt nd (PubkeyToAddress lib key);
                 case SignTx lib (NewContractCreation (orZero r) 0 338689 (10 ^ 9 * 18) code) (EIP155Signer 739) key of
                   Inl _ \<Rightarrow> State_Monad.return (Inr Fatal)
                 | Inr st \<Rightarrow>
                     do {
                       err \<leftarrow> sendRaw nd (Some st);
                       State_Monad.return (Inl (createAddress (PubkeyToAddress lib key) (orZero r)))
                     }
               }))"

text \<open>What the flag \<^verbatim>\<open>-model\<close> chooses.\<close>

datatype tool_model = ModelTransfer | ModelCall | ModelDeploy

definition toolModel :: "int \<Rightarrow> tool_model option" where
  "toolModel model =
     (if model = 0 then Some ModelTransfer else if model = 1 then Some ModelCall
      else if model = 2 then Some ModelDeploy else None)"

section \<open>The two goroutines\<close>

text \<open>Where the sender is: between two statements that can block or depend on the environment.\<close>

datatype txsend_pc = AtSelect | AtRecover | AtDrain | AtReceive | AtSend | AtStop | Exited

datatype check_pc = CheckSleep | CheckStop

datatype tool_event = Learned "64 word" | Submitted "64 word" "string option"

record tool =
  tlNonce :: "64 word"
  tlStop :: nat
  tlPc :: txsend_pc
  tlCheck :: check_pc
  tlPre :: "64 word"
  tlLog :: "tool_event list"

definition stopCap :: nat where "stopCap = 10"

text \<open>A refused transaction that the node already knows counts as sent.\<close>

definition taken :: "string option \<Rightarrow> bool" where
  "taken r \<longleftrightarrow> (case r of None \<Rightarrow> True | Some e \<Rightarrow> take (length ''known transaction'') e = ''known transaction'')"

definition txsend_start :: "64 word \<Rightarrow> tool" where
  "txsend_start nonce = \<lparr>tlNonce = nonce, tlStop = 0, tlPc = AtSelect, tlCheck = CheckSleep, tlPre = 0,
     tlLog = [Learned nonce]\<rparr>"

text \<open>
  The steps. The select statement takes the channel when it has a value and the default otherwise;
  the process ends when the node does not answer in the recovery.
\<close>

inductive txsend_step :: "tool \<Rightarrow> tool \<Rightarrow> bool" for s where
  select_stop: "tlPc s = AtSelect \<Longrightarrow> 0 < tlStop s \<Longrightarrow>
    txsend_step s (s\<lparr>tlStop := tlStop s - 1, tlPc := AtRecover\<rparr>)"
| select_default: "tlPc s = AtSelect \<Longrightarrow> tlStop s = 0 \<Longrightarrow> txsend_step s (s\<lparr>tlPc := AtSend\<rparr>)"
| recover: "tlPc s = AtRecover \<Longrightarrow>
    txsend_step s (s\<lparr>tlNonce := nonce1 + 1, tlPc := AtDrain, tlLog := tlLog s @ [Learned nonce1]\<rparr>)"
| recover_err: "tlPc s = AtRecover \<Longrightarrow> txsend_step s (s\<lparr>tlPc := Exited\<rparr>)"
| drained: "tlPc s = AtDrain \<Longrightarrow> tlStop s = 0 \<Longrightarrow> txsend_step s (s\<lparr>tlPc := AtSelect\<rparr>)"
| drain: "tlPc s = AtDrain \<Longrightarrow> tlStop s \<noteq> 0 \<Longrightarrow> txsend_step s (s\<lparr>tlPc := AtReceive\<rparr>)"
| receive: "tlPc s = AtReceive \<Longrightarrow> 0 < tlStop s \<Longrightarrow>
    txsend_step s (s\<lparr>tlStop := tlStop s - 1, tlPc := AtSelect\<rparr>)"
| sent: "tlPc s = AtSend \<Longrightarrow> taken r \<Longrightarrow>
    txsend_step s (s\<lparr>tlNonce := tlNonce s + 1, tlPc := AtSelect, tlLog := tlLog s @ [Submitted (tlNonce s) r]\<rparr>)"
| failed: "tlPc s = AtSend \<Longrightarrow> \<not> taken r \<Longrightarrow>
    txsend_step s (s\<lparr>tlPc := AtStop, tlLog := tlLog s @ [Submitted (tlNonce s) r]\<rparr>)"
| stop: "tlPc s = AtStop \<Longrightarrow> tlStop s < stopCap \<Longrightarrow>
    txsend_step s (s\<lparr>tlStop := tlStop s + 1, tlPc := AtSelect\<rparr>)"

text \<open>The watcher compares the nonce with the one of 37 seconds ago; it gets zero when the node does not answer.\<close>

inductive check_step :: "tool \<Rightarrow> tool \<Rightarrow> bool" for s where
  same: "tlPc s \<noteq> Exited \<Longrightarrow> tlCheck s = CheckSleep \<Longrightarrow> orZero r = tlPre s \<Longrightarrow>
    check_step s (s\<lparr>tlCheck := CheckStop\<rparr>)"
| moved: "tlPc s \<noteq> Exited \<Longrightarrow> tlCheck s = CheckSleep \<Longrightarrow> orZero r \<noteq> tlPre s \<Longrightarrow>
    check_step s (s\<lparr>tlPre := orZero r\<rparr>)"
| signal: "tlPc s \<noteq> Exited \<Longrightarrow> tlCheck s = CheckStop \<Longrightarrow> tlStop s < stopCap \<Longrightarrow>
    check_step s (s\<lparr>tlStop := tlStop s + 1, tlCheck := CheckSleep\<rparr>)"

definition tool_step :: "tool \<Rightarrow> tool \<Rightarrow> bool" where
  "tool_step s s' \<longleftrightarrow> txsend_step s s' \<or> check_step s s'"

inductive_cases txsend_stepE: "txsend_step s s'"
inductive_cases check_stepE: "check_step s s'"

section \<open>Invariants\<close>

fun nextNonce :: "64 word \<Rightarrow> tool_event list \<Rightarrow> 64 word" where
  "nextNonce n [] = n"
| "nextNonce n (Learned m # es) = nextNonce m es"
| "nextNonce n (Submitted m r # es) = nextNonce (if taken r then n + 1 else n) es"

lemma nextNonce_append [simp]: "nextNonce n (es @ es') = nextNonce (nextNonce n es) es'"
  by (induction n es rule: nextNonce.induct) auto

fun recoveries :: "tool_event list \<Rightarrow> nat" where
  "recoveries [] = 0"
| "recoveries (Learned m # es) = Suc (recoveries es)"
| "recoveries (Submitted m r # es) = recoveries es"

lemma recoveries_append [simp]: "recoveries (es @ es') = recoveries es + recoveries es'"
  by (induction es rule: recoveries.induct) auto

definition tool_inv :: "tool \<Rightarrow> bool" where
  "tool_inv s \<longleftrightarrow> tlStop s \<le> stopCap \<and> (tlPc s = AtReceive \<longrightarrow> 0 < tlStop s) \<and> 0 < recoveries (tlLog s) \<and>
     (tlNonce s = nextNonce 0 (tlLog s) + (if 1 < recoveries (tlLog s) then 1 else 0))"

lemma tool_inv_start: "tool_inv (txsend_start n)"
  by (simp add: tool_inv_def txsend_start_def)

lemma tool_inv_txsend: "txsend_step s s' \<Longrightarrow> tool_inv s \<Longrightarrow> tool_inv s'"
  by (erule txsend_stepE) (auto simp: tool_inv_def)

lemma tool_inv_check: "check_step s s' \<Longrightarrow> tool_inv s \<Longrightarrow> tool_inv s'"
  by (erule check_stepE) (auto simp: tool_inv_def)

lemma tool_inv_reachable: "tool_step\<^sup>*\<^sup>* s s' \<Longrightarrow> tool_inv s \<Longrightarrow> tool_inv s'"
  by (induction rule: rtranclp_induct) (auto simp: tool_step_def intro: tool_inv_txsend tool_inv_check)

text \<open>The sender waits for ever when it signals on the full channel: it is the only receiver.\<close>

definition stuck :: "tool \<Rightarrow> bool" where
  "stuck s \<longleftrightarrow> tlPc s = AtStop \<and> tlStop s = stopCap"

lemma stuck_step: "tool_step s s' \<Longrightarrow> stuck s \<Longrightarrow> stuck s' \<and> tlLog s' = tlLog s"
  unfolding tool_step_def stuck_def by (auto elim!: txsend_stepE check_stepE)

lemma stuck_forever: "tool_step\<^sup>*\<^sup>* s s' \<Longrightarrow> stuck s \<Longrightarrow> stuck s' \<and> tlLog s' = tlLog s"
proof (induction rule: rtranclp_induct)
  case (step y z)
  then show ?case using stuck_step [of y z] by simp
qed simp

lemma enabled: "tool_inv s \<Longrightarrow> \<not> stuck s \<Longrightarrow> tlPc s \<noteq> Exited \<Longrightarrow> \<exists>s'. txsend_step s s'"
proof (cases "tlPc s")
  case AtSelect
  then show ?thesis using select_stop select_default by (cases "tlStop s = 0") blast+
next
  case AtDrain
  then show ?thesis using drained drain by blast
next
  case AtSend
  then show ?thesis using sent [of s None] by (auto simp: taken_def)
next
  case AtReceive
  assume "tool_inv s"
  then show ?thesis using AtReceive receive by (auto simp: tool_inv_def)
next
  case AtStop
  assume "tool_inv s" "\<not> stuck s"
  then have "tlStop s < stopCap" using AtStop by (auto simp: tool_inv_def stuck_def)
  then show ?thesis using AtStop stop by blast
qed (use recover in \<open>blast\<close>)+

lemma watcher_fills:
  assumes "tlPc s \<noteq> Exited" "tlCheck s = CheckSleep" "tlPre s = 0" "tlStop s = 0" "k \<le> stopCap"
  shows "tool_step\<^sup>*\<^sup>* s (s\<lparr>tlStop := k\<rparr>)"
  using assms(5)
proof (induction k)
  case 0
  then show ?case using assms(4) by (cases s) simp
next
  case (Suc k)
  let ?s1 = "s\<lparr>tlStop := k\<rparr>" and ?s2 = "s\<lparr>tlStop := k, tlCheck := CheckStop\<rparr>"
  have "tool_step ?s1 ?s2"
    using same [of ?s1 "Inl e"] assms by (simp add: tool_step_def orZero_def)
  moreover have "tool_step ?s2 (s\<lparr>tlStop := Suc k\<rparr>)"
    using signal [of ?s2] assms Suc.prems by (cases s) (simp add: tool_step_def)
  moreover have "tool_step\<^sup>*\<^sup>* s ?s1" using Suc by simp
  ultimately show ?case by (meson rtranclp.rtrancl_into_rtrancl)
qed

lemma stuck_reachable: "\<exists>s. tool_step\<^sup>*\<^sup>* (txsend_start n) s \<and> stuck s"
proof -
  let ?s0 = "txsend_start n"
  let ?s1 = "?s0\<lparr>tlPc := AtSend\<rparr>"
  let ?s2 = "?s1\<lparr>tlStop := stopCap\<rparr>"
  let ?s3 = "?s2\<lparr>tlPc := AtStop, tlLog := tlLog ?s2 @ [Submitted (tlNonce ?s2) (Some ''timeout'')]\<rparr>"
  have "tool_step ?s0 ?s1" using select_default [of ?s0] by (simp add: tool_step_def txsend_start_def)
  moreover have "tool_step\<^sup>*\<^sup>* ?s1 ?s2" by (rule watcher_fills) (simp_all add: txsend_start_def)
  moreover have "tool_step ?s2 ?s3"
    using failed [of ?s2 "Some ''timeout''"] by (simp add: tool_step_def taken_def)
  moreover have "stuck ?s3" by (simp add: stuck_def)
  ultimately show ?thesis by (meson converse_rtranclp_into_rtranclp rtranclp.rtrancl_into_rtrancl)
qed

text \<open>
  C13. In every reachable state of the load generator the channel holds at most ten signals, the second
  receive in the recovery never blocks, and the nonce that is used is the next one exactly as
  long as there was no recovery: afterwards it is one too large for ever, so that the nonce
  that the node expects is never sent and the node can execute none of the following transactions.
\<close>

theorem txsend_invariant:
  assumes "tool_step\<^sup>*\<^sup>* (txsend_start n) s"
  shows "tlStop s \<le> 10 \<and> (tlPc s = AtReceive \<longrightarrow> (\<exists>s'. txsend_step s s')) \<and>
    tlNonce s = nextNonce 0 (tlLog s) + (if 1 < recoveries (tlLog s) then 1 else 0)"
proof -
  have inv: "tool_inv s" using tool_inv_reachable [OF assms tool_inv_start] .
  moreover have "tlPc s = AtReceive \<longrightarrow> (\<exists>s'. txsend_step s s')"
    using enabled [OF inv] by (auto simp: stuck_def)
  ultimately show ?thesis by (simp add: tool_inv_def stopCap_def)
qed

text \<open>A run with a recovery: the first transaction fails, and the node tells the nonce again.\<close>

definition recoveredTool :: "64 word \<Rightarrow> 64 word \<Rightarrow> tool" where
  "recoveredTool n m = \<lparr>tlNonce = m + 1, tlStop = 0, tlPc = AtDrain, tlCheck = CheckSleep, tlPre = 0,
     tlLog = [Learned n, Submitted n (Some ''timeout''), Learned m]\<rparr>"

lemma recoveredTool_reachable: "tool_step\<^sup>*\<^sup>* (txsend_start n) (recoveredTool n m)"
proof -
  let ?s0 = "txsend_start n"
  let ?s1 = "?s0\<lparr>tlPc := AtSend\<rparr>"
  let ?s2 = "?s0\<lparr>tlPc := AtStop, tlLog := [Learned n, Submitted n (Some ''timeout'')]\<rparr>"
  let ?s3 = "?s2\<lparr>tlStop := 1, tlPc := AtSelect\<rparr>"
  let ?s4 = "?s2\<lparr>tlStop := 0, tlPc := AtRecover\<rparr>"
  have "tool_step ?s0 ?s1" using select_default [of ?s0] by (simp add: tool_step_def txsend_start_def)
  moreover have "tool_step ?s1 ?s2"
    using failed [of ?s1 "Some ''timeout''"] by (simp add: tool_step_def taken_def txsend_start_def)
  moreover have "tool_step ?s2 ?s3" using stop [of ?s2] by (simp add: tool_step_def txsend_start_def stopCap_def)
  moreover have "tool_step ?s3 ?s4" using select_stop [of ?s3] by (simp add: tool_step_def txsend_start_def)
  moreover have "tool_step ?s4 (recoveredTool n m)"
    using recover [of ?s4 m] by (simp add: tool_step_def txsend_start_def recoveredTool_def)
  ultimately show ?thesis by (meson converse_rtranclp_into_rtranclp rtranclp.rtrancl_refl)
qed

theorem txsend_invariant_witness:
  "tlNonce (recoveredTool 7 7) = nextNonce 0 (tlLog (recoveredTool 7 7)) + 1 \<and>
   nextNonce 0 (tlLog (recoveredTool 7 7)) = 7"
  using txsend_invariant [OF recoveredTool_reachable, of 7 7] by (simp add: recoveredTool_def taken_def)

text \<open>
  C14. The sender goes on in every reachable state, except after the end of the process and in one
  case: the watcher has filled the channel while a transaction was on its way and the transaction
  fails. The sender is then blocked on the channel that only it empties, and never sends again. The
  case can happen.
\<close>

theorem txsend_deadlock:
  "(\<forall>s. tool_step\<^sup>*\<^sup>* (txsend_start n) s \<longrightarrow>
     ((\<exists>s'. txsend_step s s') \<or> tlPc s = Exited \<or> (tlPc s = AtStop \<and> tlStop s = 10))) \<and>
   (\<forall>s s'. tlPc s = AtStop \<and> tlStop s = 10 \<longrightarrow> tool_step\<^sup>*\<^sup>* s s' \<longrightarrow>
     tlPc s' = AtStop \<and> tlStop s' = 10 \<and> tlLog s' = tlLog s) \<and>
   (\<exists>s. tool_step\<^sup>*\<^sup>* (txsend_start n) s \<and> tlPc s = AtStop \<and> tlStop s = 10)"
proof (intro conjI allI impI)
  fix s
  assume "tool_step\<^sup>*\<^sup>* (txsend_start n) s"
  then have "tool_inv s" by (rule tool_inv_reachable) (rule tool_inv_start)
  from enabled [OF this] show "(\<exists>s'. txsend_step s s') \<or> tlPc s = Exited \<or> (tlPc s = AtStop \<and> tlStop s = 10)"
    by (auto simp: stuck_def stopCap_def)
next
  fix s s'
  assume "tlPc s = AtStop \<and> tlStop s = 10" "tool_step\<^sup>*\<^sup>* s s'"
  then show "tlPc s' = AtStop" "tlStop s' = 10" "tlLog s' = tlLog s"
    using stuck_forever [of s s'] by (simp_all add: stuck_def stopCap_def)
next
  show "\<exists>s. tool_step\<^sup>*\<^sup>* (txsend_start n) s \<and> tlPc s = AtStop \<and> tlStop s = 10"
    using stuck_reachable [of n] by (simp add: stuck_def stopCap_def)
qed

theorem txsend_deadlock_witness:
  "\<exists>s. tool_step\<^sup>*\<^sup>* (txsend_start 7) s \<and> tlPc s = AtStop \<and> tlStop s = 10"
  using txsend_deadlock [of 7] by blast

end
