(* ===== verification/EthClient.thy ===== *)
theory EthClient
  imports BlockNumber Transport Http Script
begin

text \<open>
  The typed client \<^verbatim>\<open>src/eth1/eth.go\<close> and its copies in \<^verbatim>\<open>src/tool/eth.go\<close>, \<^verbatim>\<open>src/ccRan/eth1.go\<close> and
  \<^verbatim>\<open>src/transfer/ew.go\<close>: a thin layer over the RPC client that fixes the names of the methods and the
  form of their arguments, and a loop that polls for a receipt.
\<close>

section \<open>Arguments\<close>

text \<open>\<^verbatim>\<open>fmt.Sprintf("0x%x", n)\<close>: the sign comes after the prefix, and a nil number is \<^verbatim>\<open><nil>\<close>.\<close>

definition toHexInt :: "int option \<Rightarrow> string" where
  "toHexInt n =
     ''0x'' @ (case n of
        None \<Rightarrow> ''<nil>''
      | Some i \<Rightarrow> (if i < 0 then ''-'' else '''') @ format_base 16 (nat \<bar>i\<bar>))"

record Message =
  msgTo :: "address option"
  msgFrom :: "address option"
  msgValue :: string
  msgGasLimit :: string
  msgGasPrice :: string
  msgData :: "8 word list"

definition NewMessage ::
  "address option \<Rightarrow> address option \<Rightarrow> int option \<Rightarrow> int option \<Rightarrow> int option \<Rightarrow> 8 word list \<Rightarrow> Message" where
  "NewMessage fr to val gasLimit gasPrice data =
     \<lparr>msgTo = to, msgFrom = fr, msgValue = toHexInt val, msgGasLimit = toHexInt gasLimit,
      msgGasPrice = toHexInt gasPrice, msgData = data\<rparr>"

definition toBlockNumArg :: "int option \<Rightarrow> string" where
  "toBlockNumArg number = (case number of None \<Rightarrow> ''latest'' | Some n \<Rightarrow> EncodeBig n)"

section \<open>Calls\<close>

text \<open>
  A call of the RPC client: everything but the method and its arguments is collected here, the
  connection and the state of the client among it. \<open>js\<close> is the JSON of an argument with a type of
  its own.
\<close>

record rpc_env =
  reLib :: jsonlib
  reNet :: network
  reHost :: string
  reCtxErr :: "string option"
  reId :: "32 word"

definition rpcCall ::
  "rpc_env \<Rightarrow> (raw \<Rightarrow> string + govalue) \<Rightarrow> string \<Rightarrow> govalue list \<Rightarrow> (string + govalue) outcome \<times> 32 word" where
  "rpcCall env unm method args =
     Http.CallContext (reLib env) (reNet env) (reHost env) unm (reCtxErr env) (reId env) method args"

definition GetBlockNumber :: "rpc_env \<Rightarrow> (raw \<Rightarrow> string + govalue) \<Rightarrow> (string + govalue) outcome \<times> 32 word" where
  "GetBlockNumber env unm = rpcCall env unm ''eth_blockNumber'' []"

definition SendTransaction ::
  "rpc_env \<Rightarrow> (raw \<Rightarrow> string + govalue) \<Rightarrow> (Message \<Rightarrow> raw) \<Rightarrow> Message \<Rightarrow> (string + govalue) outcome \<times> 32 word" where
  "SendTransaction env unm js tx = rpcCall env unm ''eth_sendTransaction'' [GVal (js tx)]"

text \<open>The transaction is sent as the hexadecimal text of its RLP encoding; nothing is sent when that fails.\<close>

definition SendRawTransaction ::
  "rpc_env \<Rightarrow> (raw \<Rightarrow> string + govalue) \<Rightarrow> ('tx \<Rightarrow> string + 8 word list) \<Rightarrow> 'tx \<Rightarrow> (string + govalue) outcome \<times> 32 word" where
  "SendRawTransaction env unm rlp tx =
     (case rlp tx of
        Inl err \<Rightarrow> (Returns (Inl err), reId env)
      | Inr data \<Rightarrow> rpcCall env unm ''eth_sendRawTransaction'' [GStr (ToHex data)])"

definition QueryTxByHash ::
  "rpc_env \<Rightarrow> (raw \<Rightarrow> string + govalue) \<Rightarrow> raw \<Rightarrow> (string + govalue) outcome \<times> 32 word" where
  "QueryTxByHash env unm txHash = rpcCall env unm ''eth_getWithDrawTransactionByHash'' [GVal txHash]"

definition BaapQuery ::
  "rpc_env \<Rightarrow> (raw \<Rightarrow> string + govalue) \<Rightarrow> raw \<Rightarrow> (string + govalue) outcome \<times> 32 word" where
  "BaapQuery env unm input = rpcCall env unm ''eth_baapQuery'' [GVal input]"

text \<open>The error is ignored: the result is nil then.\<close>

definition QueryUncompletedTxByAddr ::
  "rpc_env \<Rightarrow> (raw \<Rightarrow> string + govalue) \<Rightarrow> raw \<Rightarrow> govalue option outcome \<times> 32 word" where
  "QueryUncompletedTxByAddr env unm myaddr =
     (case rpcCall env unm ''eth_getUncompletedTransactionByAddress'' [GVal myaddr] of
        (Returns r, c) \<Rightarrow> (Returns (case r of Inl _ \<Rightarrow> None | Inr v \<Rightarrow> Some v), c)
      | (Panics, c) \<Rightarrow> (Panics, c)
      | (Blocks, c) \<Rightarrow> (Blocks, c))"

definition GetCommitBlockByNum ::
  "rpc_env \<Rightarrow> (raw \<Rightarrow> string + govalue) \<Rightarrow> int option \<Rightarrow> (string + govalue) outcome \<times> 32 word" where
  "GetCommitBlockByNum env unm number =
     rpcCall env unm ''eth_getCommitBlockByNumber'' [GStr (toBlockNumArg number), GBool True]"

section \<open>Polling for a receipt\<close>

text \<open>
  The loop of the goroutine of \<^verbatim>\<open>CheckTransaction\<close>: \<open>node t\<close> is the receipt at the \<open>t\<close>-th question, or nil; the
  error beside it is ignored. The value is the number of the successful question and the receipt
  that is sent to the channel; the loop has no bound, and a loop that does not end has no value.
\<close>

partial_function (option) checkTransaction :: "(nat \<Rightarrow> 'r option) \<Rightarrow> nat \<Rightarrow> (nat \<times> 'r) option" where
  "checkTransaction node t =
     (case node t of Some receipt \<Rightarrow> Some (t, receipt) | None \<Rightarrow> checkTransaction node (Suc t))"

lemmas checkTransaction_unfold = checkTransaction.simps

lemma checkTransaction_at:
  "node (t + k) = Some r \<Longrightarrow> (\<And>j. j < k \<Longrightarrow> node (t + j) = None) \<Longrightarrow>
   checkTransaction node t = Some (t + k, r)"
proof (induction k arbitrary: t)
  case 0
  then show ?case by (simp add: checkTransaction_unfold [of node t])
next
  case (Suc k)
  have "node t = None" using Suc.prems(2) [of 0] by simp
  moreover have "checkTransaction node (Suc t) = Some (Suc t + k, r)"
  proof (rule Suc.IH)
    show "node (Suc t + k) = Some r" using Suc.prems(1) by simp
    show "node (Suc t + j) = None" if "j < k" for j using Suc.prems(2) [of "Suc j"] that by simp
  qed
  ultimately show ?case by (simp add: checkTransaction_unfold [of node t])
qed

lemma checkTransaction_sound:
  "checkTransaction node t = Some p \<Longrightarrow> t \<le> fst p \<and> node (fst p) = Some (snd p)"
  by (erule checkTransaction.raw_induct [rotated, where P = "\<lambda>node t p. t \<le> fst p \<and> node (fst p) = Some (snd p)"])
     (fastforce split: option.splits)



section \<open>Block numbers between client and server\<close>

lemma unat_word_of_int: "0 \<le> n \<Longrightarrow> n < 2 ^ 64 \<Longrightarrow> unat (word_of_int n :: 64 word) = nat n"
  by (simp add: unsigned_of_int take_bit_int_eq_self)

lemma EncodeBig_64: "0 \<le> n \<Longrightarrow> n < 2 ^ 64 \<Longrightarrow> EncodeBig n = EncodeUint64 (word_of_int n)"
  by (cases "n = 0") (auto simp: EncodeBig_def EncodeUint64_def unat_word_of_int format_base.simps [of 16 0] digit_char_def)

lemma EncodeBig_large: "2 ^ 64 \<le> n \<Longrightarrow> isl (DecodeUint64 (EncodeBig n))"
  by (simp add: EncodeBig_def DecodeUint64_def checkNumber_format [unfolded append.simps]
      ParseUint64_def format_base_parse)

lemma EncodeBig_negative: "n < 0 \<Longrightarrow> isl (DecodeUint64 (EncodeBig n))"
  by (simp add: EncodeBig_def DecodeUint64_def checkNumber_def has0xPrefix_def)

lemma Unmarshal_quoted:
  assumes "isl (DecodeUint64 s)" "s \<notin> {''earliest'', ''latest'', ''pending''}"
  shows "isl (UnmarshalBlockNumber (CHR 0x22 # s @ [CHR 0x22]))"
  using assms by (auto simp: UnmarshalBlockNumber_def Let_def split: sum.splits)

lemma EncodeBig_keyword: "EncodeBig n \<notin> {''earliest'', ''latest'', ''pending''}"
  by (simp add: EncodeBig_def)



end
