(* ===== verification/Crypto.thy ===== *)
theory Crypto
  imports Prelude
begin

text \<open>
  The encryption of \<^verbatim>\<open>src/cryptoSolidity\<close>: SM4 in CBC mode with padding (\<^verbatim>\<open>sm/sm.go\<close>) and AES in CFB mode
  (\<^verbatim>\<open>cryptoSolidity.go\<close> and its copy in \<^verbatim>\<open>query.go\<close>). The block ciphers are third-party code and a
  parameter; the modes are those of Go's \<^verbatim>\<open>crypto/cipher\<close>.
\<close>

type_synonym block = "8 word list"

datatype 'a computed = Done 'a | Failed string | Panicked

text \<open>A block cipher for a key: its two permutations of blocks. The block size of SM4 and AES is 16.\<close>

record cipherBlock =
  Encrypt :: "block \<Rightarrow> block"
  Decrypt :: "block \<Rightarrow> block"

definition BlockSize :: nat where "BlockSize = 16"

definition blockCipher :: "cipherBlock \<Rightarrow> bool" where
  "blockCipher c \<longleftrightarrow> (\<forall>b. length b = BlockSize \<longrightarrow>
     length (Encrypt c b) = BlockSize \<and> Decrypt c (Encrypt c b) = b)"

definition xorBytes :: "8 word list \<Rightarrow> 8 word list \<Rightarrow> 8 word list" where
  "xorBytes as bs = map (\<lambda>(a, b). xor a b) (zip as bs)"

section \<open>Modes\<close>

function cbcEncrypt :: "(block \<Rightarrow> block) \<Rightarrow> block \<Rightarrow> 8 word list \<Rightarrow> 8 word list" where
  "cbcEncrypt E iv src =
     (if src = [] then []
      else let c = E (xorBytes iv (take BlockSize src)) in c @ cbcEncrypt E c (drop BlockSize src))"
  by pat_completeness auto
termination by (relation "measure (\<lambda>(E, iv, src). length src)") (auto simp: BlockSize_def)

function cbcDecrypt :: "(block \<Rightarrow> block) \<Rightarrow> block \<Rightarrow> 8 word list \<Rightarrow> 8 word list" where
  "cbcDecrypt D iv src =
     (if src = [] then []
      else let c = take BlockSize src in xorBytes iv (D c) @ cbcDecrypt D c (drop BlockSize src))"
  by pat_completeness auto
termination by (relation "measure (\<lambda>(D, iv, src). length src)") (auto simp: BlockSize_def)

declare cbcEncrypt.simps [simp del] cbcDecrypt.simps [simp del]

text \<open>
  The constructors of the mode panic when the initial vector has not the size of a block, and
  \<^verbatim>\<open>CryptBlocks\<close> when its input is not a sequence of full blocks.
\<close>

definition CryptBlocks :: "(block \<Rightarrow> 8 word list \<Rightarrow> 8 word list) \<Rightarrow> block \<Rightarrow> 8 word list \<Rightarrow> 8 word list computed" where
  "CryptBlocks mode iv src =
     (if length iv \<noteq> BlockSize \<or> length src mod BlockSize \<noteq> 0 then Panicked else Done (mode iv src))"

text \<open>The CFB mode: the key stream of a block is the encryption of the ciphertext before it.\<close>

function cfbEncrypt :: "(block \<Rightarrow> block) \<Rightarrow> block \<Rightarrow> 8 word list \<Rightarrow> 8 word list" where
  "cfbEncrypt E iv src =
     (if src = [] then []
      else let c = xorBytes (take BlockSize src) (E iv) in c @ cfbEncrypt E c (drop BlockSize src))"
  by pat_completeness auto
termination by (relation "measure (\<lambda>(E, iv, src). length src)") (auto simp: BlockSize_def)

function cfbDecrypt :: "(block \<Rightarrow> block) \<Rightarrow> block \<Rightarrow> 8 word list \<Rightarrow> 8 word list" where
  "cfbDecrypt E iv src =
     (if src = [] then []
      else let c = take BlockSize src in xorBytes c (E iv) @ cfbDecrypt E c (drop BlockSize src))"
  by pat_completeness auto
termination by (relation "measure (\<lambda>(E, iv, src). length src)") (auto simp: BlockSize_def)

declare cfbEncrypt.simps [simp del] cfbDecrypt.simps [simp del]

section \<open>src/cryptoSolidity/sm/sm.go\<close>

definition pkcs5Padding :: "8 word list \<Rightarrow> nat \<Rightarrow> 8 word list" where
  "pkcs5Padding src blockSize =
     (let padding = blockSize - length src mod blockSize in src @ replicate padding (word_of_nat padding))"

text \<open>The last byte is read and cut off without a check: the indexing or the slicing panics.\<close>

definition pkcs5UnPadding :: "8 word list \<Rightarrow> 8 word list computed" where
  "pkcs5UnPadding src =
     (if src = [] then Panicked
      else let unpadding = unat (last src) in
           if length src < unpadding then Panicked else Done (take (length src - unpadding) src))"

definition Sm4Encrypt ::
  "(8 word list \<Rightarrow> string + cipherBlock) \<Rightarrow> 8 word list \<Rightarrow> block \<Rightarrow> 8 word list \<Rightarrow> 8 word list computed" where
  "Sm4Encrypt NewCipher key iv plainText =
     (case NewCipher key of
        Inl err \<Rightarrow> Failed err
      | Inr block \<Rightarrow> CryptBlocks (cbcEncrypt (Encrypt block)) iv (pkcs5Padding plainText BlockSize))"

definition Sm4Decrypt ::
  "(8 word list \<Rightarrow> string + cipherBlock) \<Rightarrow> 8 word list \<Rightarrow> block \<Rightarrow> 8 word list \<Rightarrow> 8 word list computed" where
  "Sm4Decrypt NewCipher key iv cipherText =
     (case NewCipher key of
        Inl err \<Rightarrow> Failed err
      | Inr block \<Rightarrow>
          (case CryptBlocks (cbcDecrypt (Decrypt block)) iv cipherText of
             Done origData \<Rightarrow> pkcs5UnPadding origData
           | r \<Rightarrow> r))"

section \<open>AES in src/cryptoSolidity/cryptoSolidity.go\<close>

text \<open>
  The initial vector \<open>iv\<close> is random and stands before the ciphertext. A key that is refused gives a nil
  cipher, whose first use panics.
\<close>

definition AESEncrypt ::
  "(8 word list \<Rightarrow> string + cipherBlock) \<Rightarrow> block \<Rightarrow> 8 word list \<Rightarrow> 8 word list \<Rightarrow> 8 word list computed" where
  "AESEncrypt NewCipher iv plaintex key =
     (case NewCipher key of
        Inl _ \<Rightarrow> Panicked
      | Inr block \<Rightarrow> Done (iv @ cfbEncrypt (Encrypt block) iv plaintex))"

definition AESDencrytp ::
  "(8 word list \<Rightarrow> string + cipherBlock) \<Rightarrow> 8 word list \<Rightarrow> 8 word list \<Rightarrow> 8 word list computed" where
  "AESDencrytp NewCipher ciphertext key =
     (if length ciphertext < BlockSize then Panicked
      else case NewCipher key of
        Inl _ \<Rightarrow> Panicked
      | Inr block \<Rightarrow> Done (cfbDecrypt (Encrypt block) (take BlockSize ciphertext) (drop BlockSize ciphertext)))"

section \<open>Round trips\<close>

lemma length_xorBytes [simp]: "length (xorBytes as bs) = min (length as) (length bs)"
  by (simp add: xorBytes_def)

lemma xor_cancel: "xor (xor a b) b = (a :: 8 word)" "xor a (xor a b) = b"
  by (simp_all add: xor.assoc xor.assoc [symmetric, of a a])

lemma xorBytes_cancel: "length as \<le> length bs \<Longrightarrow> xorBytes (xorBytes as bs) bs = as"
  by (rule nth_equalityI) (auto simp: xorBytes_def xor_cancel)

lemma xorBytes_cancel_left: "length as = length bs \<Longrightarrow> xorBytes as (xorBytes as bs) = bs"
  by (rule nth_equalityI) (auto simp: xorBytes_def xor_cancel)

lemma BlockSize_pos [simp]: "0 < BlockSize" "BlockSize \<noteq> 0"
  by (simp_all add: BlockSize_def)

lemma cbc_roundtrip:
  assumes "blockCipher c"
  shows "length iv = BlockSize \<Longrightarrow> length src mod BlockSize = 0 \<Longrightarrow>
    cbcDecrypt (Decrypt c) iv (cbcEncrypt (Encrypt c) iv src) = src \<and>
    length (cbcEncrypt (Encrypt c) iv src) = length src"
proof (induction "Encrypt c" iv src rule: cbcEncrypt.induct)
  case (1 iv src)
  show ?case
  proof (cases "src = []")
    case True
    then show ?thesis by (simp add: cbcEncrypt.simps cbcDecrypt.simps)
  next
    case False
    then have len: "BlockSize \<le> length src" using "1.prems"(2)
      by (metis dvd_imp_le length_greater_0_conv mod_0_imp_dvd)
    let ?b = "take BlockSize src" and ?rest = "drop BlockSize src"
    let ?e = "Encrypt c (xorBytes iv ?b)"
    have x: "length (xorBytes iv ?b) = BlockSize" using len "1.prems"(1) by simp
    then have e: "length ?e = BlockSize" "Decrypt c ?e = xorBytes iv ?b"
      using assms unfolding blockCipher_def by blast+
    have r: "length ?rest mod BlockSize = 0" using "1.prems"(2) len by (simp add: mod_if [of "length src"] le_mod_geq)
    note IH = "1.hyps" [OF False refl e(1) r]
    have enc: "cbcEncrypt (Encrypt c) iv src = ?e @ cbcEncrypt (Encrypt c) ?e ?rest"
      using False by (simp add: cbcEncrypt.simps [of _ iv src] Let_def)
    have "?e \<noteq> []" using e(1) by (metis BlockSize_pos(2) list.size(3))
    then have "cbcDecrypt (Decrypt c) iv (?e @ cbcEncrypt (Encrypt c) ?e ?rest) = ?b @ ?rest"
      using e IH len "1.prems"(1) by (simp add: cbcDecrypt.simps [of _ iv "_ @ _"] Let_def xorBytes_cancel_left)
    then show ?thesis using enc e(1) IH len by simp
  qed
qed

lemma cfbDecrypt_step:
  "s \<noteq> [] \<Longrightarrow> take BlockSize s = c \<Longrightarrow> drop BlockSize s = r \<Longrightarrow>
   cfbDecrypt E iv s = xorBytes c (E iv) @ cfbDecrypt E c r"
  by (simp add: cfbDecrypt.simps [of _ iv s] Let_def)

lemma cfb_roundtrip:
  assumes "\<And>b. length b = BlockSize \<Longrightarrow> length (E b) = BlockSize"
  shows "length iv = BlockSize \<Longrightarrow> cfbDecrypt E iv (cfbEncrypt E iv src) = src"
proof (induction "length src" arbitrary: iv src rule: less_induct)
  case less
  show ?case
  proof (cases "src = []")
    case True
    then show ?thesis by (simp add: cfbEncrypt.simps cfbDecrypt.simps)
  next
    case False
    let ?b = "take BlockSize src" and ?rest = "drop BlockSize src"
    let ?c = "xorBytes ?b (E iv)"
    have E: "length (E iv) = BlockSize" using assms less.prems .
    have enc: "cfbEncrypt E iv src = ?c @ cfbEncrypt E ?c ?rest"
      using False by (simp add: cfbEncrypt.simps [of _ iv src] Let_def)
    have ne: "?c \<noteq> []" using False E by (metis BlockSize_pos(2) length_0_conv length_xorBytes min_def take_eq_Nil2)
    have rest: "cfbDecrypt E ?c (cfbEncrypt E ?c ?rest) = ?rest"
    proof (cases "BlockSize \<le> length src")
      case True
      then have "length ?rest < length src" "length ?c = BlockSize" using False E by simp_all
      then show ?thesis using less.hyps by blast
    qed (simp add: cfbEncrypt.simps cfbDecrypt.simps)
    have t: "take BlockSize (?c @ cfbEncrypt E ?c ?rest) = ?c" "drop BlockSize (?c @ cfbEncrypt E ?c ?rest) = cfbEncrypt E ?c ?rest"
      using E by (cases "BlockSize \<le> length src"; simp add: cfbEncrypt.simps)+
    have "cfbDecrypt E iv (?c @ cfbEncrypt E ?c ?rest) = xorBytes ?c (E iv) @ ?rest"
      using ne by (simp add: cfbDecrypt_step [OF _ t] rest)
    also have "xorBytes ?c (E iv) = ?b" using E by (simp add: xorBytes_cancel)
    finally show ?thesis using enc by simp
  qed
qed

lemma length_pkcs5Padding: "length (pkcs5Padding src BlockSize) = (length src div BlockSize + 1) * BlockSize"
proof -
  have "length src mod BlockSize < BlockSize" by simp
  then have "length src + (BlockSize - length src mod BlockSize) = (length src - length src mod BlockSize) + BlockSize"
    using mod_less_eq_dividend [of "length src" BlockSize] by linarith
  also have "\<dots> = length src div BlockSize * BlockSize + BlockSize" by (simp add: minus_mod_eq_div_mult)
  finally show ?thesis by (simp add: pkcs5Padding_def Let_def)
qed

lemma pkcs5_roundtrip: "pkcs5UnPadding (pkcs5Padding src BlockSize) = Done src"
proof -
  define p where "p = BlockSize - length src mod BlockSize"
  have p: "0 < p" "p < 256" by (simp_all add: p_def BlockSize_def)
  then have "unat (word_of_nat p :: 8 word) = p" by (simp add: unat_of_nat take_bit_nat_eq_self)
  then show ?thesis
    using p(1) by (simp add: pkcs5Padding_def p_def [symmetric] pkcs5UnPadding_def Let_def)
qed

lemma Sm4_roundtrip:
  assumes "NewCipher key = Inr c" "blockCipher c" "length iv = BlockSize"
  shows "\<exists>ct. Sm4Encrypt NewCipher key iv plain = Done ct \<and> length ct = (length plain div 16 + 1) * 16 \<and>
    Sm4Decrypt NewCipher key iv ct = Done plain"
proof -
  let ?p = "pkcs5Padding plain BlockSize"
  have m: "length ?p mod BlockSize = 0" by (simp add: length_pkcs5Padding)
  note r = cbc_roundtrip [OF assms(2,3) m]
  then show ?thesis
    using assms(1,3) m length_pkcs5Padding [of plain] pkcs5_roundtrip [of plain]
    by (simp add: Sm4Encrypt_def Sm4Decrypt_def CryptBlocks_def BlockSize_def)
qed

text \<open>
  C26. What is encrypted can be decrypted. With the same key and initial vector, \<^verbatim>\<open>Sm4Decrypt\<close> returns the
  plain text of every length from the result of \<^verbatim>\<open>Sm4Encrypt\<close>, which is the next multiple of the
  block size long; \<^verbatim>\<open>AESDencrytp\<close> returns the plain text from the result of \<^verbatim>\<open>AESEncrypt\<close> for every
  random initial vector. Neither panics.
\<close>

theorem encryption_roundtrip:
  assumes "NewCipher key = Inr c" "blockCipher c" "length iv = BlockSize"
  shows "(\<exists>ct. Sm4Encrypt NewCipher key iv plain = Done ct \<and> length ct = (length plain div 16 + 1) * 16 \<and>
      Sm4Decrypt NewCipher key iv ct = Done plain) \<and>
    (\<exists>ct. AESEncrypt NewCipher iv plain key = Done ct \<and> AESDencrytp NewCipher ct key = Done plain)"
proof
  show "\<exists>ct. Sm4Encrypt NewCipher key iv plain = Done ct \<and> length ct = (length plain div 16 + 1) * 16 \<and>
      Sm4Decrypt NewCipher key iv ct = Done plain"
    using assms by (rule Sm4_roundtrip)
  have "cfbDecrypt (Encrypt c) iv (cfbEncrypt (Encrypt c) iv plain) = plain"
    by (rule cfb_roundtrip) (use assms(2,3) in \<open>auto simp: blockCipher_def\<close>)
  then show "\<exists>ct. AESEncrypt NewCipher iv plain key = Done ct \<and> AESDencrytp NewCipher ct key = Done plain"
    using assms(1,3) by (simp add: AESEncrypt_def AESDencrytp_def)
qed

text \<open>A cipher to evaluate the theorem with: it adds the key and reverses the block.\<close>

definition sampleCipher :: "8 word list \<Rightarrow> string + cipherBlock" where
  "sampleCipher key = Inr \<lparr>Encrypt = (\<lambda>b. rev (map (\<lambda>x. x + hd key) b)),
     Decrypt = (\<lambda>b. map (\<lambda>x. x - hd key) (rev b))\<rparr>"

lemma sampleCipher_ok: "\<exists>c. sampleCipher key = Inr c \<and> blockCipher c"
  by (simp add: sampleCipher_def blockCipher_def rev_map comp_def)

theorem encryption_roundtrip_witness:
  "\<exists>ct. Sm4Encrypt sampleCipher [7] (replicate 16 0) [1, 2, 3] = Done ct \<and> length ct = 16 \<and>
     Sm4Decrypt sampleCipher [7] (replicate 16 0) ct = Done [1, 2, 3]"
proof -
  obtain c where c: "sampleCipher [7] = Inr c" "blockCipher c" using sampleCipher_ok by blast
  from encryption_roundtrip [of sampleCipher "[7]" c "replicate 16 0" "[1, 2, 3]", OF c] show ?thesis
    by (simp add: BlockSize_def)
qed

text \<open>
  The decryption of bytes that no encryption produced may panic: there is no check of the padding.
\<close>

lemma Sm4Decrypt_panics:
  assumes "NewCipher key = Inr c"
  shows "Sm4Decrypt NewCipher key iv [] = Panicked"
    and "length ct mod BlockSize \<noteq> 0 \<Longrightarrow> Sm4Decrypt NewCipher key iv ct = Panicked"
  using assms by (simp_all add: Sm4Decrypt_def CryptBlocks_def pkcs5UnPadding_def cbcDecrypt.simps)

end
