(* ===== verification/OneShot.thy ===== *)
theory OneShot
  imports SenderLaws
begin

text \<open>
  The programs that send one transaction, or a fixed number of them, and end: transfers between chains,
  the administration of the chain, deployment and calls of contracts and chaincode. Payloads that a
  library encodes are arguments: \<open>js\<close> for \<^verbatim>\<open>json.Marshal\<close> of the struct of the program.
\<close>

section \<open>Common parts\<close>

definition sendOnce :: "cryptolib \<Rightarrow> node \<Rightarrow> transaction \<Rightarrow> signer \<Rightarrow> privkey \<Rightarrow> (unit + exit) script" where
  "sendOnce lib nd tx sg key =
     do { err \<leftarrow> sendRaw nd (orNil (SignTx lib tx sg key)); State_Monad.return (Inr Return) }"

text \<open>
  The programs that ignore the error of the connection: the client is nil then, and the first call
  panics. \<open>onKey\<close> says what a bad key does.
\<close>

definition withAccountNil ::
  "cryptolib \<Rightarrow> node \<Rightarrow> string \<Rightarrow> string \<Rightarrow> exit \<Rightarrow> exit \<Rightarrow>
     (privkey \<Rightarrow> address \<Rightarrow> 64 word \<Rightarrow> ('s + exit) script) \<Rightarrow> ('s + exit) script" where
  "withAccountNil lib nd host hexKey onKey onNonce k =
     do {
       err \<leftarrow> dial nd host;
       case HexToECDSA lib hexKey of
         Inl _ \<Rightarrow> State_Monad.return (Inr onKey)
       | Inr key \<Rightarrow>
           (case err of
              Some _ \<Rightarrow> State_Monad.return (Inr Panic)
            | None \<Rightarrow>
                do {
                  r \<leftarrow> nonceAt nd (PubkeyToAddress lib key);
                  case r of
                    Inl _ \<Rightarrow> State_Monad.return (Inr onNonce)
                  | Inr nonce \<Rightarrow> k key (PubkeyToAddress lib key) nonce
                })
     }"

text \<open>The address of a system contract: the last 20 bytes of the hash of its name.\<close>

definition systemContract :: "cryptolib \<Rightarrow> string \<Rightarrow> address" where
  "systemContract lib name = BytesToAddress (drop 12 (Keccak256 lib (bytesOf name)))"

section \<open>Transfers between chains and the white list\<close>

record XChainTransferDeposit =
  SrcChainID :: string
  SrcChainOwner :: address
  TxMsg :: string

definition deposit_main ::
  "cryptolib \<Rightarrow> node \<Rightarrow> (XChainTransferDeposit \<Rightarrow> string + 8 word list) \<Rightarrow> string \<Rightarrow> (unit + exit) script" where
  "deposit_main lib nd js txMsg =
     withAccount lib nd ''http://10.0.0.110:8545''
       ''a2f1a32e5234f64a6624210b871c22909034f24a52166369c2619681390433aa'' Return Return
       (\<lambda>key from nonce.
          case js \<lparr>SrcChainID = ''739'', SrcChainOwner = HexToAddress ''123'', TxMsg = txMsg\<rparr> of
            Inl _ \<Rightarrow> State_Monad.return (Inr Return)
          | Inr paload \<Rightarrow>
              sendOnce lib nd
                (NewTransaction nonce (Keccak256ToAddress lib ''x-chain-transfer-deposit'') 0 4712388 20000000000 paload)
                HomesteadSigner key)"

record XChainTransferWithdraw =
  DstChainID :: string
  DstChainOwner :: address
  DstUserAddr :: address
  DstContractAddr :: string

text \<open>The nonce of the account is asked for and then set to zero.\<close>

definition withdraw_main ::
  "cryptolib \<Rightarrow> node \<Rightarrow> (XChainTransferWithdraw \<Rightarrow> string + 8 word list) \<Rightarrow> (unit + exit) script" where
  "withdraw_main lib nd js =
     withAccount lib nd ''http://127.0.0.1:8546''
       ''a9f1481564399443bb39188d3f8da55585c9238ab175010b81e7a28956559381'' Return Return
       (\<lambda>key from nonce.
          case js \<lparr>DstChainID = ''738'', DstChainOwner = HexToAddress ''123'',
                   DstUserAddr = HexToAddress ''251b3740a02a1c5cf5ffcdf60d42ed2a8398ddc8'', DstContractAddr = ''321''\<rparr> of
            Inl _ \<Rightarrow> State_Monad.return (Inr Return)
          | Inr payload \<Rightarrow>
              sendOnce lib nd
                (NewTransaction 0 (Keccak256ToAddress lib ''x-chain-transfer-withdraw'') 9000000000000000000 4712388
                   240000000000 payload)
                HomesteadSigner key)"

record WhiteList =
  Nodes :: "string list"
  wlType :: int

definition whitelist_main ::
  "cryptolib \<Rightarrow> node \<Rightarrow> (WhiteList \<Rightarrow> string + 8 word list) \<Rightarrow> (unit + exit) script" where
  "whitelist_main lib nd js =
     withAccount lib nd ''http://10.0.0.148:8545''
       ''a2f1a32e5234f64a6624210b871c22909034f24a52166369c2619681390433aa'' Return Return
       (\<lambda>key from nonce.
          case js \<lparr>Nodes = [''a''], wlType = 1\<rparr> of
            Inl _ \<Rightarrow> State_Monad.return (Inr Return)
          | Inr payload \<Rightarrow>
              sendOnce lib nd
                (NewTransaction nonce (Keccak256ToAddress lib ''trust-tx-white-list'') 9000000000000000000 4712388
                   20000000000 payload)
                HomesteadSigner key)"

section \<open>Administration of the chain\<close>

record ConsensusNodeUpdate =
  NodeType :: int
  FromChainID :: "64 word"
  ToChainID :: "64 word"
  Cert :: string
  cnuAddress :: "address list"
  CommitHeight :: "64 word"
  NuAdmCrt :: string

text \<open>Errors of \<^verbatim>\<open>json.Marshal\<close> are ignored here and below: the payload is nil then.\<close>

definition orEmpty :: "string + 8 word list \<Rightarrow> 8 word list" where
  "orEmpty r = (case r of Inl _ \<Rightarrow> [] | Inr b \<Rightarrow> b)"

definition nodeUpdate_main ::
  "cryptolib \<Rightarrow> node \<Rightarrow> (ConsensusNodeUpdate \<Rightarrow> string + 8 word list) \<Rightarrow> (unit + exit) script" where
  "nodeUpdate_main lib nd js =
     withAccountNil lib nd ''http://127.0.0.1:8547''
       ''d29ce71545474451d8292838d4a0680a8444e6e4c14da018b4a08345fb2bbb84'' Panic Return
       (\<lambda>key from nonce.
          sendOnce lib nd
            (NewTransaction nonce (systemContract lib ''consensus-node-update'') 0 21000 9000000000
               (orEmpty (js \<lparr>NodeType = 0, FromChainID = 0, ToChainID = 0, Cert = '''',
                  cnuAddress = [HexToAddress ''0x7de2a31d6ca36302ea7b7917c4fc5ef4c12913b6''],
                  CommitHeight = 505, NuAdmCrt = ''''\<rparr>)))
            (EIP155Signer 739) key)"

definition increase_main :: "cryptolib \<Rightarrow> node \<Rightarrow> (unit + exit) script" where
  "increase_main lib nd =
     withAccountNil lib nd ''http://127.0.0.1:8547''
       ''d29ce71545474451d8292838d4a0680a8444e6e4c14da018b4a08345fb2bbb84'' Return Return
       (\<lambda>key from nonce.
          sendOnce lib nd
            (NewTransaction nonce (systemContract lib ''inCrease'') 0 4712388 240000000000 (bytesOf (itoa_int 8888888)))
            (EIP155Signer 111) key)"

text \<open>The round of the vote is the nonce of the contract, at least one; its error is ignored.\<close>

definition restoreLand_main :: "cryptolib \<Rightarrow> node \<Rightarrow> (unit + exit) script" where
  "restoreLand_main lib nd =
     withAccountNil lib nd ''http://39.100.210.205:30100''
       ''88d443480e5f6954cfcb394da4b8f1575ddfa97d893e4decefabbe0364fdec27'' Return Return
       (\<lambda>key from nonce.
          do {
            v \<leftarrow> nonceAt nd (systemContract lib ''QuorumReset'');
            let vote = (if orZero v = 0 then 1 else orZero v) in
            sendOnce lib nd
              (NewTransaction nonce (systemContract lib ''QuorumReset'') 0 4712388 (4000 * 10 ^ 9)
                 (bytesOf (itoa (unat vote))))
              (EIP155Signer 1001) key
          })"

definition stateTest_main :: "cryptolib \<Rightarrow> node \<Rightarrow> (unit + exit) script" where
  "stateTest_main lib nd =
     withAccountNil lib nd ''http://127.0.0.1:8547''
       ''d29ce71545474451d8292838d4a0680a8444e6e4c14da018b4a08345fb2bbb84'' Return Return
       (\<lambda>key from nonce.
          sendOnce lib nd (NewTransaction nonce (systemContract lib ''liutset'') 0 4712388 240000000000 [])
            (EIP155Signer 739) key)"

text \<open>The program with an SM2 key also asks for the nonce of the recipient; \<open>data\<close> is the text with the token.\<close>

definition sm2Jwt_main :: "cryptolib \<Rightarrow> node \<Rightarrow> 8 word list \<Rightarrow> (unit + exit) script" where
  "sm2Jwt_main lib nd data =
     withSm2Account lib nd ''http://192.168.3.3:8546'' ''a2f1a32e5234f64a6624210b871c22909034f24a52166369c2619681390433aa''
       (\<lambda>key from nonce.
          do {
            nc \<leftarrow> nonceAt nd (HexToAddress ''251b3740a02a1c5cf5ffcdf60d42ed2a8398ddc8'');
            case nc of
              Inl _ \<Rightarrow> State_Monad.return (Inr Return)
            | Inr _ \<Rightarrow>
                sendOnce lib nd
                  (NewTransaction nonce (HexToAddress ''251b3740a02a1c5cf5ffcdf60d42ed2a8398ddc8'')
                     (0 * 1000000000000000000) 21000 399000000000 data)
                  (Sm2Signer 738) key
          })"

section \<open>Contracts and chaincode\<close>

definition ccInvoke_main :: "cryptolib \<Rightarrow> node \<Rightarrow> (unit + exit) script" where
  "ccInvoke_main lib nd =
     withAccount lib nd ''http://10.0.0.113:22222''
       ''d29ce71545474451d8292838d4a0680a8444e6e4c14da018b4a08345fb2bbb84'' Return Return
       (\<lambda>key from nonce.
          case invokePayload lib ''put'' [bytesOf ''a'', bytesOf (replicate 10 (CHR ''a''))] [(''baap-tx-type'', bytesOf ''exec'')] of
            Inl _ \<Rightarrow> State_Monad.return (Inr Return)
          | Inr data \<Rightarrow>
              sendOnce lib nd
                (NewTransaction nonce (HexToAddress ''0x14632e85D8Cb91D943BD63e08E15DA8411DF2382'') 0 4712388 20000000000 data)
                (EIP155Signer 777) key)"

text \<open>
  The deployment of chaincode sends forty transactions; the nonce advances whether a transaction was
  accepted or not. The same for the loop of \<^verbatim>\<open>callsol.go\<close>, which makes one turn.
\<close>

fun sendAdvance :: "cryptolib \<Rightarrow> node \<Rightarrow> (64 word \<Rightarrow> transaction) \<Rightarrow> signer \<Rightarrow> privkey \<Rightarrow> nat \<Rightarrow> 64 word \<Rightarrow> (unit + exit) script" where
  "sendAdvance lib nd mk sg key 0 nonce = State_Monad.return (Inr Return)"
| "sendAdvance lib nd mk sg key (Suc k) nonce =
     do {
       err \<leftarrow> sendRaw nd (orNil (SignTx lib (mk nonce) sg key));
       sendAdvance lib nd mk sg key k (nonce + 1)
     }"

definition ccDeploy_owner :: string where "ccDeploy_owner = ''8000d109DAef5C81799bC01D4d82B0589dEEDb33''"
definition ccDeploy_name :: string where "ccDeploy_name = ''testcc02''"

definition ccDeploy_payload :: "cryptolib \<Rightarrow> 8 word list \<Rightarrow> 8 word list \<Rightarrow> string + 8 word list" where
  "ccDeploy_payload lib deployInfoBuf myccBuf =
     ProtoMarshal lib (PTransaction 2
       (orEmpty (ProtoMarshal lib (Deployment ccDeploy_owner ccDeploy_name
          (Invocation ''deploy'' [deployInfoBuf]
             [(''baap-tx-type'', bytesOf ''exec''), (''baap-cc-code'', myccBuf)])))))"

definition ccDeploy_send ::
  "cryptolib \<Rightarrow> node \<Rightarrow> (privkey \<Rightarrow> string + 8 word list) \<Rightarrow> privkey \<Rightarrow> address \<Rightarrow> 64 word \<Rightarrow> (unit + exit) script" where
  "ccDeploy_send lib nd deployInfo key from nonce =
     (let to = Keccak256ToAddress lib '':baap-deploy'' in
      case deployInfo key of
        Inl _ \<Rightarrow> State_Monad.return (Inr Return)
      | Inr deployInfoBuf \<Rightarrow>
          do {
            f \<leftarrow> readFile nd ''/Users/liu/Desktop/lian/MyCc.java'';
            case f of
              Inl _ \<Rightarrow> State_Monad.return (Inr Return)
            | Inr myccBuf \<Rightarrow>
                (case ccDeploy_payload lib deployInfoBuf myccBuf of
                   Inl _ \<Rightarrow> State_Monad.return (Inr Return)
                 | Inr data \<Rightarrow>
                     do {
                       g \<leftarrow> estimateGas nd \<lparr>cmFrom = Some from, cmTo = Some to, cmValue = 0, cmData = data\<rparr>;
                       case g of
                         Inl _ \<Rightarrow> State_Monad.return (Inr Return)
                       | Inr gas \<Rightarrow>
                           sendAdvance lib nd (\<lambda>n. NewTransaction n to 0 gas 2000000000 data) (EIP155Signer 777) key 40 nonce
                     })
          })"

definition ccDeploy_main ::
  "cryptolib \<Rightarrow> node \<Rightarrow> (privkey \<Rightarrow> string + 8 word list) \<Rightarrow> (unit + exit) script" where
  "ccDeploy_main lib nd deployInfo =
     withAccount lib nd ''http://8.130.164.241:22222''
       ''d29ce71545474451d8292838d4a0680a8444e6e4c14da018b4a08345fb2bbb84'' Return Return
       (ccDeploy_send lib nd deployInfo)"

definition callsolOnce_main :: "cryptolib \<Rightarrow> node \<Rightarrow> 8 word list \<Rightarrow> (unit + exit) script" where
  "callsolOnce_main lib nd abiBuf =
     do {
       err \<leftarrow> dial nd ''http://127.0.0.1:8547'';
       case err of
         Some _ \<Rightarrow> State_Monad.return (Inr Fatal)
       | None \<Rightarrow>
           (case HexToECDSA lib ''a9f1481564399443bb39188d3f8da55585c9238ab175010b81e7a28956559381'' of
              Inl _ \<Rightarrow> State_Monad.return (Inr Fatal)
            | Inr key \<Rightarrow>
                (let from = PubkeyToAddress lib key; To = HexToAddress ''0xDd1588125971b4Ca7a876A4Ea7Ae177e69bf436C'' in
                 do {
                   r \<leftarrow> nonceAt nd from;
                   case r of
                     Inl _ \<Rightarrow> State_Monad.return (Inr Return)
                   | Inr nonce \<Rightarrow>
                       do {
                         g \<leftarrow> estimateGas nd \<lparr>cmFrom = Some from, cmTo = Some To, cmValue = 0, cmData = abiBuf\<rparr>;
                         case g of
                           Inl _ \<Rightarrow> State_Monad.return (Inr Return)
                         | Inr gas \<Rightarrow>
                             sendAdvance lib nd (\<lambda>n. NewTransaction n To 0 gas (4000 * 10 ^ 9) abiBuf) (EIP155Signer 777) key 1 nonce
                       }
                 }))
     }"

text \<open>
  \<^verbatim>\<open>deploysol.go\<close> asks for the nonce and then starts with 43; it stops at the first refused transaction.
\<close>

fun deploy_loop :: "cryptolib \<Rightarrow> node \<Rightarrow> (64 word \<Rightarrow> transaction) \<Rightarrow> signer \<Rightarrow> privkey \<Rightarrow> nat \<Rightarrow> 64 word \<Rightarrow> (unit + exit) script" where
  "deploy_loop lib nd mk sg key 0 nonce = State_Monad.return (Inr Return)"
| "deploy_loop lib nd mk sg key (Suc k) nonce =
     (case SignTx lib (mk nonce) sg key of
        Inl _ \<Rightarrow> State_Monad.return (Inr Fatal)
      | Inr st \<Rightarrow>
          do {
            err \<leftarrow> sendRaw nd (Some st);
            case err of
              Some _ \<Rightarrow> State_Monad.return (Inr Return)
            | None \<Rightarrow> deploy_loop lib nd mk sg key k (nonce + 1)
          })"

definition deploysol_main :: "cryptolib \<Rightarrow> node \<Rightarrow> 8 word list \<Rightarrow> (unit + exit) script" where
  "deploysol_main lib nd code =
     withAccountNil lib nd ''http://123.57.75.146:30100''
       ''b7ffa182bbe247ff00e953547eb854b9b1dd1257889a407914e37472690160d7'' Fatal Fatal
       (\<lambda>key from nonce.
          do {
            g \<leftarrow> estimateGas nd \<lparr>cmFrom = Some from, cmTo = None, cmValue = 0, cmData = code\<rparr>;
            case g of
              Inl _ \<Rightarrow> State_Monad.return (Inr Return)
            | Inr gas \<Rightarrow>
                deploy_loop lib nd (\<lambda>n. NewContractCreation n 0 gas (10 ^ 9 * 4000) code) (EIP155Signer 739) key 2 43
          })"

definition PutWasm :: "cryptolib \<Rightarrow> node \<Rightarrow> string \<Rightarrow> address \<Rightarrow> (unit + exit) script" where
  "PutWasm lib nd privKey to =
     (case HexToECDSA lib privKey of
        Inl _ \<Rightarrow> State_Monad.return (Inr Fatal)
      | Inr key \<Rightarrow>
          do {
            r \<leftarrow> pendingNonceAt nd (PubkeyToAddress lib key);
            case SignTx lib (NewTransaction (orZero r) to 0 40000000 (10 ^ 9 * 18) (bytesOf ''put:pdx,222''))
                   (EIP155Signer 111) key of
              Inl _ \<Rightarrow> State_Monad.return (Inr Fatal)
            | Inr st \<Rightarrow> do { err \<leftarrow> sendRaw nd (Some st); State_Monad.return (Inr Return) }
          })"

definition IsWASM :: "8 word list \<Rightarrow> bool" where
  "IsWASM code \<longleftrightarrow> \<not> (length code < 4 \<or> take 4 code \<noteq> [0, 0x61, 0x73, 0x6D])"

text \<open>
  The function returns after the estimation of the gas, before the statements that sign and send.
  A file that cannot be opened gives nil code, which the slice expression does not take.
\<close>

definition DeployWasm :: "cryptolib \<Rightarrow> node \<Rightarrow> string \<Rightarrow> string \<Rightarrow> (address + exit) script" where
  "DeployWasm lib nd privKey path =
     do {
       f \<leftarrow> readFile nd path;
       case f of
         Inl _ \<Rightarrow> State_Monad.return (Inr Panic)
       | Inr code \<Rightarrow>
           (case HexToECDSA lib privKey of
              Inl _ \<Rightarrow> State_Monad.return (Inr Fatal)
            | Inr key \<Rightarrow>
                do {
                  r \<leftarrow> pendingNonceAt nd (PubkeyToAddress lib key);
                  g \<leftarrow> estimateGas nd \<lparr>cmFrom = Some (PubkeyToAddress lib key), cmTo = None, cmValue = 0, cmData = code\<rparr>;
                  State_Monad.return (Inl (replicate AddressLength 0))
                })
     }"

section \<open>What they send\<close>

fun submitted :: "event list \<Rightarrow> signedTx list" where
  "submitted [] = []"
| "submitted (EvSend (Some st) r # h) = st # submitted h"
| "submitted (_ # h) = submitted h"

text \<open>At most one transaction, with the nonce that the node told for the account that signs it.\<close>

definition singleSend :: "cryptolib \<Rightarrow> event list \<Rightarrow> bool" where
  "singleSend lib h \<longleftrightarrow> length (submitted h) \<le> 1 \<and>
     (\<forall>st \<in> set (submitted h). EvNonceAt (PubkeyToAddress lib (snd (snd st))) (Inr (txNonce (fst st))) \<in> set h)"

lemmas one_shot = events_def withAccount_def withAccountNil_def withSm2Account_def sendOnce_def run_script
  SignTx_def orNil_def Let_def singleSend_def

lemma deposit_single: "singleSend lib (events (deposit_main lib nd js txMsg))"
  by (simp add: deposit_main_def one_shot split: option.splits sum.splits)

lemma whitelist_single: "singleSend lib (events (whitelist_main lib nd js))"
  by (simp add: whitelist_main_def one_shot split: option.splits sum.splits)

lemma nodeUpdate_single: "singleSend lib (events (nodeUpdate_main lib nd js))"
  by (simp add: nodeUpdate_main_def one_shot split: option.splits sum.splits)

lemma increase_single: "singleSend lib (events (increase_main lib nd))"
  by (simp add: increase_main_def one_shot split: option.splits sum.splits)

lemma restoreLand_single: "singleSend lib (events (restoreLand_main lib nd))"
  by (simp add: restoreLand_main_def one_shot split: option.splits sum.splits)

lemma stateTest_single: "singleSend lib (events (stateTest_main lib nd))"
  by (simp add: stateTest_main_def one_shot split: option.splits sum.splits)

lemma sm2Jwt_single: "singleSend lib (events (sm2Jwt_main lib nd data))"
  by (simp add: sm2Jwt_main_def one_shot split: option.splits sum.splits)

lemma ccInvoke_single: "singleSend lib (events (ccInvoke_main lib nd))"
  by (simp add: ccInvoke_main_def one_shot split: option.splits sum.splits)

lemma callsolOnce_single: "singleSend lib (events (callsolOnce_main lib nd abiBuf))"
  by (simp add: callsolOnce_main_def one_shot split: option.splits sum.splits)

lemma DeployWasm_sends_nothing: "submitted (events (DeployWasm lib nd key path)) = []"
  by (simp add: DeployWasm_def one_shot split: option.splits sum.splits)

lemma withdraw_zero: "\<forall>st \<in> set (submitted (events (withdraw_main lib nd js))). txNonce (fst st) = 0"
  by (simp add: withdraw_main_def one_shot split: option.splits sum.splits)


lemma stateTest_sample:
  "submitted (events (stateTest_main sampleLib (sampleNode 7))) =
     [(NewTransaction 7 (systemContract sampleLib ''liutset'') 0 4712388 240000000000 [], EIP155Signer 739, 64)]"
  by (simp add: stateTest_main_def one_shot sampleLib_def sampleNode_def)


section \<open>Forty deployments\<close>

fun outcomes :: "event list \<Rightarrow> string option list" where
  "outcomes [] = []"
| "outcomes (EvSend st r # h) = r # outcomes h"
| "outcomes (_ # h) = outcomes h"

lemma outcomes_append [simp]: "outcomes (h @ h') = outcomes h @ outcomes h'"
  by (induction h rule: outcomes.induct) auto

fun sends :: "(64 word \<Rightarrow> signedTx) \<Rightarrow> 64 word \<Rightarrow> string option list \<Rightarrow> event list" where
  "sends mk n [] = []"
| "sends mk n (r # rs) = EvSend (Some (mk n)) r # sends mk (n + 1) rs"

lemma outcomes_sends [simp]: "outcomes (sends mk n rs) = rs"
  by (induction rs arbitrary: n) auto

lemma sendAdvance_run:
  assumes "signs lib"
  shows "\<exists>rs. length rs = k \<and>
    snd (run_state (sendAdvance lib nd mk sg key k n) h) = h @ sends (\<lambda>n. (mk n, sg, key)) n rs"
proof (induction k arbitrary: n h)
  case (Suc k)
  let ?st = "Some (mk n, sg, key)"
  obtain rs where "length rs = k" "snd (run_state (sendAdvance lib nd mk sg key k (n + 1)) (h @ [EvSend ?st (ndSend nd h ?st)])) =
      (h @ [EvSend ?st (ndSend nd h ?st)]) @ sends (\<lambda>n. (mk n, sg, key)) (n + 1) rs"
    using Suc.IH by blast
  then show ?case using assms by (intro exI [of _ "ndSend nd h ?st # rs"]) (simp add: run_script)
qed simp

lemma sends_disciplined:
  assumes "\<And>n. txNonce (fst (mk n)) = n"
  shows "foldl ns_step (Next n) (sends mk n rs) \<noteq> Broken \<longleftrightarrow> (\<forall>r \<in> set (butlast rs). r = None)"
proof (induction rs arbitrary: n)
  case (Cons r rs)
  have broken: "foldl ns_step (Next n) (sends mk (n + 1) rs) = Broken" if "rs \<noteq> []"
    using that assms by (cases rs) (simp_all add: foldl_Broken)
  show ?case using Cons [of "n + 1"] broken assms by (cases r; cases rs) auto
qed simp

text \<open>
  A run either sends nothing, or sends its transactions one after the other from a point where the
  next nonce is known.
\<close>

definition advancing :: "event list \<Rightarrow> bool" where
  "advancing h \<longleftrightarrow> disciplined h \<and> outcomes h = [] \<or>
     (\<exists>h0 n mk rs. (\<forall>n. txNonce (fst (mk n)) = n) \<and> expected h0 = Next n \<and> outcomes h0 = [] \<and> h = h0 @ sends mk n rs)"

lemma advancing_iff:
  assumes "advancing h"
  shows "disciplined h \<longleftrightarrow> (\<forall>r \<in> set (butlast (outcomes h)). r = None)"
  using assms unfolding advancing_def
proof
  assume "\<exists>h0 n mk rs. (\<forall>n. txNonce (fst (mk n)) = n) \<and> expected h0 = Next n \<and> outcomes h0 = [] \<and> h = h0 @ sends mk n rs"
  then obtain h0 n mk rs where *: "\<And>n. txNonce (fst (mk n)) = n" "expected h0 = Next n" "outcomes h0 = []"
    "h = h0 @ sends mk n rs" by blast
  then have "disciplined h \<longleftrightarrow> foldl ns_step (Next n) (sends mk n rs) \<noteq> Broken"
    by (simp add: disciplined_def expected_def)
  then show ?thesis using * sends_disciplined [of mk, OF *(1)] by simp
qed simp

lemma sendAdvance_advancing:
  assumes "signs lib" "\<And>n. txNonce (mk n) = n" "expected h = Next n" "outcomes h = []"
  shows "advancing (snd (run_state (sendAdvance lib nd mk sg key k n) h))"
proof -
  obtain rs where rs: "snd (run_state (sendAdvance lib nd mk sg key k n) h) = h @ sends (\<lambda>n. (mk n, sg, key)) n rs"
    using sendAdvance_run [OF assms(1)] by blast
  show ?thesis unfolding advancing_def
  proof (rule disjI2, intro exI conjI)
    show "\<forall>n. txNonce (fst (mk n, sg, key)) = n" using assms(2) by simp
  qed (use assms(3, 4) rs in simp_all)
qed

lemma ccDeploy_send_advancing:
  assumes "signs lib" "expected h = Next n" "outcomes h = []"
  shows "advancing (snd (run_state (ccDeploy_send lib nd deployInfo key a n) h))"
proof -
  have quiet: "advancing h'" if "expected h' = Next n" "outcomes h' = []" for h'
    using that by (simp add: advancing_def disciplined_def)
  show ?thesis
    using assms(2, 3)
    by (auto simp: ccDeploy_send_def Let_def run_script expected_def split: sum.splits
        intro!: sendAdvance_advancing [OF assms(1)] intro: quiet)
qed

text \<open>
  The deployment of chaincode advances the nonce after each of its forty transactions, accepted or not. Once
  the first transaction is sent, the run keeps the discipline of nonces if and only if the node
  accepts every transaction but possibly the last: a refused one leaves a gap, and the node cannot
  execute the following ones.
\<close>

theorem ccDeploy_disciplined_iff:
  assumes "signs lib"
  shows "disciplined (events (ccDeploy_main lib nd deployInfo)) \<longleftrightarrow>
    (\<forall>r \<in> set (butlast (outcomes (events (ccDeploy_main lib nd deployInfo)))). r = None)"
proof (rule advancing_iff)
  have quiet: "advancing h" if "expected h = Unknown" "outcomes h = []" for h
    using that by (simp add: advancing_def disciplined_def)
  show "advancing (events (ccDeploy_main lib nd deployInfo))"
    by (auto simp: events_def ccDeploy_main_def withAccount_def run_script expected_def split: option.splits sum.splits
        intro!: ccDeploy_send_advancing [OF assms] intro: quiet)
qed

text \<open>An instance: a node that refuses every transaction.\<close>

definition refusingNode :: node where
  "refusingNode = (sampleNode 7)\<lparr>ndSend := (\<lambda>_ _. Some ''full'')\<rparr>"

lemma refusing_outcomes:
  "outcomes (snd (run_state (sendAdvance lib refusingNode mk sg key k n) h)) = outcomes h @ replicate k (Some ''full'')"
  by (induction k arbitrary: n h) (simp_all add: run_script refusingNode_def)

theorem ccDeploy_disciplined_iff_witness:
  "\<not> disciplined (events (ccDeploy_main sampleLib refusingNode (\<lambda>_. Inr [])))"
proof -
  have "outcomes (events (ccDeploy_main sampleLib refusingNode (\<lambda>_. Inr []))) = replicate 40 (Some ''full'')"
    using refusing_outcomes
    by (simp add: events_def ccDeploy_main_def withAccount_def ccDeploy_send_def ccDeploy_payload_def Let_def run_script
        sampleLib_def refusingNode_def sampleNode_def)
  then have "Some ''full'' \<in> set (butlast (outcomes (events (ccDeploy_main sampleLib refusingNode (\<lambda>_. Inr [])))))"
    by (simp add: butlast_conv_take)
  then show ?thesis using ccDeploy_disciplined_iff [of sampleLib refusingNode "\<lambda>_. Inr []"] by auto
qed

end
