(* ===== verification/Protobuf.thy ===== *)
theory Protobuf
  imports Script "HOL-Library.AList"
begin

unbundle bit_operations_syntax

text \<open>
  Protocol buffers as the programs use them: the wire format of the vendored package
  \<^verbatim>\<open>github.com/golang/protobuf/proto\<close> (\<^verbatim>\<open>encode.go\<close>, \<^verbatim>\<open>decode.go\<close>) and the messages of
  \<^verbatim>\<open>eth1/protos/baap_transaction.pb.go\<close>. A buffer is the list of the bytes that are still to be read, or
  of those that have been written; \<^verbatim>\<open>p.index\<close> is the length of what has been consumed.
\<close>

type_synonym buffer = "8 word list"

datatype proto_error =
    ErrUnexpectedEOF | errOverflow | BadByteLength int
  | EndGroupForNonGroup | IllegalTag int nat | CantSkip nat
  | BadWireType nat nat nat | BadMapData "8 word" | ErrTooLarge | OutOfFuel

section \<open>Variable-length integers\<close>

lemma unat_shift7: "unat (drop_bit 7 x) = unat (x :: 64 word) div 128"
  unfolding unat_drop_bit_eq by (simp add: drop_bit_eq_div)

function EncodeVarint :: "64 word \<Rightarrow> buffer" where
  "EncodeVarint x =
     (if 128 \<le> x then ucast (x AND 127 OR 128) # EncodeVarint (drop_bit 7 x) else [ucast x])"
  by pat_completeness auto
termination
  by (relation "measure unat") (auto simp: word_le_nat_alt unat_shift7)

declare EncodeVarint.simps [simp del]

text \<open>The loop of \<^verbatim>\<open>sizeVarint\<close> shifts first and stops at zero.\<close>

function sizeVarint :: "64 word \<Rightarrow> nat" where
  "sizeVarint x = (if drop_bit 7 x = 0 then 1 else Suc (sizeVarint (drop_bit 7 x)))"
  by pat_completeness auto
termination
proof (relation "measure unat")
  fix x :: "64 word" assume "drop_bit 7 x \<noteq> 0"
  then have "unat x div 128 \<noteq> 0" unfolding unat_shift7 [symmetric] by (simp add: unat_eq_zero)
  then show "(drop_bit 7 x, x) \<in> measure unat" by (auto simp: unat_shift7)
qed auto

declare sizeVarint.simps [simp del]

fun decodeVarintSlow :: "nat \<Rightarrow> 64 word \<Rightarrow> buffer \<Rightarrow> proto_error + 64 word \<times> buffer" where
  "decodeVarintSlow shift x [] = Inl (if shift < 64 then ErrUnexpectedEOF else errOverflow)"
| "decodeVarintSlow shift x (b # bs) =
     (if shift < 64
      then let x' = x OR push_bit shift (ucast b AND 127)
           in if b < 128 then Inr (x', bs) else decodeVarintSlow (shift + 7) x' bs
      else Inl errOverflow)"

text \<open>
  The unrolled loop of \<^verbatim>\<open>DecodeVarint\<close>: each step adds the whole byte and takes the continuation bit off
  again; the step with shift 63 is the last. The buffer has the bytes it reads.
\<close>

fun decodeVarintFast :: "nat \<Rightarrow> 64 word \<Rightarrow> buffer \<Rightarrow> proto_error + 64 word \<times> buffer" where
  "decodeVarintFast shift x [] = Inl ErrUnexpectedEOF"
| "decodeVarintFast shift x (b # bs) =
     (let x' = x + push_bit shift (ucast b)
      in if b AND 128 = 0 then Inr (x', bs)
         else if 63 \<le> shift then Inl errOverflow
         else decodeVarintFast (shift + 7) (x' - push_bit shift 128) bs)"

definition DecodeVarint :: "buffer \<Rightarrow> proto_error + 64 word \<times> buffer" where
  "DecodeVarint buf =
     (case buf of
        [] \<Rightarrow> Inl ErrUnexpectedEOF
      | b # bs \<Rightarrow>
          if b < 128 then Inr (ucast b, bs)
          else if length buf < 10 then decodeVarintSlow 0 0 buf
          else decodeVarintFast 7 (ucast b - 128) bs)"

section \<open>Encoding\<close>

definition EncodeRawBytes :: "buffer \<Rightarrow> buffer \<Rightarrow> buffer" where
  "EncodeRawBytes b buf = buf @ EncodeVarint (word_of_nat (length b)) @ b"

definition EncodeStringBytes :: "string \<Rightarrow> buffer \<Rightarrow> buffer" where
  "EncodeStringBytes s buf = buf @ EncodeVarint (word_of_nat (length s)) @ bytesOf s"

text \<open>The wire types.\<close>

definition WireVarint :: nat where "WireVarint = 0"
definition WireFixed64 :: nat where "WireFixed64 = 1"
definition WireBytes :: nat where "WireBytes = 2"
definition WireStartGroup :: nat where "WireStartGroup = 3"
definition WireEndGroup :: nat where "WireEndGroup = 4"
definition WireFixed32 :: nat where "WireFixed32 = 5"

lemmas wire_defs = WireVarint_def WireFixed64_def WireBytes_def WireStartGroup_def WireEndGroup_def
  WireFixed32_def

definition tagcode :: "nat \<Rightarrow> nat \<Rightarrow> buffer" where
  "tagcode tag wire = EncodeVarint (push_bit 3 (word_of_nat tag) OR word_of_nat wire)"

definition maxMarshalSize :: nat where "maxMarshalSize = 2 ^ 31 - 1"

definition enc_proto3_uint32 :: "nat \<Rightarrow> 32 word \<Rightarrow> buffer \<Rightarrow> buffer" where
  "enc_proto3_uint32 tag x buf =
     (if x = 0 then buf else buf @ tagcode tag WireVarint @ EncodeVarint (ucast x))"

definition enc_string :: "nat \<Rightarrow> string \<Rightarrow> buffer \<Rightarrow> buffer" where
  "enc_string tag s buf = EncodeStringBytes s (buf @ tagcode tag WireBytes)"

definition enc_proto3_string :: "nat \<Rightarrow> string \<Rightarrow> buffer \<Rightarrow> buffer" where
  "enc_proto3_string tag s buf =
     (if s = '''' then buf else EncodeStringBytes s (buf @ tagcode tag WireBytes))"

definition enc_proto3_slice_byte :: "nat \<Rightarrow> buffer \<Rightarrow> buffer \<Rightarrow> buffer" where
  "enc_proto3_slice_byte tag b buf =
     (if b = [] then buf else EncodeRawBytes b (buf @ tagcode tag WireBytes))"

definition enc_slice_slice_byte :: "nat \<Rightarrow> buffer list \<Rightarrow> buffer \<Rightarrow> buffer" where
  "enc_slice_slice_byte tag ss buf =
     foldl (\<lambda>o_buf b. EncodeRawBytes b (o_buf @ tagcode tag WireBytes)) buf ss"

text \<open>Something with its length before it: four bytes are reserved while it is written.\<close>

definition enc_len_thing ::
  "(buffer \<Rightarrow> proto_error + buffer) \<Rightarrow> buffer \<Rightarrow> proto_error + buffer" where
  "enc_len_thing enc buf =
     (case enc (buf @ [0, 0, 0, 0]) of
        Inl e \<Rightarrow> Inl e
      | Inr o_buf \<Rightarrow>
          let msg = drop (length buf + 4) o_buf
          in Inr (buf @ EncodeVarint (word_of_nat (length msg)) @ msg))"

text \<open>A map, in the order in which its keys are enumerated; the key is written even when it is empty.\<close>

fun enc_new_map :: "nat \<Rightarrow> (string \<times> buffer) list \<Rightarrow> buffer \<Rightarrow> proto_error + buffer" where
  "enc_new_map tag [] buf = Inr buf"
| "enc_new_map tag ((key, val) # m) buf =
     (case enc_len_thing (\<lambda>o_buf. Inr (enc_proto3_slice_byte 2 val (enc_string 1 key o_buf)))
             (buf @ tagcode tag WireBytes) of
        Inl e \<Rightarrow> Inl e
      | Inr o_buf \<Rightarrow> enc_new_map tag m o_buf)"

fun enc_fields :: "(buffer \<Rightarrow> proto_error + buffer) list \<Rightarrow> buffer \<Rightarrow> proto_error + buffer" where
  "enc_fields [] buf = Inr buf"
| "enc_fields (enc # encs) buf =
     (case enc buf of
        Inl e \<Rightarrow> Inl e
      | Inr o_buf \<Rightarrow> if maxMarshalSize < length o_buf then Inl ErrTooLarge else enc_fields encs o_buf)"

definition enc_struct ::
  "(buffer \<Rightarrow> proto_error + buffer) list \<Rightarrow> buffer \<Rightarrow> buffer \<Rightarrow> proto_error + buffer" where
  "enc_struct encs unrec buf =
     (case enc_fields encs buf of
        Inl e \<Rightarrow> Inl e
      | Inr o_buf \<Rightarrow>
          if maxMarshalSize < length o_buf + length unrec then Inl ErrTooLarge else Inr (o_buf @ unrec))"

section \<open>Messages\<close>

record pTransaction =
  ptType :: "32 word"
  ptPayload :: buffer
  ptUnrec :: buffer

record pInvocation =
  Fcn :: string
  Args :: "buffer list"
  Meta :: "(string \<times> buffer) list"
  ivUnrec :: buffer

record pDeployment =
  Owner :: string
  DepName :: string
  Version :: string
  DepPayload :: "pInvocation option"
  dpUnrec :: buffer

definition enc_Transaction :: "pTransaction \<Rightarrow> buffer \<Rightarrow> proto_error + buffer" where
  "enc_Transaction m =
     enc_struct
       [\<lambda>buf. Inr (enc_proto3_uint32 1 (ptType m) buf),
        \<lambda>buf. Inr (enc_proto3_slice_byte 2 (ptPayload m) buf)] (ptUnrec m)"

definition enc_Invocation :: "pInvocation \<Rightarrow> buffer \<Rightarrow> proto_error + buffer" where
  "enc_Invocation m =
     enc_struct
       [\<lambda>buf. Inr (enc_proto3_string 1 (Fcn m) buf),
        \<lambda>buf. Inr (enc_slice_slice_byte 2 (Args m) buf),
        enc_new_map 3 (Meta m)] (ivUnrec m)"

definition enc_struct_message ::
  "('m \<Rightarrow> buffer \<Rightarrow> proto_error + buffer) \<Rightarrow> nat \<Rightarrow> 'm option \<Rightarrow> buffer \<Rightarrow> proto_error + buffer" where
  "enc_struct_message enc tag m buf =
     (case m of None \<Rightarrow> Inr buf | Some v \<Rightarrow> enc_len_thing (enc v) (buf @ tagcode tag WireBytes))"

definition enc_Deployment :: "pDeployment \<Rightarrow> buffer \<Rightarrow> proto_error + buffer" where
  "enc_Deployment m =
     enc_struct
       [\<lambda>buf. Inr (enc_proto3_string 1 (Owner m) buf),
        \<lambda>buf. Inr (enc_proto3_string 2 (DepName m) buf),
        \<lambda>buf. Inr (enc_proto3_string 3 (Version m) buf),
        enc_struct_message enc_Invocation 4 (DepPayload m)] (dpUnrec m)"

definition Marshal :: "('m \<Rightarrow> buffer \<Rightarrow> proto_error + buffer) \<Rightarrow> 'm \<Rightarrow> proto_error + buffer" where
  "Marshal enc m =
     (case enc m [] of
        Inl e \<Rightarrow> Inl e
      | Inr buf \<Rightarrow> if maxMarshalSize < length buf then Inl ErrTooLarge else Inr buf)"

section \<open>Decoding\<close>

definition DecodeRawBytes :: "buffer \<Rightarrow> proto_error + buffer \<times> buffer" where
  "DecodeRawBytes buf =
     (case DecodeVarint buf of
        Inl e \<Rightarrow> Inl e
      | Inr (n, bs) \<Rightarrow>
          if sint n < 0 then Inl (BadByteLength (sint n))
          else if length bs < nat (sint n) then Inl ErrUnexpectedEOF
          else Inr (take (nat (sint n)) bs, drop (nat (sint n)) bs))"

definition stringOf :: "buffer \<Rightarrow> string" where
  "stringOf b = map (\<lambda>x. char_of (unat x)) b"

definition DecodeStringBytes :: "buffer \<Rightarrow> proto_error + string \<times> buffer" where
  "DecodeStringBytes buf =
     (case DecodeRawBytes buf of Inl e \<Rightarrow> Inl e | Inr (b, bs) \<Rightarrow> Inr (stringOf b, bs))"

text \<open>The fixed-width integers are only skipped.\<close>

definition DecodeFixed :: "nat \<Rightarrow> buffer \<Rightarrow> proto_error + buffer" where
  "DecodeFixed k buf = (if length buf < k then Inl ErrUnexpectedEOF else Inr (drop k buf))"

fun skip :: "nat \<Rightarrow> nat \<Rightarrow> buffer \<Rightarrow> proto_error + buffer"
  and skipGroup :: "nat \<Rightarrow> buffer \<Rightarrow> proto_error + buffer" where
  "skip 0 wire buf = Inl OutOfFuel"
| "skip (Suc n) wire buf =
     (if wire = WireVarint then (case DecodeVarint buf of Inl e \<Rightarrow> Inl e | Inr (_, bs) \<Rightarrow> Inr bs)
      else if wire = WireFixed64 then DecodeFixed 8 buf
      else if wire = WireBytes then (case DecodeRawBytes buf of Inl e \<Rightarrow> Inl e | Inr (_, bs) \<Rightarrow> Inr bs)
      else if wire = WireFixed32 then DecodeFixed 4 buf
      else if wire = WireStartGroup then skipGroup n buf
      else Inl (CantSkip wire))"
| "skipGroup 0 buf = Inl OutOfFuel"
| "skipGroup (Suc n) buf =
     (case DecodeVarint buf of
        Inl e \<Rightarrow> Inl e
      | Inr (u, bs) \<Rightarrow>
          let fwire = unat (u AND 7)
          in if fwire = WireEndGroup then Inr bs
             else (case skip n fwire bs of Inl e \<Rightarrow> Inl e | Inr bs' \<Rightarrow> skipGroup n bs'))"

definition skip_fuel :: "buffer \<Rightarrow> nat" where
  "skip_fuel buf = 2 * length buf + 2"

text \<open>
  The decoders of a message type by tag, each with its wire type, and what is done with unknown fields. A
  decoder returns the message, which may be partly filled, with the error or the rest of the buffer.
\<close>

type_synonym 'm field_dec = "buffer \<Rightarrow> 'm \<Rightarrow> 'm \<times> (proto_error + buffer)"

record 'm props =
  fieldDec :: "nat \<Rightarrow> (nat \<times> 'm field_dec) option"
  addUnrec :: "buffer \<Rightarrow> 'm \<Rightarrow> 'm"

text \<open>One turn of the loop over the fields: it ends with a result, or goes on.\<close>

definition fieldStep :: "'m props \<Rightarrow> 'm \<Rightarrow> buffer \<Rightarrow> ('m \<times> proto_error option) + ('m \<times> buffer)" where
  "fieldStep P m buf =
     (if buf = [] then Inl (m, None)
      else case DecodeVarint buf of
        Inl e \<Rightarrow> Inl (m, Some e)
      | Inr (u, bs) \<Rightarrow>
          let wire = unat (u AND 7); tag = unat (drop_bit 3 u)
          in if wire = WireEndGroup then Inl (m, Some EndGroupForNonGroup)
             else if tag = 0 then Inl (m, Some (IllegalTag 0 wire))
             else case fieldDec P tag of
               None \<Rightarrow>
                 (case skip (skip_fuel bs) wire bs of
                    Inl e \<Rightarrow> Inl (m, Some e)
                  | Inr bs' \<Rightarrow>
                      Inr (addUnrec P (tagcode tag wire @ take (length bs - length bs') bs) m, bs'))
             | Some (want, dec) \<Rightarrow>
                 if wire \<noteq> WireStartGroup \<and> wire \<noteq> want then Inl (m, Some (BadWireType tag wire want))
                 else (case dec bs m of
                         (m', Inl e) \<Rightarrow> Inl (m', Some e)
                       | (m', Inr bs') \<Rightarrow> Inr (m', bs')))"

fun unmarshalType :: "nat \<Rightarrow> 'm props \<Rightarrow> 'm \<Rightarrow> buffer \<Rightarrow> 'm \<times> proto_error option" where
  "unmarshalType 0 P m buf = (m, Some OutOfFuel)"
| "unmarshalType (Suc n) P m buf =
     (case fieldStep P m buf of Inl r \<Rightarrow> r | Inr (m', bs) \<Rightarrow> unmarshalType n P m' bs)"

definition Unmarshal :: "'m props \<Rightarrow> 'm \<Rightarrow> buffer \<Rightarrow> 'm \<times> proto_error option" where
  "Unmarshal P zero buf = unmarshalType (Suc (length buf)) P zero buf"

definition dec_proto3_uint32 :: "(32 word \<Rightarrow> 'm \<Rightarrow> 'm) \<Rightarrow> 'm field_dec" where
  "dec_proto3_uint32 upd bs m =
     (case DecodeVarint bs of Inl e \<Rightarrow> (m, Inl e) | Inr (u, bs') \<Rightarrow> (upd (ucast u) m, Inr bs'))"

definition dec_proto3_string :: "(string \<Rightarrow> 'm \<Rightarrow> 'm) \<Rightarrow> 'm field_dec" where
  "dec_proto3_string upd bs m =
     (case DecodeStringBytes bs of Inl e \<Rightarrow> (m, Inl e) | Inr (s, bs') \<Rightarrow> (upd s m, Inr bs'))"

definition dec_slice_byte :: "(buffer \<Rightarrow> 'm \<Rightarrow> 'm) \<Rightarrow> 'm field_dec" where
  "dec_slice_byte upd bs m =
     (case DecodeRawBytes bs of Inl e \<Rightarrow> (m, Inl e) | Inr (b, bs') \<Rightarrow> (upd b m, Inr bs'))"

text \<open>
  An entry of a map: the loop reads key and value from the buffer until it has passed the end of the
  entry, and does not notice when a value reaches beyond it. The tags are those of key and value as strings of bytes.
\<close>

fun mapEntry ::
  "nat \<Rightarrow> nat \<Rightarrow> string \<times> buffer \<Rightarrow> buffer \<Rightarrow> buffer \<Rightarrow> proto_error + (string \<times> buffer) \<times> buffer" where
  "mapEntry 0 stop kv raw bs = Inl OutOfFuel"
| "mapEntry (Suc n) stop kv raw bs =
     (case bs of
        [] \<Rightarrow> Inr (kv, bs)
      | code # bs1 \<Rightarrow>
          if length bs \<le> stop then Inr (kv, bs)
          else if [code] = tagcode 1 WireBytes
          then (case DecodeStringBytes bs1 of
                  Inl e \<Rightarrow> Inl e | Inr (k, bs2) \<Rightarrow> mapEntry n stop (k, snd kv) raw bs2)
          else if [code] = tagcode 2 WireBytes
          then (case DecodeRawBytes bs1 of
                  Inl e \<Rightarrow> Inl e | Inr (v, bs2) \<Rightarrow> mapEntry n stop (fst kv, v) raw bs2)
          else Inl (BadMapData (hd raw)))"

definition dec_new_map :: "((string \<times> buffer) \<Rightarrow> 'm \<Rightarrow> 'm) \<Rightarrow> 'm field_dec" where
  "dec_new_map upd bs m =
     (case DecodeRawBytes bs of
        Inl e \<Rightarrow> (m, Inl e)
      | Inr (raw, bs1) \<Rightarrow>
          (case mapEntry (Suc (length raw + length bs1)) (length bs1) ('''', []) raw (raw @ bs1) of
             Inl e \<Rightarrow> (m, Inl e)
           | Inr (kv, bs2) \<Rightarrow> (upd kv m, Inr bs2)))"

definition dec_struct_message ::
  "'n props \<Rightarrow> 'n \<Rightarrow> ('m \<Rightarrow> 'n option) \<Rightarrow> ('n \<Rightarrow> 'm \<Rightarrow> 'm) \<Rightarrow> 'm field_dec" where
  "dec_struct_message P zero get upd bs m =
     (case DecodeRawBytes bs of
        Inl e \<Rightarrow> (m, Inl e)
      | Inr (raw, bs') \<Rightarrow>
          (case Unmarshal P (case get m of None \<Rightarrow> zero | Some v \<Rightarrow> v) raw of
             (v, err) \<Rightarrow> (upd v m, case err of None \<Rightarrow> Inr bs' | Some e \<Rightarrow> Inl e)))"

definition zeroTransaction :: pTransaction where
  "zeroTransaction = \<lparr>ptType = 0, ptPayload = [], ptUnrec = []\<rparr>"

definition zeroInvocation :: pInvocation where
  "zeroInvocation = \<lparr>Fcn = '''', Args = [], Meta = [], ivUnrec = []\<rparr>"

definition zeroDeployment :: pDeployment where
  "zeroDeployment = \<lparr>Owner = '''', DepName = '''', Version = '''', DepPayload = None, dpUnrec = []\<rparr>"

definition props_Transaction :: "pTransaction props" where
  "props_Transaction =
     \<lparr>fieldDec =
        [1 \<mapsto> (WireVarint, dec_proto3_uint32 (\<lambda>x m. m\<lparr>ptType := x\<rparr>)),
         2 \<mapsto> (WireBytes, dec_slice_byte (\<lambda>b m. m\<lparr>ptPayload := b\<rparr>))],
      addUnrec = (\<lambda>b m. m\<lparr>ptUnrec := ptUnrec m @ b\<rparr>)\<rparr>"

definition props_Invocation :: "pInvocation props" where
  "props_Invocation =
     \<lparr>fieldDec =
        [1 \<mapsto> (WireBytes, dec_proto3_string (\<lambda>s m. m\<lparr>Fcn := s\<rparr>)),
         2 \<mapsto> (WireBytes, dec_slice_byte (\<lambda>b m. m\<lparr>Args := Args m @ [b]\<rparr>)),
         3 \<mapsto> (WireBytes, dec_new_map (\<lambda>(k, v) m. m\<lparr>Meta := AList.update k v (Meta m)\<rparr>))],
      addUnrec = (\<lambda>b m. m\<lparr>ivUnrec := ivUnrec m @ b\<rparr>)\<rparr>"

definition props_Deployment :: "pDeployment props" where
  "props_Deployment =
     \<lparr>fieldDec =
        [1 \<mapsto> (WireBytes, dec_proto3_string (\<lambda>s m. m\<lparr>Owner := s\<rparr>)),
         2 \<mapsto> (WireBytes, dec_proto3_string (\<lambda>s m. m\<lparr>DepName := s\<rparr>)),
         3 \<mapsto> (WireBytes, dec_proto3_string (\<lambda>s m. m\<lparr>Version := s\<rparr>)),
         4 \<mapsto> (WireBytes, dec_struct_message props_Invocation zeroInvocation DepPayload
                              (\<lambda>v m. m\<lparr>DepPayload := Some v\<rparr>))],
      addUnrec = (\<lambda>b m. m\<lparr>dpUnrec := dpUnrec m @ b\<rparr>)\<rparr>"

section \<open>The laws of variable-length integers\<close>

lemma and_127: "x AND 127 = take_bit 7 (x :: 'a::len word)"
  by (simp add: take_bit_eq_mask mask_eq_exp_minus_1)

lemma take_bit_and_push_bit:
  "take_bit n x = x \<Longrightarrow> x AND push_bit n y = (0 :: 64 word)"
proof (rule bit_eqI)
  fix k assume "take_bit n x = x"
  then have "bit x k \<Longrightarrow> k < n" by (metis bit_take_bit_iff)
  then show "bit (x AND push_bit n y) k = bit 0 k" by (auto simp: bit_simps)
qed

lemma or_shifted_eq_add: "take_bit n x = x \<Longrightarrow> x OR push_bit n y = x + push_bit n (y :: 64 word)"
  by (metis disjunctive_add_eq_or take_bit_and_push_bit)


lemma byte_less_256: "unat (b :: 8 word) < 256"
  using unat_bound [of b] by simp

lemma unat_byte: "unat (ucast (b :: 8 word) :: 64 word) = unat b"
  using byte_less_256 [of b] by (simp add: unsigned_ucast_eq take_bit_nat_eq_self_iff)

lemma upper_half: "\<lbrakk>(n :: nat) < 256; \<not> n < 128\<rbrakk> \<Longrightarrow> n div 128 = 1 \<and> n mod 128 + 128 = n"
  by (simp add: div_nat_eqI le_mod_geq)

lemma byte_bit7: "bit b 7 \<longleftrightarrow> \<not> (b :: 8 word) < 128"
proof -
  have "bit b 7 \<longleftrightarrow> bit (unat b) 7" by (simp add: bit_unsigned_iff)
  then have *: "bit b 7 \<longleftrightarrow> odd (unat b div 128)" by (simp add: bit_iff_odd)
  show ?thesis unfolding * word_less_nat_alt
    using upper_half [OF byte_less_256 [of b]] by (cases "unat b < 128") simp_all
qed

lemma byte_and_128: "b AND 128 = 0 \<longleftrightarrow> (b :: 8 word) < 128"
  using and_exp_eq_0_iff_not_bit [of b 7] by (simp add: byte_bit7)

lemma unat_byte_127: "unat (ucast (b :: 8 word) AND 127 :: 64 word) = unat b mod 128"
  unfolding and_127 unsigned_take_bit_eq unat_byte by (simp add: take_bit_eq_mod)

lemma byte_stops: "b < 128 \<Longrightarrow> ucast b AND 127 = (ucast (b :: 8 word) :: 64 word)"
  by (rule word_unat_eq_iff [THEN iffD2]) (simp add: unat_byte_127 unat_byte word_less_nat_alt)

lemma byte_sum: "\<not> b < 128 \<Longrightarrow> ucast b = (ucast (b :: 8 word) AND 127) + (128 :: 64 word)"
proof (rule word_unat_eq_iff [THEN iffD2])
  assume "\<not> b < 128"
  then have "unat b mod 128 + 128 = unat b"
    using upper_half [OF byte_less_256 [of b]] by (simp add: word_less_nat_alt)
  then show "unat (ucast b :: 64 word) = unat ((ucast b AND 127) + (128 :: 64 word))"
    using byte_less_256 [of b] by (simp add: unat_word_ariths unat_byte_127 unat_byte)
qed

lemma byte_continues: "\<not> b < 128 \<Longrightarrow> ucast b - 128 = (ucast (b :: 8 word) AND 127 :: 64 word)"
  using byte_sum [of b] by (metis add_diff_cancel_right')

lemma take_bit_or_push: "take_bit n x = x \<Longrightarrow> n + 7 \<le> 64 \<Longrightarrow>
   take_bit (n + 7) (x OR push_bit n (take_bit 7 y)) = x OR push_bit n (take_bit 7 (y :: 64 word))"
proof (rule bit_eqI)
  fix k assume "take_bit n x = x"
  then have "bit x k \<Longrightarrow> k < n" by (metis bit_take_bit_iff)
  then show "bit (take_bit (n + 7) (x OR push_bit n (take_bit 7 y))) k =
    bit (x OR push_bit n (take_bit 7 y)) k" by (auto simp: bit_simps)
qed

lemma EncodeVarint_nonempty [simp]: "EncodeVarint x \<noteq> []"
  by (subst EncodeVarint.simps) simp

lemma EncodeVarint_length: "length (EncodeVarint x) = sizeVarint x"
proof (induction x rule: EncodeVarint.induct)
  case (1 x)
  have "128 \<le> x \<longleftrightarrow> drop_bit 7 x \<noteq> 0"
    unfolding unat_eq_zero [symmetric] unat_shift7 by (auto simp: word_le_nat_alt)
  then show ?case using 1 by (subst EncodeVarint.simps, subst sizeVarint.simps) simp
qed

lemma decodeVarintFast_slow:
  "\<lbrakk>take_bit s x = x; s = 7 * k; k \<le> 9; 10 \<le> k + length bs\<rbrakk> \<Longrightarrow>
     decodeVarintFast s x bs = decodeVarintSlow s x bs"
proof (induction bs arbitrary: s x k)
  case (Cons b bs)
  have s: "s < 64" using Cons.prems by simp
  show ?case
  proof (cases "b < 128")
    case True
    then show ?thesis using s Cons.prems(1)
      by (simp add: byte_and_128 byte_stops or_shifted_eq_add Let_def)
  next
    case False
    have add: "x + push_bit s (ucast b) - push_bit s 128 = x OR push_bit s (ucast b AND 127)"
      unfolding or_shifted_eq_add [OF Cons.prems(1)] byte_continues [OF False, symmetric]
      by (simp add: push_bit_eq_mult left_diff_distrib)
    show ?thesis
    proof (cases "k = 9")
      case True
      then have "decodeVarintSlow (s + 7) y bs = Inl errOverflow" for y
        using Cons.prems(2) by (cases bs) simp_all
      then show ?thesis using False s True Cons.prems(2) by (simp add: byte_and_128 Let_def)
    next
      case k: False
      then have "take_bit (s + 7) (x OR push_bit s (ucast b AND 127)) = x OR push_bit s (ucast b AND 127)"
        unfolding and_127 using Cons.prems by (intro take_bit_or_push) simp_all
      then have "decodeVarintFast (s + 7) (x OR push_bit s (ucast b AND 127)) bs =
          decodeVarintSlow (s + 7) (x OR push_bit s (ucast b AND 127)) bs"
        using Cons.prems k by (intro Cons.IH [of _ _ "Suc k"]) simp_all
      then show ?thesis using False s k Cons.prems add by (simp add: byte_and_128 Let_def)
    qed
  qed
qed simp

lemma DecodeVarint_slow: "DecodeVarint buf = decodeVarintSlow 0 0 buf"
proof (cases buf)
  case (Cons b bs)
  show ?thesis
  proof (cases "b < 128")
    case True
    then show ?thesis using Cons by (simp add: DecodeVarint_def byte_stops)
  next
    case False
    have "decodeVarintFast 7 (ucast b - 128) bs = decodeVarintSlow 7 (ucast b - 128) bs"
      if "10 \<le> length buf"
      using that Cons False
      by (intro decodeVarintFast_slow [of _ _ 1]) (simp_all add: byte_continues and_127)
    then show ?thesis using Cons False by (simp add: DecodeVarint_def byte_continues and_127)
  qed
qed (simp add: DecodeVarint_def)

lemma bit_128: "bit (128 :: 'a::semiring_bit_operations) n \<longleftrightarrow> possible_bit TYPE('a) 7 \<and> n = 7"
  using bit_exp_iff [of 7 n, where 'a = 'a] by auto

lemma split_shifted:
  "push_bit s (take_bit 7 w) OR push_bit (s + 7) (drop_bit 7 w) = push_bit s (w :: 64 word)"
proof (rule bit_eqI)
  fix n
  have "n - s < 7 \<or> 7 + (n - (s + 7)) = n - s" by arith
  then show "bit (push_bit s (take_bit 7 w) OR push_bit (s + 7) (drop_bit 7 w)) n = bit (push_bit s w) n"
    by (auto simp: bit_simps)
qed

lemma decodeVarintSlow_Encode:
  "\<lbrakk>s < 64; unat w < 2 ^ (64 - s)\<rbrakk> \<Longrightarrow>
     decodeVarintSlow s x (EncodeVarint w @ rest) = Inr (x OR push_bit s w, rest)"
proof (induction w arbitrary: s x rule: EncodeVarint.induct)
  case (1 w)
  show ?case
  proof (cases "128 \<le> w")
    case False
    have b: "unat (ucast w :: 8 word) = unat w"
      using False by (simp add: word_le_nat_alt unsigned_ucast_eq take_bit_nat_eq_self_iff)
    then have "(ucast w :: 8 word) < 128" using False by (simp add: word_less_nat_alt word_le_nat_alt)
    moreover have "ucast (ucast w :: 8 word) AND 127 = w"
      using False by (intro word_unat_eq_iff [THEN iffD2]) (simp add: unat_byte_127 b word_le_nat_alt)
    ultimately show ?thesis using False 1(2) by (subst EncodeVarint.simps) simp
  next
    case True
    let ?b = "ucast (w AND 127 OR 128) :: 8 word"
    have "bit ?b 7" by (simp add: bit_simps)
    then have b: "\<not> ?b < 128" by (simp add: byte_bit7)
    have v: "ucast ?b AND 127 = take_bit 7 w"
      unfolding and_127 by (rule bit_eqI) (auto simp: bit_simps and_127 bit_128)
    have w: "128 \<le> unat w" using True by (simp add: word_le_nat_alt)
    then have s: "s + 7 < 64"
      using 1(3) power_increasing [of "64 - s" 7 "2 :: nat"] by (cases "64 - s \<le> 7") auto
    then have "64 - s = 64 - (s + 7) + 7" by simp
    then have "(2 :: nat) ^ (64 - s) = 2 ^ (64 - (s + 7)) * 128" by (simp only: power_add) simp
    then have "unat (drop_bit 7 w) < 2 ^ (64 - (s + 7))"
      using 1(3) unfolding unat_shift7 by (intro less_mult_imp_div_less) simp
    then have "decodeVarintSlow (s + 7) (x OR push_bit s (take_bit 7 w)) (EncodeVarint (drop_bit 7 w) @ rest) =
        Inr ((x OR push_bit s (take_bit 7 w)) OR push_bit (s + 7) (drop_bit 7 w), rest)"
      by (intro 1(1) [OF True s])
    then show ?thesis using True 1(2) b v
      by (subst EncodeVarint.simps) (simp add: or.assoc split_shifted)
  qed
qed

lemma DecodeVarint_Encode [simp]: "DecodeVarint (EncodeVarint w @ rest) = Inr (w, rest)"
  unfolding DecodeVarint_slow using unat_bound [of w] by (subst decodeVarintSlow_Encode) simp_all

lemma tag_parts:
  assumes "tag < 2 ^ 61" "w < 8"
  shows "unat ((push_bit 3 (word_of_nat tag) OR word_of_nat w :: 64 word) AND 7) = w"
    and "unat (drop_bit 3 (push_bit 3 (word_of_nat tag) OR word_of_nat w :: 64 word)) = tag"
proof -
  let ?t = "word_of_nat tag :: 64 word" and ?w = "word_of_nat w :: 64 word"
  have u: "unat ?t = tag" "unat ?w = w" using assms by (simp_all add: unat_of_nat)
  have "unat (drop_bit 3 ?w) = 0" "unat (drop_bit 61 ?t) = 0"
    unfolding unat_drop_bit_eq u using assms by (simp_all add: drop_bit_eq_div)
  then have z: "drop_bit 3 ?w = 0" "drop_bit 61 ?t = 0" by (simp_all only: unat_eq_zero)
  then have w: "take_bit 3 ?w = ?w" and t: "take_bit 61 ?t = ?t"
    by (simp_all only: take_bit_eq_self_iff_drop_bit_eq_0)
  have "(push_bit 3 ?t OR ?w) AND 7 = take_bit 3 (push_bit 3 ?t OR ?w)"
    by (simp add: take_bit_eq_mask mask_eq_exp_minus_1)
  also have "\<dots> = ?w" by (simp add: take_bit_push_bit w)
  finally show "unat ((push_bit 3 ?t OR ?w) AND 7) = w" using u by simp
  have "drop_bit 3 (push_bit 3 ?t OR ?w) = drop_bit 3 (push_bit 3 ?t)" by (simp add: z)
  also have "\<dots> = take_bit 61 ?t"
    by (rule bit_eqI) (auto simp: bit_simps)
  also have "\<dots> = ?t" by (rule t)
  finally show "unat (drop_bit 3 (push_bit 3 ?t OR ?w)) = tag" using u by simp
qed

section \<open>Decoding ends\<close>

lemma decodeVarintSlow_shrinks: "decodeVarintSlow s x bs = Inr (u, bs') \<Longrightarrow> length bs' < length bs"
  by (induction s x bs rule: decodeVarintSlow.induct) (auto simp: Let_def split: if_splits)

lemma decodeVarintSlow_fuel: "decodeVarintSlow s x bs \<noteq> Inl OutOfFuel"
  by (induction s x bs rule: decodeVarintSlow.induct) (auto simp: Let_def)

lemma DecodeVarint_shrinks: "DecodeVarint bs = Inr (u, bs') \<Longrightarrow> length bs' < length bs"
  by (simp add: DecodeVarint_slow decodeVarintSlow_shrinks)

lemma DecodeVarint_fuel [simp]: "DecodeVarint bs \<noteq> Inl OutOfFuel"
  by (simp add: DecodeVarint_slow decodeVarintSlow_fuel)

lemma DecodeRawBytes_shrinks: "DecodeRawBytes bs = Inr (b, bs') \<Longrightarrow> length bs' < length bs"
  by (auto simp: DecodeRawBytes_def split: sum.splits if_splits dest!: DecodeVarint_shrinks)

lemma DecodeRawBytes_fuel [simp]: "DecodeRawBytes bs \<noteq> Inl OutOfFuel"
  by (auto simp: DecodeRawBytes_def split: sum.splits dest: sym)

lemma DecodeStringBytes_shrinks: "DecodeStringBytes bs = Inr (b, bs') \<Longrightarrow> length bs' < length bs"
  by (auto simp: DecodeStringBytes_def split: sum.splits dest: DecodeRawBytes_shrinks)

lemma DecodeStringBytes_fuel [simp]: "DecodeStringBytes bs \<noteq> Inl OutOfFuel"
  by (auto simp: DecodeStringBytes_def split: sum.splits dest: sym)

lemmas decode_shrinks = DecodeVarint_shrinks DecodeRawBytes_shrinks DecodeStringBytes_shrinks

lemma skip_shrinks:
  "skip n wire bs = Inr bs' \<Longrightarrow> length bs' \<le> length bs"
  "skipGroup n bs = Inr bs' \<Longrightarrow> length bs' < length bs"
proof (induction n wire bs and n bs arbitrary: bs' and bs' rule: skip_skipGroup.induct)
  case (2 n wire buf)
  show ?case
  proof (cases "wire = WireStartGroup")
    case True
    then show ?thesis using 2 by (fastforce simp: wire_defs)
  next
    case False
    then show ?thesis using 2(2)
      by (auto simp: DecodeFixed_def split: if_splits sum.splits dest!: decode_shrinks)
  qed
next
  case (4 n buf)
  from 4(3) obtain u bs where v: "DecodeVarint buf = Inr (u, bs)" by (auto split: sum.splits)
  have lt: "length bs < length buf" by (rule DecodeVarint_shrinks [OF v])
  show ?case
  proof (cases "unat (u AND 7) = WireEndGroup")
    case True
    then show ?thesis using 4(3) v lt by simp
  next
    case False
    then obtain bs1 where "skip n (unat (u AND 7)) bs = Inr bs1" "skipGroup n bs1 = Inr bs'"
      using 4(3) v by (auto simp: Let_def split: sum.splits)
    then show ?thesis using 4(1) [OF v refl refl False] 4(2) [OF v refl refl False] lt by fastforce
  qed
qed auto

lemma skip_total:
  "2 * length bs + 2 \<le> n \<Longrightarrow> skip n wire bs \<noteq> Inl OutOfFuel"
  "2 * length bs + 1 \<le> n \<Longrightarrow> skipGroup n bs \<noteq> Inl OutOfFuel"
proof (induction n wire bs and n bs rule: skip_skipGroup.induct)
  case (2 n wire buf)
  then show ?case by (auto simp: DecodeFixed_def split: sum.splits dest: sym)
next
  case (4 n buf)
  show ?case
  proof (cases "DecodeVarint buf")
    case (Inr p)
    obtain u bs where p: "p = (u, bs)" by force
    with Inr have v: "DecodeVarint buf = Inr (u, bs)" by simp
    have lt: "length bs < length buf" by (rule DecodeVarint_shrinks [OF v])
    show ?thesis
    proof (cases "unat (u AND 7) = WireEndGroup")
      case False
      have 1: "skip n (unat (u AND 7)) bs \<noteq> Inl OutOfFuel"
        using 4(1) [OF v refl refl False] 4(3) lt by simp
      have 2: "skipGroup n bs' \<noteq> Inl OutOfFuel" if "skip n (unat (u AND 7)) bs = Inr bs'" for bs'
        using 4(2) [OF v refl refl False that] 4(3) lt skip_shrinks(1) [OF that] by simp
      show ?thesis using v False 1 2 by (auto simp: Let_def split: sum.splits)
    qed (use v in simp)
  qed (auto dest: sym)
qed auto

lemma skip_fuel_enough [simp]: "skip (skip_fuel bs) wire bs \<noteq> Inl OutOfFuel"
  by (rule skip_total(1)) (simp add: skip_fuel_def)

lemma mapEntry_total: "length bs < n \<Longrightarrow> mapEntry n stop kv raw bs \<noteq> Inl OutOfFuel"
proof (induction n arbitrary: kv bs)
  case (Suc n)
  show ?case
  proof (cases bs)
    case (Cons code bs1)
    have IH: "mapEntry n stop kv' raw bs2 \<noteq> Inl OutOfFuel" if "length bs2 < length bs1" for kv' bs2
      using that Suc.prems Cons by (intro Suc.IH) simp
    show ?thesis unfolding Cons
      using IH by (auto split: sum.splits dest: decode_shrinks sym)
  qed simp
qed simp

lemma mapEntry_shrinks: "mapEntry n stop kv raw bs = Inr (kv', bs') \<Longrightarrow> length bs' \<le> length bs"
proof (induction n arbitrary: kv bs)
  case (Suc n)
  show ?case
  proof (cases bs)
    case (Cons code bs1)
    have IH: "length bs' \<le> Suc (length bs1)"
      if "mapEntry n stop kv2 raw bs2 = Inr (kv', bs')" "length bs2 < length bs1" for kv2 bs2
      using Suc.IH [OF that(1)] that(2) by simp
    show ?thesis using Suc.prems unfolding Cons
      by (auto split: if_splits sum.splits dest: decode_shrinks IH)
  qed (use Suc.prems in simp)
qed simp

text \<open>
  What a message type promises: its decoders do not read before their buffer, and they end. Then so does the loop
  over the fields, and the known fields and the unknown ones are taken one after the other.
\<close>

locale message_props =
  fixes P :: "'m props"
  assumes shrinks: "\<lbrakk>fieldDec P tag = Some (w, dec); dec bs m = (m', Inr bs')\<rbrakk> \<Longrightarrow> length bs' \<le> length bs"
    and total: "fieldDec P tag = Some (w, dec) \<Longrightarrow> dec bs m \<noteq> (m', Inl OutOfFuel)"
begin

lemma fieldStep_shrinks:
  assumes "fieldStep P m buf = Inr (m', bs')"
  shows "length bs' < length buf"
proof -
  from assms obtain u bs where v: "DecodeVarint buf = Inr (u, bs)"
    by (auto simp: fieldStep_def split: if_splits sum.splits)
  have "length bs' \<le> length bs"
    using assms v
    by (auto simp: fieldStep_def Let_def split: if_splits sum.splits option.splits prod.splits
        dest: skip_shrinks(1) shrinks)
  with DecodeVarint_shrinks [OF v] show ?thesis by simp
qed

lemma fieldStep_total: "fieldStep P m buf \<noteq> Inl (m', Some OutOfFuel)"
  using total
  by (auto simp: fieldStep_def Let_def split: sum.splits option.splits prod.splits dest: sym)

lemma unmarshalType_fuel:
  "\<lbrakk>length buf < n; length buf < k\<rbrakk> \<Longrightarrow> unmarshalType n P m buf = unmarshalType k P m buf"
proof (induction n arbitrary: k m buf)
  case (Suc n)
  obtain k' where k: "k = Suc k'" using Suc.prems(2) by (cases k) auto
  have "unmarshalType n P m' bs = unmarshalType k' P m' bs" if "fieldStep P m buf = Inr (m', bs)" for m' bs
    using fieldStep_shrinks [OF that] Suc.prems k by (intro Suc.IH) auto
  then show ?case unfolding k by (auto split: sum.splits)
qed simp

lemma unmarshalType_ends: "length buf < n \<Longrightarrow> snd (unmarshalType n P m buf) \<noteq> Some OutOfFuel"
proof (induction n arbitrary: m buf)
  case (Suc n)
  have "snd (unmarshalType n P m' bs) \<noteq> Some OutOfFuel" if "fieldStep P m buf = Inr (m', bs)" for m' bs
    using fieldStep_shrinks [OF that] Suc.prems by (intro Suc.IH) auto
  then show ?case using fieldStep_total by (force split: sum.splits)
qed simp

lemma Unmarshal_ends: "snd (Unmarshal P m buf) \<noteq> Some OutOfFuel"
  by (simp add: Unmarshal_def unmarshalType_ends del: unmarshalType.simps)

lemma Unmarshal_total: "Unmarshal P m buf \<noteq> (m', Some OutOfFuel)"
  using Unmarshal_ends [of m buf] by auto

lemma Unmarshal_step:
  "Unmarshal P m buf =
     (case fieldStep P m buf of Inl r \<Rightarrow> r | Inr (m', bs) \<Rightarrow> Unmarshal P m' bs)"
proof (cases "fieldStep P m buf")
  case (Inr p)
  then obtain m' bs where p: "fieldStep P m buf = Inr (m', bs)" by (cases p) auto
  then have "unmarshalType (length buf) P m' bs = unmarshalType (Suc (length bs)) P m' bs"
    using fieldStep_shrinks [OF p] by (intro unmarshalType_fuel) auto
  then show ?thesis using p by (simp add: Unmarshal_def)
qed (simp add: Unmarshal_def)

lemma Unmarshal_field:
  assumes "fieldDec P tag = Some (w, dec)" "dec (val @ rest) m = (m', Inr rest)"
    and "0 < tag" "tag < 2 ^ 61" "w < 8" "w \<noteq> WireEndGroup"
  shows "Unmarshal P m (tagcode tag w @ val @ rest) = Unmarshal P m' rest"
proof -
  define u :: "64 word" where "u = push_bit 3 (word_of_nat tag) OR word_of_nat w"
  have "unat (u AND 7) = w" "unat (drop_bit 3 u) = tag" "tagcode tag w = EncodeVarint u"
    using tag_parts [OF assms(4,5)] by (simp_all add: u_def tagcode_def del: drop_bit_or)
  then have "fieldStep P m (tagcode tag w @ val @ rest) = Inr (m', rest)"
    using assms(1-3,6) by (simp add: fieldStep_def Let_def)
  then show ?thesis by (subst Unmarshal_step) simp
qed

lemma Unmarshal_nil [simp]: "Unmarshal P m [] = (m, None)"
  by (simp add: Unmarshal_def fieldStep_def)

lemma dec_message_laws:
  "dec_struct_message P zero get upd bs m = (m', Inr bs') \<Longrightarrow> length bs' \<le> length bs"
  "dec_struct_message P zero get upd bs m \<noteq> (m', Inl OutOfFuel)"
  using Unmarshal_total
  by (auto simp: dec_struct_message_def split: sum.splits prod.splits option.splits dest: decode_shrinks sym)

end

section \<open>The messages\<close>

lemma dec_uint32_laws:
  "dec_proto3_uint32 upd bs m = (m', Inr bs') \<Longrightarrow> length bs' \<le> length bs"
  "dec_proto3_uint32 upd bs m \<noteq> (m', Inl OutOfFuel)"
  by (auto simp: dec_proto3_uint32_def split: sum.splits dest: decode_shrinks sym)

lemma dec_string_laws:
  "dec_proto3_string upd bs m = (m', Inr bs') \<Longrightarrow> length bs' \<le> length bs"
  "dec_proto3_string upd bs m \<noteq> (m', Inl OutOfFuel)"
  by (auto simp: dec_proto3_string_def split: sum.splits dest: decode_shrinks sym)

lemma dec_bytes_laws:
  "dec_slice_byte upd bs m = (m', Inr bs') \<Longrightarrow> length bs' \<le> length bs"
  "dec_slice_byte upd bs m \<noteq> (m', Inl OutOfFuel)"
  by (auto simp: dec_slice_byte_def split: sum.splits dest: decode_shrinks sym)

lemma DecodeRawBytes_parts: "DecodeRawBytes bs = Inr (raw, bs') \<Longrightarrow> length raw + length bs' < length bs"
  by (auto simp: DecodeRawBytes_def split: sum.splits if_splits dest!: DecodeVarint_shrinks)

lemma dec_map_laws:
  "dec_new_map upd bs m = (m', Inr bs') \<Longrightarrow> length bs' \<le> length bs"
  "dec_new_map upd bs m \<noteq> (m', Inl OutOfFuel)"
proof -
  assume "dec_new_map upd bs m = (m', Inr bs')"
  then obtain raw bs1 kv where "DecodeRawBytes bs = Inr (raw, bs1)"
    "mapEntry (Suc (length raw + length bs1)) (length bs1) ('''', []) raw (raw @ bs1) = Inr (kv, bs')"
    by (auto simp: dec_new_map_def split: sum.splits)
  then show "length bs' \<le> length bs"
    using mapEntry_shrinks [of "Suc (length raw + length bs1)" "length bs1" "('''', [])" raw "raw @ bs1" kv bs']
      DecodeRawBytes_parts [of bs raw bs1] by simp
next
  show "dec_new_map upd bs m \<noteq> (m', Inl OutOfFuel)"
    using mapEntry_total [of "raw @ bs1" "Suc (length raw + length bs1)" "length bs1" "('''', [])" raw for raw bs1]
    by (auto simp: dec_new_map_def split: sum.splits dest: sym)
qed


interpretation tx_props: message_props props_Transaction
  by unfold_locales
    (auto simp: props_Transaction_def dec_uint32_laws dec_bytes_laws split: if_splits)

interpretation inv_props: message_props props_Invocation
  by unfold_locales
    (auto simp: props_Invocation_def dec_string_laws dec_bytes_laws dec_map_laws split: if_splits)

interpretation dep_props: message_props props_Deployment
  by unfold_locales
    (auto simp: props_Deployment_def dec_string_laws inv_props.dec_message_laws split: if_splits)

end
