(* ===== verification/ProtobufLaws.thy ===== *)
theory ProtobufLaws
  imports Protobuf
begin

unbundle bit_operations_syntax

text \<open>
  What \<open>Marshal\<close> writes and that \<open>Unmarshal\<close> reads it back: the messages of
  \<^verbatim>\<open>eth1/protos/baap_transaction.pb.go\<close> as sequences of fields, and the round trips.
\<close>

section \<open>What is written\<close>

text \<open>The bytes of a field, without the buffer they are appended to.\<close>

definition lengthPrefixed :: "buffer \<Rightarrow> buffer" where
  "lengthPrefixed b = EncodeVarint (word_of_nat (length b)) @ b"

definition wireUint32 :: "nat \<Rightarrow> 32 word \<Rightarrow> buffer" where
  "wireUint32 tag x = (if x = 0 then [] else tagcode tag WireVarint @ EncodeVarint (ucast x))"

definition wireBytes :: "nat \<Rightarrow> buffer \<Rightarrow> buffer" where
  "wireBytes tag b = (if b = [] then [] else tagcode tag WireBytes @ lengthPrefixed b)"

definition wireEntry :: "nat \<Rightarrow> string \<times> buffer \<Rightarrow> buffer" where
  "wireEntry tag kv = tagcode tag WireBytes @
     lengthPrefixed (tagcode 1 WireBytes @ lengthPrefixed (bytesOf (fst kv)) @ wireBytes 2 (snd kv))"

definition wireTransaction :: "pTransaction \<Rightarrow> buffer" where
  "wireTransaction m = wireUint32 1 (ptType m) @ wireBytes 2 (ptPayload m) @ ptUnrec m"

definition wireInvocation :: "pInvocation \<Rightarrow> buffer" where
  "wireInvocation m =
     wireBytes 1 (bytesOf (Fcn m)) @
     concat (map (\<lambda>b. tagcode 2 WireBytes @ lengthPrefixed b) (Args m)) @
     concat (map (wireEntry 3) (Meta m)) @ ivUnrec m"

definition wireDeployment :: "pDeployment \<Rightarrow> buffer" where
  "wireDeployment m =
     wireBytes 1 (bytesOf (Owner m)) @ wireBytes 2 (bytesOf (DepName m)) @
     wireBytes 3 (bytesOf (Version m)) @
     (case DepPayload m of
        None \<Rightarrow> [] | Some v \<Rightarrow> tagcode 4 WireBytes @ lengthPrefixed (wireInvocation v)) @ dpUnrec m"

lemma bytesOf_length [simp]: "length (bytesOf s) = length s"
  by (simp add: bytesOf_def)

lemma bytesOf_Nil_iff [simp]: "bytesOf s = [] \<longleftrightarrow> s = ''''"
  by (simp add: bytesOf_def)

lemma enc_appends:
  "enc_proto3_uint32 tag x buf = buf @ wireUint32 tag x"
  "enc_proto3_slice_byte tag b buf = buf @ wireBytes tag b"
  "enc_proto3_string tag s buf = buf @ wireBytes tag (bytesOf s)"
  "enc_string tag s buf = buf @ tagcode tag WireBytes @ lengthPrefixed (bytesOf s)"
  by (simp_all add: enc_proto3_uint32_def wireUint32_def enc_proto3_slice_byte_def wireBytes_def
      enc_proto3_string_def EncodeRawBytes_def EncodeStringBytes_def enc_string_def lengthPrefixed_def)

lemma enc_slices_appends:
  "enc_slice_slice_byte tag ss buf = buf @ concat (map (\<lambda>b. tagcode tag WireBytes @ lengthPrefixed b) ss)"
  unfolding enc_slice_slice_byte_def
  by (induction ss arbitrary: buf) (simp_all add: EncodeRawBytes_def lengthPrefixed_def)

lemma enc_len_thing_appends:
  "enc (buf @ [0, 0, 0, 0]) = Inr (buf @ [0, 0, 0, 0] @ f) \<Longrightarrow>
     enc_len_thing enc buf = Inr (buf @ lengthPrefixed f)"
  by (simp add: enc_len_thing_def lengthPrefixed_def Let_def)

lemma enc_map_appends: "enc_new_map tag m buf = Inr (buf @ concat (map (wireEntry tag) m))"
proof (induction tag m buf rule: enc_new_map.induct)
  case (2 tag key val m buf)
  have "enc_len_thing (\<lambda>o_buf. Inr (enc_proto3_slice_byte 2 val (enc_string 1 key o_buf)))
      (buf @ tagcode tag WireBytes) = Inr (buf @ wireEntry tag (key, val))"
    by (subst enc_len_thing_appends) (simp_all add: enc_appends wireEntry_def)
  then show ?case using 2 by simp
qed simp

lemma enc_fields_appends:
  assumes "list_all2 (\<lambda>enc f. \<forall>buf r. enc buf = Inr r \<longrightarrow> r = buf @ f) encs fs"
    and "enc_fields encs buf = Inr r"
  shows "r = buf @ concat fs"
  using assms
  by (induction encs fs arbitrary: buf rule: list_all2_induct)
    (auto split: sum.splits if_splits, metis append_assoc)

lemma enc_struct_appends:
  "\<lbrakk>list_all2 (\<lambda>enc f. \<forall>buf r. enc buf = Inr r \<longrightarrow> r = buf @ f) encs fs; enc_struct encs unrec buf = Inr r\<rbrakk>
     \<Longrightarrow> r = buf @ concat fs @ unrec"
  by (auto simp: enc_struct_def split: sum.splits if_splits dest: enc_fields_appends)

lemma enc_fields_exact:
  assumes "list_all2 (\<lambda>enc f. \<forall>buf. enc buf = Inr (buf @ f)) encs fs" "length buf \<le> maxMarshalSize"
  shows "enc_fields encs buf =
    (if length buf + length (concat fs) \<le> maxMarshalSize then Inr (buf @ concat fs) else Inl ErrTooLarge)"
  using assms by (induction encs fs arbitrary: buf rule: list_all2_induct) auto

lemma enc_struct_exact:
  "\<lbrakk>list_all2 (\<lambda>enc f. \<forall>buf. enc buf = Inr (buf @ f)) encs fs; length buf \<le> maxMarshalSize\<rbrakk> \<Longrightarrow>
     enc_struct encs unrec buf =
       (if length buf + length (concat fs @ unrec) \<le> maxMarshalSize
        then Inr (buf @ concat fs @ unrec) else Inl ErrTooLarge)"
  by (simp add: enc_struct_def enc_fields_exact)

lemma enc_Transaction_exact:
  "length buf \<le> maxMarshalSize \<Longrightarrow> enc_Transaction m buf =
     (if length buf + length (wireTransaction m) \<le> maxMarshalSize
      then Inr (buf @ wireTransaction m) else Inl ErrTooLarge)"
  unfolding enc_Transaction_def wireTransaction_def
  by (subst enc_struct_exact [of _ "[wireUint32 1 (ptType m), wireBytes 2 (ptPayload m)]"])
    (simp_all add: enc_appends)

lemma enc_Invocation_exact:
  "length buf \<le> maxMarshalSize \<Longrightarrow> enc_Invocation m buf =
     (if length buf + length (wireInvocation m) \<le> maxMarshalSize
      then Inr (buf @ wireInvocation m) else Inl ErrTooLarge)"
  unfolding enc_Invocation_def wireInvocation_def
  by (subst enc_struct_exact [of _ "[wireBytes 1 (bytesOf (Fcn m)),
        concat (map (\<lambda>b. tagcode 2 WireBytes @ lengthPrefixed b) (Args m)), concat (map (wireEntry 3) (Meta m))]"])
    (simp_all add: enc_appends enc_slices_appends enc_map_appends)

lemma enc_Invocation_appends: "enc_Invocation m buf = Inr r \<Longrightarrow> r = buf @ wireInvocation m"
  unfolding enc_Invocation_def wireInvocation_def
  by (drule enc_struct_appends [of _ "[wireBytes 1 (bytesOf (Fcn m)),
        concat (map (\<lambda>b. tagcode 2 WireBytes @ lengthPrefixed b) (Args m)), concat (map (wireEntry 3) (Meta m))]",
        rotated])
    (simp_all add: enc_appends enc_slices_appends enc_map_appends)

lemma enc_Deployment_appends: "enc_Deployment m buf = Inr r \<Longrightarrow> r = buf @ wireDeployment m"
proof -
  assume r: "enc_Deployment m buf = Inr r"
  have payload: "enc_struct_message enc_Invocation 4 (DepPayload m) b = Inr r' \<Longrightarrow>
      r' = b @ (case DepPayload m of
        None \<Rightarrow> [] | Some v \<Rightarrow> tagcode 4 WireBytes @ lengthPrefixed (wireInvocation v))" for b r'
    by (auto simp: enc_struct_message_def enc_len_thing_def lengthPrefixed_def Let_def
        split: option.splits sum.splits dest!: enc_Invocation_appends)
  show ?thesis
    using r unfolding enc_Deployment_def wireDeployment_def
    by (drule_tac enc_struct_appends [of _ "[wireBytes 1 (bytesOf (Owner m)), wireBytes 2 (bytesOf (DepName m)),
        wireBytes 3 (bytesOf (Version m)), case DepPayload m of
        None \<Rightarrow> [] | Some v \<Rightarrow> tagcode 4 WireBytes @ lengthPrefixed (wireInvocation v)]", rotated])
      (auto simp: enc_appends dest: payload)
qed

section \<open>Round trips\<close>

lemma unat_of_char: "unat (of_char c :: 8 word) = of_char c"
proof -
  have "unat (of_char c :: 8 word) = unat (word_of_nat (of_char c) :: 8 word)"
    by (simp only: of_nat_of_char)
  then show ?thesis by (simp add: unat_of_nat del: of_nat_of_char)
qed

lemma stringOf_bytesOf [simp]: "stringOf (bytesOf s) = s"
  by (induction s) (simp_all add: stringOf_def bytesOf_def unat_of_char)

lemma DecodeRawBytes_lengthPrefixed:
  assumes "length b < 2 ^ 63"
  shows "DecodeRawBytes (lengthPrefixed b @ rest) = Inr (b, rest)"
proof -
  have "sint (word_of_nat (length b) :: 64 word) = int (length b)"
    using assms by (simp add: signed_of_nat signed_take_bit_int_eq_self)
  then show ?thesis by (simp add: DecodeRawBytes_def lengthPrefixed_def)
qed

lemma DecodeStringBytes_lengthPrefixed:
  "length s < 2 ^ 63 \<Longrightarrow> DecodeStringBytes (lengthPrefixed (bytesOf s) @ rest) = Inr (s, rest)"
  by (simp add: DecodeStringBytes_def DecodeRawBytes_lengthPrefixed)

lemma lengthPrefixed_length: "length b < length (lengthPrefixed b)"
  by (simp add: lengthPrefixed_def)

lemma key_tag:
  "tagcode 1 WireBytes = [10]" "tagcode (Suc 0) WireBytes = [10]" "tagcode 2 WireBytes = [18]"
  by (simp_all add: tagcode_def wire_defs EncodeVarint.simps)

declare mapEntry.simps [simp del]

lemma mapEntry_stop [simp]: "length bs \<le> stop \<Longrightarrow> mapEntry (Suc n) stop kv raw bs = Inr (kv, bs)"
  by (cases bs) (simp_all add: mapEntry.simps)

lemma mapEntry_wire:
  assumes "length key < 2 ^ 63" "length val < 2 ^ 63"
    and raw: "raw = tagcode 1 WireBytes @ lengthPrefixed (bytesOf key) @ wireBytes 2 val"
  shows "mapEntry (Suc (length raw + length rest)) (length rest) ('''', []) raw (raw @ rest) =
    Inr ((key, val), rest)"
proof -
  have "2 \<le> length raw"
    using lengthPrefixed_length [of "bytesOf key"] raw by (simp add: key_tag)
  then obtain n where n: "length raw + length rest = Suc (Suc n)"
    by (cases "length raw + length rest - 2") (auto simp: numeral_2_eq_2 dest: le_Suc_ex)
  have key: "mapEntry (Suc (Suc (Suc n))) (length rest) ('''', []) raw (raw @ rest) =
      mapEntry (Suc (Suc n)) (length rest) (key, []) raw (wireBytes 2 val @ rest)"
    using DecodeStringBytes_lengthPrefixed [OF assms(1), of "wireBytes 2 val @ rest"]
    by (subst mapEntry.simps) (simp add: raw key_tag)
  show ?thesis
  proof (cases "val = []")
    case True
    then show ?thesis unfolding n key by (simp add: wireBytes_def)
  next
    case False
    then have "mapEntry (Suc (Suc n)) (length rest) (key, []) raw (wireBytes 2 val @ rest) =
        mapEntry (Suc n) (length rest) (key, val) raw rest"
      using DecodeRawBytes_lengthPrefixed [OF assms(2), of rest]
      by (subst mapEntry.simps) (simp add: wireBytes_def key_tag)
    then show ?thesis unfolding n key by simp
  qed
qed

lemma dec_new_map_wire:
  assumes "length (wireEntry tag (key, val)) < 2 ^ 63"
  shows "dec_new_map upd (drop (length (tagcode tag WireBytes)) (wireEntry tag (key, val)) @ rest) m =
    (upd (key, val) m, Inr rest)"
proof -
  define raw where "raw = tagcode 1 WireBytes @ lengthPrefixed (bytesOf key) @ wireBytes 2 val"
  have l: "length raw < 2 ^ 63" "length key < 2 ^ 63" "length val < 2 ^ 63"
    using assms lengthPrefixed_length [of raw] lengthPrefixed_length [of "bytesOf key"]
      lengthPrefixed_length [of val]
    by (auto simp: wireEntry_def raw_def wireBytes_def split: if_splits)
  show ?thesis
    using mapEntry_wire [OF l(2,3) raw_def, of rest] DecodeRawBytes_lengthPrefixed [OF l(1), of rest]
    by (simp add: dec_new_map_def wireEntry_def raw_def)
qed

context message_props
begin

lemma field_bytes:
  "\<lbrakk>fieldDec P tag = Some (WireBytes, dec_slice_byte upd); 0 < tag; tag < 2 ^ 61; length b < 2 ^ 63\<rbrakk> \<Longrightarrow>
     Unmarshal P m (tagcode tag WireBytes @ lengthPrefixed b @ rest) = Unmarshal P (upd b m) rest"
  by (erule Unmarshal_field) (simp_all add: dec_slice_byte_def DecodeRawBytes_lengthPrefixed wire_defs)

lemma field_string:
  "\<lbrakk>fieldDec P tag = Some (WireBytes, dec_proto3_string upd); 0 < tag; tag < 2 ^ 61; length s < 2 ^ 63\<rbrakk> \<Longrightarrow>
     Unmarshal P m (tagcode tag WireBytes @ lengthPrefixed (bytesOf s) @ rest) = Unmarshal P (upd s m) rest"
  by (erule Unmarshal_field)
    (simp_all add: dec_proto3_string_def DecodeStringBytes_lengthPrefixed wire_defs)

lemma field_entry:
  assumes "fieldDec P tag = Some (WireBytes, dec_new_map upd)" "0 < tag" "tag < 2 ^ 61"
    and "length (wireEntry tag kv) < 2 ^ 63"
  shows "Unmarshal P m (wireEntry tag kv @ rest) = Unmarshal P (upd kv m) rest"
proof -
  obtain val where v: "wireEntry tag kv = tagcode tag WireBytes @ val" by (auto simp: wireEntry_def)
  then have "dec_new_map upd (val @ rest) m = (upd kv m, Inr rest)"
    using dec_new_map_wire [of tag "fst kv" "snd kv" upd rest m] assms(4) by simp
  then show ?thesis
    using Unmarshal_field [OF assms(1), of val rest m "upd kv m"] assms(2,3) v by (simp add: wire_defs)
qed

end

lemma ucast_up_down: "ucast (ucast (x :: 32 word) :: 64 word) = x"
  by (rule bit_word_eqI) (simp add: bit_simps)

lemma wireBytes_length: "length b \<le> length (wireBytes tag b)"
  using lengthPrefixed_length [of b] by (simp add: wireBytes_def)

lemma props_fields:
  "fieldDec props_Transaction 1 = Some (WireVarint, dec_proto3_uint32 (\<lambda>x m. m\<lparr>ptType := x\<rparr>))"
  "fieldDec props_Transaction 2 = Some (WireBytes, dec_slice_byte (\<lambda>b m. m\<lparr>ptPayload := b\<rparr>))"
  "fieldDec props_Invocation 1 = Some (WireBytes, dec_proto3_string (\<lambda>s m. m\<lparr>Fcn := s\<rparr>))"
  "fieldDec props_Invocation 2 = Some (WireBytes, dec_slice_byte (\<lambda>b m. m\<lparr>Args := Args m @ [b]\<rparr>))"
  "fieldDec props_Invocation 3 =
     Some (WireBytes, dec_new_map (\<lambda>(k, v) m. m\<lparr>Meta := AList.update k v (Meta m)\<rparr>))"
  "fieldDec props_Deployment 1 = Some (WireBytes, dec_proto3_string (\<lambda>s m. m\<lparr>Owner := s\<rparr>))"
  "fieldDec props_Deployment 2 = Some (WireBytes, dec_proto3_string (\<lambda>s m. m\<lparr>DepName := s\<rparr>))"
  "fieldDec props_Deployment 3 = Some (WireBytes, dec_proto3_string (\<lambda>s m. m\<lparr>Version := s\<rparr>))"
  "fieldDec props_Deployment 4 = Some (WireBytes, dec_struct_message props_Invocation zeroInvocation DepPayload
     (\<lambda>v m. m\<lparr>DepPayload := Some v\<rparr>))"
  by (simp_all add: props_Transaction_def props_Invocation_def props_Deployment_def)

lemmas props_fields' = props_fields props_fields [unfolded One_nat_def]

lemma maxMarshalSize_less: "n \<le> maxMarshalSize \<Longrightarrow> n < 2 ^ 63"
  by (simp add: maxMarshalSize_def)

lemma wireTransaction_decodes:
  assumes "length (wireTransaction t) \<le> maxMarshalSize" "ptUnrec t = []"
  shows "Unmarshal props_Transaction zeroTransaction (wireTransaction t) = (t, None)"
proof -
  define t1 where "t1 = zeroTransaction\<lparr>ptType := ptType t\<rparr>"
  have 1: "Unmarshal props_Transaction zeroTransaction (wireUint32 1 (ptType t) @ rest) =
      Unmarshal props_Transaction t1 rest" for rest
  proof (cases "ptType t = 0")
    case False
    have "Unmarshal props_Transaction zeroTransaction
        (tagcode 1 WireVarint @ EncodeVarint (ucast (ptType t)) @ rest) = Unmarshal props_Transaction t1 rest"
      by (rule tx_props.Unmarshal_field [where dec = "dec_proto3_uint32 (\<lambda>x m. m\<lparr>ptType := x\<rparr>)"])
        (simp_all add: props_fields' dec_proto3_uint32_def wire_defs t1_def ucast_up_down)
    with False show ?thesis by (simp add: wireUint32_def)
  qed (simp add: wireUint32_def t1_def zeroTransaction_def)
  have "length (ptPayload t) < 2 ^ 63"
    using assms(1) wireBytes_length [of "ptPayload t" 2]
    by (intro maxMarshalSize_less) (simp add: wireTransaction_def)
  then have 2: "Unmarshal props_Transaction t1 (wireBytes 2 (ptPayload t)) = (t1\<lparr>ptPayload := ptPayload t\<rparr>, None)"
    using tx_props.field_bytes [of 2 "\<lambda>b m. m\<lparr>ptPayload := b\<rparr>" "ptPayload t" t1 "[]"]
    by (simp add: wireBytes_def props_fields' t1_def zeroTransaction_def)
  show ?thesis using assms(2) 1 2
    by (simp add: wireTransaction_def t1_def zeroTransaction_def)
qed

lemma args_decode:
  "\<forall>b\<in>set bs. length b < 2 ^ 63 \<Longrightarrow>
     Unmarshal props_Invocation m (concat (map (\<lambda>b. tagcode 2 WireBytes @ lengthPrefixed b) bs) @ rest) =
     Unmarshal props_Invocation (m\<lparr>Args := Args m @ bs\<rparr>) rest"
proof (induction bs arbitrary: m)
  case (Cons b bs)
  then show ?case
    using inv_props.field_bytes [of 2 "\<lambda>b m. m\<lparr>Args := Args m @ [b]\<rparr>" b m]
    by (simp add: props_fields')
qed simp

lemma update_new: "k \<notin> fst ` set al \<Longrightarrow> AList.update k v al = al @ [(k, v)]"
  by (induction al) auto

lemma meta_decode:
  "\<lbrakk>\<forall>kv\<in>set kvs. length (wireEntry 3 kv) < 2 ^ 63; distinct (map fst (Meta m @ kvs))\<rbrakk> \<Longrightarrow>
     Unmarshal props_Invocation m (concat (map (wireEntry 3) kvs) @ rest) =
     Unmarshal props_Invocation (m\<lparr>Meta := Meta m @ kvs\<rparr>) rest"
proof (induction kvs arbitrary: m)
  case (Cons kv kvs)
  have "Unmarshal props_Invocation m (wireEntry 3 kv @ concat (map (wireEntry 3) kvs) @ rest) =
      Unmarshal props_Invocation (m\<lparr>Meta := Meta m @ [kv]\<rparr>) (concat (map (wireEntry 3) kvs) @ rest)"
    using Cons.prems
    by (subst inv_props.field_entry [where upd = "\<lambda>(k, v) m. m\<lparr>Meta := AList.update k v (Meta m)\<rparr>"])
      (auto simp: props_fields' update_new split: prod.splits)
  then show ?case using Cons.IH [of "m\<lparr>Meta := Meta m @ [kv]\<rparr>"] Cons.prems by simp
qed simp

lemma concat_member_length: "x \<in> set xs \<Longrightarrow> length (f x) \<le> length (concat (map f xs))"
  by (induction xs) auto

lemma wireInvocation_decodes:
  assumes "length (wireInvocation v) \<le> maxMarshalSize" "ivUnrec v = []" "distinct (map fst (Meta v))"
  shows "Unmarshal props_Invocation zeroInvocation (wireInvocation v) = (v, None)"
proof -
  let ?args = "concat (map (\<lambda>b. tagcode 2 WireBytes @ lengthPrefixed b) (Args v))"
  define v1 where "v1 = zeroInvocation\<lparr>Fcn := Fcn v\<rparr>"
  have "length (Fcn v) < 2 ^ 63"
    using assms(1) wireBytes_length [of "bytesOf (Fcn v)" 1]
    by (intro maxMarshalSize_less) (simp add: wireInvocation_def)
  then have 1: "Unmarshal props_Invocation zeroInvocation (wireBytes 1 (bytesOf (Fcn v)) @ rest) =
      Unmarshal props_Invocation v1 rest" for rest
    using inv_props.field_string [of 1 "\<lambda>s m. m\<lparr>Fcn := s\<rparr>" "Fcn v" zeroInvocation]
    by (simp add: wireBytes_def props_fields' v1_def zeroInvocation_def)
  have 2: "length b < 2 ^ 63" if "b \<in> set (Args v)" for b
    using assms(1) lengthPrefixed_length [of b]
      concat_member_length [OF that, of "\<lambda>b. tagcode 2 WireBytes @ lengthPrefixed b"]
    by (intro maxMarshalSize_less) (simp add: wireInvocation_def)
  have 3: "length (wireEntry 3 kv) < 2 ^ 63" if "kv \<in> set (Meta v)" for kv
    using assms(1) concat_member_length [OF that, of "wireEntry 3"]
    by (intro maxMarshalSize_less) (simp add: wireInvocation_def)
  show ?thesis
    unfolding wireInvocation_def 1
    using 2 3 assms(2,3) meta_decode [of "Meta v" "v1\<lparr>Args := Args v\<rparr>" "[]"]
    by (simp add: args_decode v1_def zeroInvocation_def)
qed

lemma Marshal_eq:
  "Marshal enc_Transaction t = (if length (wireTransaction t) \<le> maxMarshalSize
     then Inr (wireTransaction t) else Inl ErrTooLarge)"
  "Marshal enc_Invocation v = (if length (wireInvocation v) \<le> maxMarshalSize
     then Inr (wireInvocation v) else Inl ErrTooLarge)"
  "Marshal enc_Deployment d = Inr bs \<Longrightarrow> bs = wireDeployment d \<and> length bs \<le> maxMarshalSize"
  using enc_Transaction_exact [of "[]" t] enc_Invocation_exact [of "[]" v]
  by (auto simp: Marshal_def split: sum.splits if_splits dest: enc_Deployment_appends)

lemma wireDeployment_decodes:
  assumes "length (wireDeployment d) \<le> maxMarshalSize" "dpUnrec d = []"
    and "\<And>v. DepPayload d = Some v \<Longrightarrow> ivUnrec v = [] \<and> distinct (map fst (Meta v))"
  shows "Unmarshal props_Deployment zeroDeployment (wireDeployment d) = (d, None)"
proof -
  note P = props_fields' zeroDeployment_def
  have l: "length (Owner d) < 2 ^ 63" "length (DepName d) < 2 ^ 63" "length (Version d) < 2 ^ 63"
    using assms(1) wireBytes_length [of "bytesOf (Owner d)" 1] wireBytes_length [of "bytesOf (DepName d)" 2]
      wireBytes_length [of "bytesOf (Version d)" 3]
    by (intro maxMarshalSize_less, simp add: wireDeployment_def)+
  define d1 where "d1 = zeroDeployment\<lparr>Owner := Owner d\<rparr>"
  define d2 where "d2 = d1\<lparr>DepName := DepName d\<rparr>"
  define d3 where "d3 = d2\<lparr>Version := Version d\<rparr>"
  have 1: "Unmarshal props_Deployment zeroDeployment (wireBytes 1 (bytesOf (Owner d)) @ rest) =
      Unmarshal props_Deployment d1 rest" for rest
    using dep_props.field_string [of 1 "\<lambda>s m. m\<lparr>Owner := s\<rparr>" "Owner d" zeroDeployment] l
    by (simp add: wireBytes_def P d1_def)
  have 2: "Unmarshal props_Deployment d1 (wireBytes 2 (bytesOf (DepName d)) @ rest) =
      Unmarshal props_Deployment d2 rest" for rest
    using dep_props.field_string [of 2 "\<lambda>s m. m\<lparr>DepName := s\<rparr>" "DepName d" d1] l
    by (simp add: wireBytes_def P d1_def d2_def)
  have 3: "Unmarshal props_Deployment d2 (wireBytes 3 (bytesOf (Version d)) @ rest) =
      Unmarshal props_Deployment d3 rest" for rest
    using dep_props.field_string [of 3 "\<lambda>s m. m\<lparr>Version := s\<rparr>" "Version d" d2] l
    by (simp add: wireBytes_def P d1_def d2_def d3_def)
  have d: "d3\<lparr>DepPayload := DepPayload d\<rparr> = d" using assms(2) by (simp add: P d1_def d2_def d3_def)
  show ?thesis
  proof (cases "DepPayload d")
    case None
    have "Unmarshal props_Deployment zeroDeployment (wireBytes 1 (bytesOf (Owner d)) @
        wireBytes 2 (bytesOf (DepName d)) @ wireBytes 3 (bytesOf (Version d)) @ []) = (d3, None)"
      unfolding 1 2 3 by simp
    then show ?thesis using d None assms(2)
      by (simp add: wireDeployment_def) (simp add: d3_def d2_def d1_def zeroDeployment_def)
  next
    case (Some v)
    have s: "length (wireInvocation v) \<le> maxMarshalSize"
      using assms(1) Some lengthPrefixed_length [of "wireInvocation v"] by (simp add: wireDeployment_def)
    have "Unmarshal props_Deployment d3 (tagcode 4 WireBytes @ lengthPrefixed (wireInvocation v) @ []) =
        Unmarshal props_Deployment (d3\<lparr>DepPayload := Some v\<rparr>) []"
      using wireInvocation_decodes [OF s] assms(3) [OF Some] DecodeRawBytes_lengthPrefixed [of "wireInvocation v" "[]"]
        maxMarshalSize_less [OF s]
      by (intro dep_props.Unmarshal_field [OF props_fields(9)])
        (simp_all add: P wire_defs dec_struct_message_def d1_def d2_def d3_def)
    then show ?thesis using d Some assms(2) 1 2 3 by (simp add: wireDeployment_def)
  qed
qed

lemma EncodeVarint_bound: "\<lbrakk>unat x < 2 ^ (7 * k); 0 < k\<rbrakk> \<Longrightarrow> length (EncodeVarint x) \<le> k"
proof (induction x arbitrary: k rule: EncodeVarint.induct)
  case (1 x)
  show ?case
  proof (cases "128 \<le> x")
    case True
    then have x: "128 \<le> unat x" by (simp add: word_le_nat_alt)
    obtain j where j: "k = Suc j" using 1(3) by (cases k) auto
    have "0 < j" using 1(2) x j by (cases j) auto
    moreover have "unat (drop_bit 7 x) < 2 ^ (7 * j)"
      using 1(2) j unfolding unat_shift7 by (intro less_mult_imp_div_less) (simp add: power_add)
    ultimately have "length (EncodeVarint (drop_bit 7 x)) \<le> j" by (intro 1(1) [OF True])
    then show ?thesis using True j by (subst EncodeVarint.simps) simp
  qed (use 1(3) in \<open>subst EncodeVarint.simps, simp\<close>)
qed

section \<open>What the encoding promises\<close>

text \<open>
  C24. A number written as a varint is read back, whatever follows it; the unrolled reader, which adds and subtracts
  the bits of the bytes, is on every input the same function as the loop it replaces; and the number takes as many
  bytes as the size announced for it, ten at most.
\<close>

theorem varint_roundtrip:
  "DecodeVarint (EncodeVarint w @ rest) = Inr (w, rest) \<and>
   DecodeVarint buf = decodeVarintSlow 0 0 buf \<and>
   length (EncodeVarint w) = sizeVarint w \<and> sizeVarint w \<le> 10"
  using EncodeVarint_bound [of w 10] less_trans [OF unat_bound [of w], of "2 ^ 70"]
  by (simp add: DecodeVarint_slow [of buf] EncodeVarint_length)

text \<open>
  C16. Decoding returns on every input, also on one that is cut off, nests groups without end or announces lengths that
  it does not have: the fuel of the loops over fields, groups and map entries is the length of the input, and it is
  never used up.
\<close>

theorem Unmarshal_returns:
  "snd (Unmarshal props_Transaction t buf) \<noteq> Some OutOfFuel \<and>
   snd (Unmarshal props_Invocation v buf) \<noteq> Some OutOfFuel \<and>
   snd (Unmarshal props_Deployment d buf) \<noteq> Some OutOfFuel"
  by (intro conjI tx_props.Unmarshal_ends inv_props.Unmarshal_ends dep_props.Unmarshal_ends)

text \<open>
  C23. What is encoded is decoded: a transaction, an invocation or a deployment without unrecognized fields, and with
  distinct keys in its map, is read back from its encoding without an error and field by field.
\<close>

theorem messages_roundtrip:
  "(Marshal enc_Transaction t = Inr bs \<and> ptUnrec t = [] \<longrightarrow>
     Unmarshal props_Transaction zeroTransaction bs = (t, None)) \<and>
   (Marshal enc_Invocation v = Inr bs \<and> ivUnrec v = [] \<and> distinct (map fst (Meta v)) \<longrightarrow>
     Unmarshal props_Invocation zeroInvocation bs = (v, None)) \<and>
   (Marshal enc_Deployment d = Inr bs \<and> dpUnrec d = [] \<and>
    pred_option (\<lambda>v. ivUnrec v = [] \<and> distinct (map fst (Meta v))) (DepPayload d) \<longrightarrow>
     Unmarshal props_Deployment zeroDeployment bs = (d, None))"
proof (intro conjI impI)
  assume "Marshal enc_Transaction t = Inr bs \<and> ptUnrec t = []"
  then show "Unmarshal props_Transaction zeroTransaction bs = (t, None)"
    using wireTransaction_decodes [of t] by (auto simp: Marshal_eq(1) split: if_splits)
next
  assume "Marshal enc_Invocation v = Inr bs \<and> ivUnrec v = [] \<and> distinct (map fst (Meta v))"
  then show "Unmarshal props_Invocation zeroInvocation bs = (v, None)"
    using wireInvocation_decodes [of v] by (auto simp: Marshal_eq(2) split: if_splits)
next
  assume "Marshal enc_Deployment d = Inr bs \<and> dpUnrec d = [] \<and>
    pred_option (\<lambda>v. ivUnrec v = [] \<and> distinct (map fst (Meta v))) (DepPayload d)"
  then show "Unmarshal props_Deployment zeroDeployment bs = (d, None)"
    using wireDeployment_decodes [of d] Marshal_eq(3) [of d bs] by (auto simp: option.pred_set)
qed

theorem messages_roundtrip_witness:
  "Unmarshal props_Transaction zeroTransaction [8, 1, 18, 2, 1, 2] =
     (\<lparr>ptType = 1, ptPayload = [1, 2], ptUnrec = []\<rparr>, None)"
proof -
  have "wireTransaction \<lparr>ptType = 1, ptPayload = [1, 2], ptUnrec = []\<rparr> = [8, 1, 18, 2, 1, 2]"
    by code_simp
  then have "Marshal enc_Transaction \<lparr>ptType = 1, ptPayload = [1, 2], ptUnrec = []\<rparr> = Inr [8, 1, 18, 2, 1, 2]"
    by (simp add: Marshal_eq(1) maxMarshalSize_def)
  then show ?thesis
    using messages_roundtrip [of "\<lparr>ptType = 1, ptPayload = [1, 2], ptUnrec = []\<rparr>" "[8, 1, 18, 2, 1, 2]"]
    by simp
qed

end
