(* ===== verification/Chaincode.thy ===== *)
theory Chaincode
  imports ProtobufLaws OneShot
begin

text \<open>
  The payloads of the chaincode programs on the wire: \<^verbatim>\<open>cc.go\<close>, \<^verbatim>\<open>ccRan/deploy.go\<close> and \<^verbatim>\<open>ccRan/invoke.go\<close> with
  the encoder of the vendored package, and \<^verbatim>\<open>ccRan/unmarshal.go\<close>, which decodes such a payload again.
\<close>

section \<open>The encoder of the vendored package\<close>

definition mkInvocation :: "string \<Rightarrow> buffer list \<Rightarrow> (string \<times> buffer) list \<Rightarrow> pInvocation" where
  "mkInvocation fcn args meta = \<lparr>Fcn = fcn, Args = args, Meta = meta, ivUnrec = []\<rparr>"

definition mkTransaction :: "nat \<Rightarrow> buffer \<Rightarrow> pTransaction" where
  "mkTransaction type payload = \<lparr>ptType = word_of_nat type, ptPayload = payload, ptUnrec = []\<rparr>"

definition mkDeployment :: "string \<Rightarrow> string \<Rightarrow> pInvocation option \<Rightarrow> pDeployment" where
  "mkDeployment owner name payload =
     \<lparr>Owner = owner, DepName = name, Version = '''', DepPayload = payload, dpUnrec = []\<rparr>"

text \<open>The only error of the encoder for these messages is \<^verbatim>\<open>ErrTooLarge\<close>.\<close>

definition asText :: "proto_error + buffer \<Rightarrow> string + buffer" where
  "asText r = (case r of Inl _ \<Rightarrow> Inl ''proto: message encodes to over 2 GB'' | Inr b \<Rightarrow> Inr b)"

text \<open>The messages of the safe contract are encoded by another package, which stays a parameter.\<close>

definition protoMarshal :: "cryptolib \<Rightarrow> proto_msg \<Rightarrow> string + buffer" where
  "protoMarshal lib msg =
     (case msg of
        Invocation fcn args meta \<Rightarrow> asText (Marshal enc_Invocation (mkInvocation fcn args meta))
      | PTransaction type payload \<Rightarrow> asText (Marshal enc_Transaction (mkTransaction type payload))
      | Deployment owner name payload \<Rightarrow>
          asText (Marshal enc_Deployment (mkDeployment owner name
            (case payload of Invocation fcn args meta \<Rightarrow> Some (mkInvocation fcn args meta) | _ \<Rightarrow> None)))
      | _ \<Rightarrow> ProtoMarshal lib msg)"

definition withProto :: "cryptolib \<Rightarrow> cryptolib" where
  "withProto lib = lib\<lparr>ProtoMarshal := protoMarshal lib\<rparr>"

section \<open>src/ccRan/unmarshal.go\<close>

text \<open>The errors of both calls are ignored.\<close>

definition unmarshalCall :: "buffer \<Rightarrow> pInvocation" where
  "unmarshalCall input =
     (let ptx = fst (Unmarshal props_Transaction zeroTransaction input)
      in fst (Unmarshal props_Invocation zeroInvocation (ptPayload ptx)))"

definition unmarshal_input :: string where
  "unmarshal_input =
     ''080112230a0370757412037064781201301a140a0c626161702d74782d74797065120465786563''"

definition unmarshal_main :: pInvocation where
  "unmarshal_main = unmarshalCall (fst (hexDecodeString unmarshal_input))"

section \<open>Sizes\<close>

lemma wireTransaction_length:
  assumes "length p < 2 ^ 35" "type < 128"
  shows "length (wireTransaction (mkTransaction type p)) \<le> length p + 8"
proof -
  have "length (EncodeVarint (word_of_nat (length p))) \<le> 5"
    using assms(1) by (intro EncodeVarint_bound) (simp_all add: unat_of_nat)
  moreover have "length (EncodeVarint (ucast (word_of_nat type :: 32 word))) \<le> 1"
    using assms(2) le_less_trans [OF take_bit_nat_less_eq_self, of type 128 64]
    by (intro EncodeVarint_bound) (simp_all add: unat_of_nat unsigned_ucast_eq)
  moreover have "length (tagcode 1 WireVarint) = 1" "length (tagcode 2 WireBytes) = 1"
    by (simp_all add: tagcode_def wire_defs EncodeVarint.simps)
  ultimately show ?thesis
    by (simp add: wireTransaction_def mkTransaction_def wireUint32_def wireBytes_def lengthPrefixed_def)
qed

section \<open>The payload arrives\<close>

lemma protoMarshal_simps:
  "ProtoMarshal (withProto lib) (Invocation fcn args meta) =
     asText (Marshal enc_Invocation (mkInvocation fcn args meta))"
  "ProtoMarshal (withProto lib) (PTransaction type payload) =
     asText (Marshal enc_Transaction (mkTransaction type payload))"
  "ProtoMarshal (withProto lib) (Deployment owner name (Invocation fcn args meta)) =
     asText (Marshal enc_Deployment (mkDeployment owner name (Some (mkInvocation fcn args meta))))"
  by (simp_all add: withProto_def protoMarshal_def)

lemma transaction_arrives:
  assumes "length p + 8 \<le> maxMarshalSize" "type < 128"
  obtains data where "ProtoMarshal (withProto lib) (PTransaction type p) = Inr data"
    and "Unmarshal props_Transaction zeroTransaction data = (mkTransaction type p, None)"
proof -
  have "length (wireTransaction (mkTransaction type p)) \<le> maxMarshalSize"
    using assms wireTransaction_length [of p type] by (simp add: maxMarshalSize_def)
  then show ?thesis
    using that wireTransaction_decodes [of "mkTransaction type p"]
    by (simp add: protoMarshal_simps Marshal_eq asText_def mkTransaction_def)
qed

lemma mkInvocation_simps [simp]:
  "Meta (mkInvocation fcn args meta) = meta" "ivUnrec (mkInvocation fcn args meta) = []"
  by (simp_all add: mkInvocation_def)

lemma deployment_small:
  assumes "length (wireDeployment d) + 4 \<le> maxMarshalSize" "dpUnrec d = []"
  shows "Marshal enc_Deployment d = Inr (wireDeployment d)"
proof -
  have "isl (enc_Deployment d []) \<Longrightarrow> False"
  proof (cases "DepPayload d")
    case None
    assume "isl (enc_Deployment d [])"
    with None assms show False
      by (auto simp: enc_Deployment_def enc_struct_def enc_appends enc_struct_message_def wireDeployment_def
          split: sum.splits if_splits)
  next
    case (Some v)
    assume "isl (enc_Deployment d [])"
    moreover have "length (wireInvocation v) < length (lengthPrefixed (wireInvocation v))"
      by (rule lengthPrefixed_length)
    ultimately show False using Some assms
      by (auto simp: enc_Deployment_def enc_struct_def enc_appends enc_struct_message_def wireDeployment_def
          enc_len_thing_def enc_Invocation_exact lengthPrefixed_def Let_def split: sum.splits if_splits)
  qed
  then obtain r where r: "enc_Deployment d [] = Inr r" by (cases "enc_Deployment d []") auto
  then have "r = wireDeployment d" using enc_Deployment_appends [OF r] by simp
  then show ?thesis using r assms(1) by (simp add: Marshal_def)
qed

definition deployInvocation :: "buffer \<Rightarrow> buffer \<Rightarrow> pInvocation" where
  "deployInvocation info code =
     mkInvocation ''deploy'' [info] [(''baap-tx-type'', bytesOf ''exec''), (''baap-cc-code'', code)]"

lemma invokePayload_arrives:
  assumes "distinct (map fst meta)"
    and "length (wireInvocation (mkInvocation fcn args meta)) + 8 \<le> maxMarshalSize"
  shows "\<exists>data. invokePayload (withProto lib) fcn args meta = Inr data \<and>
    Unmarshal props_Transaction zeroTransaction data =
      (mkTransaction 1 (wireInvocation (mkInvocation fcn args meta)), None) \<and>
    unmarshalCall data = mkInvocation fcn args meta"
proof -
  obtain data where data:
    "ProtoMarshal (withProto lib) (PTransaction 1 (wireInvocation (mkInvocation fcn args meta))) = Inr data"
    "Unmarshal props_Transaction zeroTransaction data =
      (mkTransaction 1 (wireInvocation (mkInvocation fcn args meta)), None)"
    by (rule transaction_arrives [OF assms(2), of 1 lib]) auto
  moreover have "invokePayload (withProto lib) fcn args meta = Inr data"
    using data(1) assms(2)
    by (simp add: invokePayload_def protoMarshal_simps Marshal_eq(2) asText_def [of "Inr _"])
  moreover have "unmarshalCall data = mkInvocation fcn args meta"
    using data(2) assms wireInvocation_decodes [of "mkInvocation fcn args meta"]
    by (simp add: unmarshalCall_def mkTransaction_def)
  ultimately show ?thesis by blast
qed

lemma ccDeploy_payload_arrives:
  assumes "d = mkDeployment ccDeploy_owner ccDeploy_name (Some (deployInvocation info code))"
    and "length (wireDeployment d) + 8 \<le> maxMarshalSize"
  shows "\<exists>data. ccDeploy_payload (withProto lib) info code = Inr data \<and>
    Unmarshal props_Transaction zeroTransaction data = (mkTransaction 2 (wireDeployment d), None) \<and>
    Unmarshal props_Deployment zeroDeployment (wireDeployment d) = (d, None)"
proof -
  have d: "dpUnrec d = []" "DepPayload d = Some (deployInvocation info code)"
    by (simp_all add: assms(1) mkDeployment_def)
  obtain data where data:
    "ProtoMarshal (withProto lib) (PTransaction 2 (wireDeployment d)) = Inr data"
    "Unmarshal props_Transaction zeroTransaction data = (mkTransaction 2 (wireDeployment d), None)"
    by (rule transaction_arrives [OF assms(2), of 2 lib]) auto
  have "Marshal enc_Deployment d = Inr (wireDeployment d)"
    using assms(2) d(1) by (intro deployment_small) simp_all
  then have "ccDeploy_payload (withProto lib) info code = Inr data"
    using data(1) assms(1)
    by (simp add: ccDeploy_payload_def protoMarshal_simps(3) asText_def [of "Inr _"] orEmpty_def
        deployInvocation_def)
  moreover have "Unmarshal props_Deployment zeroDeployment (wireDeployment d) = (d, None)"
    using assms(2) d by (intro wireDeployment_decodes) (auto simp: deployInvocation_def)
  ultimately show ?thesis using data(2) by blast
qed

text \<open>
  C17. What a chaincode program encodes is what is decoded on the other side, for every call whose encoding stays
  below the limit of two gigabytes: the payload of an invocation (\<^verbatim>\<open>cc.go\<close>, \<^verbatim>\<open>ccRan/invoke.go\<close>) is decoded by the
  steps of \<^verbatim>\<open>ccRan/unmarshal.go\<close> to a transaction of type 1 with the same function, arguments and metadata, and that
  of a deployment (\<^verbatim>\<open>ccRan/deploy.go\<close>) to one of type 2 with owner, name and the invocation. The input in
  \<^verbatim>\<open>ccRan/unmarshal.go\<close> is the call of \<^verbatim>\<open>put\<close> with the arguments \<^verbatim>\<open>pdx\<close> and \<^verbatim>\<open>0\<close>.
\<close>

theorem chaincode_payload_arrives:
  "(distinct (map fst meta) \<and> length (wireInvocation (mkInvocation fcn args meta)) + 8 \<le> maxMarshalSize \<longrightarrow>
     (\<exists>data. invokePayload (withProto lib) fcn args meta = Inr data \<and>
       Unmarshal props_Transaction zeroTransaction data =
         (mkTransaction 1 (wireInvocation (mkInvocation fcn args meta)), None) \<and>
       unmarshalCall data = mkInvocation fcn args meta)) \<and>
   (d = mkDeployment ccDeploy_owner ccDeploy_name (Some (deployInvocation info code)) \<and>
    length (wireDeployment d) + 8 \<le> maxMarshalSize \<longrightarrow>
     (\<exists>data. ccDeploy_payload (withProto lib) info code = Inr data \<and>
       Unmarshal props_Transaction zeroTransaction data = (mkTransaction 2 (wireDeployment d), None) \<and>
       Unmarshal props_Deployment zeroDeployment (wireDeployment d) = (d, None))) \<and>
   unmarshal_main =
     mkInvocation ''put'' [bytesOf ''pdx'', bytesOf ''0''] [(''baap-tx-type'', bytesOf ''exec'')]"
proof (intro conjI impI)
  show "unmarshal_main =
     mkInvocation ''put'' [bytesOf ''pdx'', bytesOf ''0''] [(''baap-tx-type'', bytesOf ''exec'')]"
    by code_simp
qed (use invokePayload_arrives ccDeploy_payload_arrives in blast)+

theorem chaincode_payload_arrives_witness:
  "(\<exists>data. invokePayload (withProto undefined) ''put'' [bytesOf ''pdx'', bytesOf ''0'']
       [(''baap-tx-type'', bytesOf ''exec'')] = Inr data \<and>
     unmarshalCall data =
       mkInvocation ''put'' [bytesOf ''pdx'', bytesOf ''0''] [(''baap-tx-type'', bytesOf ''exec'')]) \<and>
   (\<exists>data. ccDeploy_payload (withProto undefined) (bytesOf ''info'') (bytesOf ''code'') = Inr data)"
proof -
  let ?i = "mkInvocation ''put'' [bytesOf ''pdx'', bytesOf ''0''] [(''baap-tx-type'', bytesOf ''exec'')]"
  let ?d = "mkDeployment ccDeploy_owner ccDeploy_name (Some (deployInvocation (bytesOf ''info'') (bytesOf ''code'')))"
  have "length (wireInvocation ?i) < 100" "length (wireDeployment ?d) < 1000"
    by code_simp+
  then have "length (wireInvocation ?i) + 8 \<le> maxMarshalSize" "length (wireDeployment ?d) + 8 \<le> maxMarshalSize"
    by (simp_all add: maxMarshalSize_def)
  then show ?thesis
    using chaincode_payload_arrives [of "[(''baap-tx-type'', bytesOf ''exec'')]" "''put''"
        "[bytesOf ''pdx'', bytesOf ''0'']" undefined ?d "bytesOf ''info''" "bytesOf ''code''"]
    by auto
qed

end
