(* ===== verification/Tokens.thy ===== *)
theory Tokens
  imports ClientCall Script
begin

text \<open>
  The tokens of \<^verbatim>\<open>src/jwt/main.go\<close> and \<^verbatim>\<open>src/safe/jwt.go\<close>: the claims they are made of, and the functions that
  look up the key for the check of a token. The token library \<^verbatim>\<open>pdx-chain/crypto/jwt-go\<close>, the elliptic curves and
  SM2 are not part of the repository; they are the record \<open>jwtlib\<close> and the function \<open>Parse\<close>.
\<close>

section \<open>Tokens\<close>

datatype claim = CStr string | CNum int | COther

datatype sigMethod = SigningMethodSM2 | SigningMethodECDSA | OtherMethod string

text \<open>
  A token as the key functions see it: the method found for it, the header \<^verbatim>\<open>alg\<close>, and the claims, which
  are a \<^verbatim>\<open>MapClaims\<close> or of another type.
\<close>

record jwtToken =
  tkMethod :: sigMethod
  tkAlg :: "claim option"
  tkClaims :: "(string \<rightharpoonup> claim) option"

text \<open>
  The curves: decompression of a public key, which fails with an error (\<^verbatim>\<open>crypto.DecompressPubkey\<close>) or returns a
  pointer that may be nil (\<^verbatim>\<open>sm2.Decompress\<close>), compression, keys, and signing of the claims; and the text
  of a value or an error in a formatted string.
\<close>

record 'k jwtlib =
  DecompressPubkey :: "8 word list \<Rightarrow> string + 'k"
  Sm2Decompress :: "8 word list \<Rightarrow> 'k option"
  Sm2Compress :: "'k option \<Rightarrow> 8 word list outcome"
  publicKey :: "sigMethod \<Rightarrow> privkey \<Rightarrow> 'k"
  SignedString :: "sigMethod \<Rightarrow> string \<Rightarrow> (string \<rightharpoonup> claim) \<Rightarrow> privkey \<Rightarrow> string + string"
  fmtV :: "claim option \<Rightarrow> string"
  hexErrText :: "hex_error \<Rightarrow> string"

definition quoted_ak :: string where "quoted_ak = [CHR 0x22, CHR ''a'', CHR ''k'', CHR 0x22]"

definition PUBK_HEX_LEN :: nat where "PUBK_HEX_LEN = 66"

section \<open>src/jwt/main.go\<close>

text \<open>
  The function given to \<^verbatim>\<open>jwt.Parse\<close>. Beside the checks it prints the key compressed again, so it panics
  when that does.
\<close>

definition keyFuncSM2 :: "'k jwtlib \<Rightarrow> jwtToken \<Rightarrow> (string + 'k option) outcome" where
  "keyFuncSM2 lib token =
     (if tkMethod token \<noteq> SigningMethodSM2 then Returns (Inl (''unexpected signing method: '' @ fmtV lib (tkAlg token)))
      else if tkAlg token \<noteq> Some (CStr ''SM2'') then Returns (Inl (''invalid signing alg:'' @ fmtV lib (tkAlg token) @ '', only ES256 is prefered''))
      else case tkClaims token of
        None \<Rightarrow> Returns (Inl ''token claims type error'')
      | Some claims \<Rightarrow>
          (case claims ''r'' of
             None \<Rightarrow> Returns (Inl ''r not in claims'')
           | Some role \<Rightarrow>
               if role \<noteq> CStr ''d'' \<and> role \<noteq> CStr ''u'' \<and> role \<noteq> CStr ''a'' then Returns (Inl ''role no auth'')
               else case claims ''ak'' of
                 None \<Rightarrow> Returns (Inl (''PDXSafe: no '' @ quoted_ak @ '' in jwt payload''))
               | Some ak \<Rightarrow>
                   (case ak of
                      CStr hexKey \<Rightarrow>
                        if length hexKey \<noteq> PUBK_HEX_LEN then Returns (Inl (''PDXSafe: invalid '' @ quoted_ak @ '' in jwt payload''))
                        else (case hexDecodeString hexKey of
                                (_, Some err) \<Rightarrow> Returns (Inl (hexErrText lib err))
                              | (a, None) \<Rightarrow>
                                  let pub = Sm2Decompress lib a
                                  in case Sm2Compress lib pub of
                                       Returns _ \<Rightarrow> Returns (Inr pub) | Blocks \<Rightarrow> Blocks | Panics \<Rightarrow> Panics)
                    | _ \<Rightarrow> Returns (Inl (''PDXSafe: invalid '' @ quoted_ak @ '' in jwt payload'')))))"

text \<open>
  \<open>Parse\<close> returns the token, with whether it is valid, and the error. When it returns without an error the
  function looks at the claims and the flag; otherwise it returns the error, which is nil there.
\<close>

type_synonym 'k parse = "string \<Rightarrow> (jwtToken \<Rightarrow> (string + 'k) outcome) \<Rightarrow> (string + jwtToken \<times> bool) outcome"

definition verifyTokenSM2 :: "'k jwtlib \<Rightarrow> 'k option parse \<Rightarrow> string \<Rightarrow> string option outcome" where
  "verifyTokenSM2 lib Parse tokenString =
     (case Parse tokenString (keyFuncSM2 lib) of
        Panics \<Rightarrow> Panics
      | Blocks \<Rightarrow> Blocks
      | Returns (Inl err) \<Rightarrow> Returns (Some err)
      | Returns (Inr (token, valid)) \<Rightarrow>
          if tkClaims token \<noteq> None \<and> valid then Returns None
          else (let err = None in Returns err))"

definition GenTokenSM2_claims :: "string \<rightharpoonup> claim" where
  "GenTokenSM2_claims =
     [''ak'' \<mapsto> CStr ''0232c4ae2c1f1981195f9904466a39c9948fe30bbff2660be1715a4589334c74c7'',
      ''sk'' \<mapsto> CStr ''02595d553697305c7670dfd92628e5ff68080335265edf804aea4e6e8df5112464'',
      ''r'' \<mapsto> CStr ''u'', ''l'' \<mapsto> CNum 6000000000000000, ''s'' \<mapsto> CNum 17348,
      ''n'' \<mapsto> CStr ''eefffefreredffdsuuf2rrfdsmfljljrra'']"

text \<open>
  The key is the one with the secret 1. The assertion on the type of its public key decides whether the token
  is returned; the error is nil when it fails.
\<close>

definition GenTokenSM2 :: "'k jwtlib \<Rightarrow> cryptolib \<Rightarrow> bool \<Rightarrow> string \<times> string option" where
  "GenTokenSM2 lib crypto isECDSA =
     (case SignedString lib SigningMethodSM2 ''SM2'' GenTokenSM2_claims (Sm2InitKey crypto 1) of
        Inl err \<Rightarrow> ('''', Some err)
      | Inr tokenString \<Rightarrow> if isECDSA then (tokenString, None) else ('''', None))"

section \<open>src/safe/jwt.go\<close>

definition NewJwt_ak :: string where
  "NewJwt_ak = ''0272d910dcda9d55dc0504459852c32bfbc86e3f9baddf512f90a6811452a550ba''"

definition NewJwt_claims :: "int \<Rightarrow> string \<Rightarrow> string \<Rightarrow> string \<rightharpoonup> claim" where
  "NewJwt_claims now domain key =
     [''f'' \<mapsto> CNum now, ''t'' \<mapsto> CNum (now + 1000000000),
      ''sk'' \<mapsto> CStr ''03d173890122ba3066b1d20c185c65555861b7de30066c6dc854cf6cb903d6b642'',
      ''d'' \<mapsto> CStr domain, ''key'' \<mapsto> CStr key, ''a'' \<mapsto> CStr ''C'', ''n'' \<mapsto> CStr ''1'',
      ''ak'' \<mapsto> CStr NewJwt_ak, ''s'' \<mapsto> CNum 123]"

definition NewJwt_priv2 :: string where
  "NewJwt_priv2 = ''d29ce71545474451d8292838d4a0680a8444e6e4c14da018b4a08345fb2bbb84''"

text \<open>Both errors end the process.\<close>

definition NewJwt :: "'k jwtlib \<Rightarrow> cryptolib \<Rightarrow> int \<Rightarrow> string \<Rightarrow> string \<Rightarrow> exit + string" where
  "NewJwt lib crypto now domain key =
     (case HexToECDSA crypto NewJwt_priv2 of
        Inl _ \<Rightarrow> Inl Fatal
      | Inr privateKey \<Rightarrow>
          (case SignedString lib SigningMethodECDSA ''ES256'' (NewJwt_claims now domain key) privateKey of
             Inl _ \<Rightarrow> Inl Fatal
           | Inr signedString \<Rightarrow> Inr signedString))"

text \<open>The assertion that the claims are a \<^verbatim>\<open>MapClaims\<close> panics when they are not.\<close>

definition keyFuncECDSA :: "'k jwtlib \<Rightarrow> jwtToken \<Rightarrow> (string + 'k) outcome" where
  "keyFuncECDSA lib token =
     (if tkMethod token \<noteq> SigningMethodECDSA then Returns (Inl (''unexpected signing method: '' @ fmtV lib (tkAlg token)))
      else if tkAlg token \<noteq> Some (CStr ''ES256'') then Returns (Inl (''invalid signing alg:'' @ fmtV lib (tkAlg token) @ '', only ES256 is prefered''))
      else case tkClaims token of
        None \<Rightarrow> Panics
      | Some claims \<Rightarrow>
          (case claims ''ak'' of
             None \<Rightarrow> Returns (Inl (''PDXSafe: no '' @ quoted_ak @ '' in jwt payload''))
           | Some ak \<Rightarrow>
               (case ak of
                  CStr hexKey \<Rightarrow>
                    if length hexKey \<noteq> PUBK_HEX_LEN then Returns (Inl (''PDXSafe: invalid '' @ quoted_ak @ '' in jwt payload''))
                    else Returns (DecompressPubkey lib (Hex2Bytes hexKey))
                | _ \<Rightarrow> Returns (Inl (''PDXSafe: invalid '' @ quoted_ak @ '' in jwt payload'')))))"

definition parseJWT :: "'k jwtlib \<Rightarrow> 'k parse \<Rightarrow> string \<Rightarrow> string option outcome" where
  "parseJWT lib Parse stoken =
     (case Parse stoken (keyFuncECDSA lib) of
        Panics \<Rightarrow> Panics
      | Blocks \<Rightarrow> Blocks
      | Returns (Inl err) \<Rightarrow> Returns (Some err)
      | Returns (Inr _) \<Rightarrow> Returns None)"

section \<open>What the library documents\<close>

text \<open>
  \<^verbatim>\<open>jwt.Parse\<close> decodes the token, asks the key function for the key, checks the time-based claims \<^verbatim>\<open>exp\<close>, \<^verbatim>\<open>iat\<close>
  and \<^verbatim>\<open>nbf\<close> and the signature with that key, and returns no error exactly when everything is in order; the
  token is marked as valid then. \<open>decode\<close> is the unverified token, \<open>timely\<close> the check of the claims and
  \<open>verifies\<close> that of the signature.
\<close>

definition timelyToken :: "((string \<rightharpoonup> claim) \<Rightarrow> bool) \<Rightarrow> jwtToken \<Rightarrow> bool" where
  "timelyToken timely tok = (case tkClaims tok of None \<Rightarrow> True | Some cl \<Rightarrow> timely cl)"

definition documentedParse ::
  "'k parse \<Rightarrow> (string \<rightharpoonup> jwtToken) \<Rightarrow> ((string \<rightharpoonup> claim) \<Rightarrow> bool) \<Rightarrow> (string \<Rightarrow> sigMethod \<Rightarrow> 'k \<Rightarrow> bool) \<Rightarrow> bool" where
  "documentedParse Parse decode timely verifies \<longleftrightarrow>
     (\<forall>s kf. case decode s of
        None \<Rightarrow> \<exists>e. Parse s kf = Returns (Inl e)
      | Some tok \<Rightarrow>
          (case kf tok of
             Panics \<Rightarrow> Parse s kf = Panics
           | Blocks \<Rightarrow> Parse s kf = Blocks
           | Returns (Inl _) \<Rightarrow> \<exists>e. Parse s kf = Returns (Inl e)
           | Returns (Inr k) \<Rightarrow>
               if timelyToken timely tok \<and> verifies s (tkMethod tok) k
               then Parse s kf = Returns (Inr (tok, True))
               else \<exists>e. Parse s kf = Returns (Inl e)))"

text \<open>
  A token that was signed decodes to its claims with the name of the method, and its signature is
  verified by the public key of the private key it was made with.
\<close>

definition documentedSigning ::
  "'k jwtlib \<Rightarrow> (string \<rightharpoonup> jwtToken) \<Rightarrow> (string \<Rightarrow> sigMethod \<Rightarrow> 'k \<Rightarrow> bool) \<Rightarrow> bool" where
  "documentedSigning lib decode verifies \<longleftrightarrow>
     (\<forall>m alg cl k s. SignedString lib m alg cl k = Inr s \<longrightarrow>
        decode s = Some \<lparr>tkMethod = m, tkAlg = Some (CStr alg), tkClaims = Some cl\<rparr> \<and>
        verifies s m (publicKey lib m k))"

text \<open>The checks look at nothing but the claims \<^verbatim>\<open>exp\<close>, \<^verbatim>\<open>iat\<close> and \<^verbatim>\<open>nbf\<close>, and those are optional.\<close>

definition documentedClaims :: "((string \<rightharpoonup> claim) \<Rightarrow> bool) \<Rightarrow> bool" where
  "documentedClaims timely \<longleftrightarrow>
     (\<forall>cl. cl ''exp'' = None \<and> cl ''iat'' = None \<and> cl ''nbf'' = None \<longrightarrow> timely cl)"

section \<open>Which tokens are accepted\<close>

text \<open>The conditions on a token that both key functions check, with the key as text.\<close>

definition namesKey :: "jwtToken \<Rightarrow> sigMethod \<Rightarrow> string \<Rightarrow> string \<Rightarrow> (string \<rightharpoonup> claim) \<Rightarrow> bool" where
  "namesKey tok m alg hexKey cl \<longleftrightarrow>
     tkMethod tok = m \<and> tkAlg tok = Some (CStr alg) \<and> tkClaims tok = Some cl \<and>
     cl ''ak'' = Some (CStr hexKey) \<and> length hexKey = PUBK_HEX_LEN"

definition allowedRole :: "(string \<rightharpoonup> claim) \<Rightarrow> bool" where
  "allowedRole cl \<longleftrightarrow> cl ''r'' \<in> Some ` CStr ` {''d'', ''u'', ''a''}"

lemma keyFuncSM2_key:
  "keyFuncSM2 lib tok = Returns (Inr pub) \<longleftrightarrow>
     (\<exists>hexKey cl a b. namesKey tok SigningMethodSM2 ''SM2'' hexKey cl \<and> allowedRole cl \<and>
        hexDecodeString hexKey = (a, None) \<and> pub = Sm2Decompress lib a \<and> Sm2Compress lib pub = Returns b)"
  by (auto simp: keyFuncSM2_def namesKey_def allowedRole_def Let_def
      split: option.splits claim.splits prod.splits outcome.splits if_splits)

lemma keyFuncSM2_panics:
  "keyFuncSM2 lib tok = Panics \<longleftrightarrow>
     (\<exists>hexKey cl a. namesKey tok SigningMethodSM2 ''SM2'' hexKey cl \<and> allowedRole cl \<and>
        hexDecodeString hexKey = (a, None) \<and> Sm2Compress lib (Sm2Decompress lib a) = Panics)"
  by (auto simp: keyFuncSM2_def namesKey_def allowedRole_def Let_def
      split: option.splits claim.splits prod.splits outcome.splits if_splits)

lemma keyFuncECDSA_key:
  "keyFuncECDSA lib tok = Returns (Inr pub) \<longleftrightarrow>
     (\<exists>hexKey cl. namesKey tok SigningMethodECDSA ''ES256'' hexKey cl \<and>
        DecompressPubkey lib (Hex2Bytes hexKey) = Inr pub)"
  by (auto simp: keyFuncECDSA_def namesKey_def split: option.splits claim.splits)

lemma Parse_accepts:
  assumes "documentedParse Parse decode timely verifies"
  shows "Parse s kf = Returns (Inr r) \<longleftrightarrow>
    (\<exists>tok k. decode s = Some tok \<and> kf tok = Returns (Inr k) \<and> r = (tok, True) \<and>
       timelyToken timely tok \<and> verifies s (tkMethod tok) k)"
  using assms [unfolded documentedParse_def, rule_format, of s kf]
  by (auto split: option.splits outcome.splits sum.splits if_splits)

lemma Parse_panics:
  assumes "documentedParse Parse decode timely verifies"
  shows "Parse s kf = Panics \<longleftrightarrow> (\<exists>tok. decode s = Some tok \<and> kf tok = Panics)"
  using assms [unfolded documentedParse_def, rule_format, of s kf]
  by (auto split: option.splits outcome.splits sum.splits if_splits)

lemma verify_accepts_Parse:
  "verifyTokenSM2 lib Parse s = Returns None \<longleftrightarrow> (\<exists>r. Parse s (keyFuncSM2 lib) = Returns (Inr r))"
  "verifyTokenSM2 lib Parse s = Panics \<longleftrightarrow> Parse s (keyFuncSM2 lib) = Panics"
  "parseJWT lib P s = Returns None \<longleftrightarrow> (\<exists>r. P s (keyFuncECDSA lib) = Returns (Inr r))"
  by (auto simp: verifyTokenSM2_def parseJWT_def Let_def split: outcome.splits sum.splits)

text \<open>
  C25. Which tokens the two checks accept, with a token library that keeps its documentation. \<^verbatim>\<open>verifyTokenSM2\<close>
  accepts exactly the decodable tokens with method and header SM2, a role \<^verbatim>\<open>d\<close>, \<^verbatim>\<open>u\<close> or \<^verbatim>\<open>a\<close>, and a key \<^verbatim>\<open>ak\<close> of
  66 hexadecimal digits, that are timely and signed with that key; it panics exactly when such a token names a
  key that cannot be compressed again. \<^verbatim>\<open>parseJWT\<close> accepts exactly the timely tokens with method and
  header ES256 that are signed with the key that decompressing \<^verbatim>\<open>ak\<close> gives.
\<close>

theorem tokens_accepted_iff:
  assumes "documentedParse Parse decode timely verifies" "documentedParse Parse' decode timely verifies'"
  shows "(verifyTokenSM2 lib Parse s = Returns None \<longleftrightarrow>
      (\<exists>tok hexKey cl a b. decode s = Some tok \<and> namesKey tok SigningMethodSM2 ''SM2'' hexKey cl \<and>
         allowedRole cl \<and> hexDecodeString hexKey = (a, None) \<and>
         Sm2Compress lib (Sm2Decompress lib a) = Returns b \<and> timely cl \<and>
         verifies s SigningMethodSM2 (Sm2Decompress lib a))) \<and>
    (verifyTokenSM2 lib Parse s = Panics \<longleftrightarrow>
      (\<exists>tok hexKey cl a. decode s = Some tok \<and> namesKey tok SigningMethodSM2 ''SM2'' hexKey cl \<and>
         allowedRole cl \<and> hexDecodeString hexKey = (a, None) \<and>
         Sm2Compress lib (Sm2Decompress lib a) = Panics)) \<and>
    (parseJWT lib Parse' s = Returns None \<longleftrightarrow>
      (\<exists>tok hexKey cl k. decode s = Some tok \<and> namesKey tok SigningMethodECDSA ''ES256'' hexKey cl \<and>
         DecompressPubkey lib (Hex2Bytes hexKey) = Inr k \<and> timely cl \<and> verifies' s SigningMethodECDSA k))"
  unfolding verify_accepts_Parse Parse_accepts [OF assms(1)] Parse_accepts [OF assms(2)]
    Parse_panics [OF assms(1)] keyFuncSM2_key keyFuncSM2_panics keyFuncECDSA_key
  by (fastforce simp: namesKey_def timelyToken_def)

lemma mkToken_namesKey:
  "\<lbrakk>cl ''ak'' = Some (CStr hexKey); length hexKey = PUBK_HEX_LEN\<rbrakk> \<Longrightarrow>
     namesKey \<lparr>tkMethod = m, tkAlg = Some (CStr alg), tkClaims = Some cl\<rparr> m alg hexKey cl"
  by (simp add: namesKey_def)

lemma SM2_token_accepted:
  assumes "documentedParse Parse decode timely verifies" "documentedClaims timely"
    and "decode s = Some \<lparr>tkMethod = SigningMethodSM2, tkAlg = Some (CStr ''SM2''), tkClaims = Some cl\<rparr>"
    and "allowedRole cl" "cl ''exp'' = None" "cl ''iat'' = None" "cl ''nbf'' = None"
    and "cl ''ak'' = Some (CStr hexKey)" "length hexKey = PUBK_HEX_LEN" "hexDecodeString hexKey = (a, None)"
    and "Sm2Compress lib (Sm2Decompress lib a) = Returns b"
    and "verifies s SigningMethodSM2 (Sm2Decompress lib a)"
  shows "verifyTokenSM2 lib Parse s = Returns None"
  unfolding verify_accepts_Parse Parse_accepts [OF assms(1)] keyFuncSM2_key
  using assms mkToken_namesKey [of cl hexKey]
  by (fastforce simp: timelyToken_def documentedClaims_def)

lemma ECDSA_token_accepted:
  assumes "documentedParse Parse decode timely verifies" "documentedClaims timely"
    and "decode s = Some \<lparr>tkMethod = SigningMethodECDSA, tkAlg = Some (CStr ''ES256''), tkClaims = Some cl\<rparr>"
    and "cl ''exp'' = None" "cl ''iat'' = None" "cl ''nbf'' = None"
    and "cl ''ak'' = Some (CStr hexKey)" "length hexKey = PUBK_HEX_LEN"
    and "DecompressPubkey lib (Hex2Bytes hexKey) = Inr k" "verifies s SigningMethodECDSA k"
  shows "parseJWT lib Parse s = Returns None"
  unfolding verify_accepts_Parse Parse_accepts [OF assms(1)] keyFuncECDSA_key
  using assms mkToken_namesKey [of cl hexKey]
  by (fastforce simp: timelyToken_def documentedClaims_def)

text \<open>
  The tokens are accepted by the check that belongs to them: a token that \<^verbatim>\<open>NewJwt\<close> returns by \<^verbatim>\<open>parseJWT\<close>, when the
  literal \<^verbatim>\<open>ak\<close> is the public key of the literal private key. The claim \<^verbatim>\<open>t\<close>, until when the token is
  meant to be valid, plays no role: at every time of the check, also later than that, the token is accepted.
\<close>

theorem NewJwt_accepted:
  assumes "documentedSigning lib decode verifies"
    and "\<And>clock. documentedParse (Parse clock) decode (timely clock) verifies"
    and "\<And>clock. documentedClaims (timely clock)"
    and "HexToECDSA crypto NewJwt_priv2 = Inr k"
    and "DecompressPubkey lib (Hex2Bytes NewJwt_ak) = Inr (publicKey lib SigningMethodECDSA k)"
    and "NewJwt lib crypto now domain key = Inr s"
  shows "NewJwt_claims now domain key ''t'' = Some (CNum (now + 1000000000)) \<and>
    (\<forall>clock :: int. parseJWT lib (Parse clock) s = Returns None)"
proof (intro conjI allI)
  fix clock :: int
  have "SignedString lib SigningMethodECDSA ''ES256'' (NewJwt_claims now domain key) k = Inr s"
    using assms(4,6) by (auto simp: NewJwt_def split: sum.splits)
  then have s: "decode s = Some \<lparr>tkMethod = SigningMethodECDSA, tkAlg = Some (CStr ''ES256''),
        tkClaims = Some (NewJwt_claims now domain key)\<rparr>"
      "verifies s SigningMethodECDSA (publicKey lib SigningMethodECDSA k)"
    using assms(1) by (auto simp: documentedSigning_def)
  show "parseJWT lib (Parse clock) s = Returns None"
    by (rule ECDSA_token_accepted [OF assms(2,3) s(1) _ _ _ _ _ assms(5) s(2)])
      (simp_all add: NewJwt_claims_def NewJwt_ak_def PUBK_HEX_LEN_def)
qed (simp add: NewJwt_claims_def)

text \<open>
  \<^verbatim>\<open>verifyTokenSM2\<close> trusts the key that the token itself names: whoever has a private key of SM2 can make a token with
  an allowed role and any other claims that it accepts.
\<close>

theorem self_signed_accepted:
  assumes "documentedSigning lib decode verifies" "documentedClaims timely"
    and "documentedParse Parse decode timely (\<lambda>s m k. \<exists>p. k = Some p \<and> verifies s m p)"
    and "Sm2Compress lib (Some (publicKey lib SigningMethodSM2 k)) = Returns a" "length a = 33"
    and "Sm2Decompress lib a = Some (publicKey lib SigningMethodSM2 k)"
    and "cl ''ak'' = Some (CStr (hexEncodeToString a))" "cl ''r'' = Some (CStr ''a'')"
    and "cl ''exp'' = None" "cl ''iat'' = None" "cl ''nbf'' = None"
    and "SignedString lib SigningMethodSM2 ''SM2'' cl k = Inr s"
  shows "verifyTokenSM2 lib Parse s = Returns None"
proof -
  have s: "decode s = Some \<lparr>tkMethod = SigningMethodSM2, tkAlg = Some (CStr ''SM2''), tkClaims = Some cl\<rparr>"
      "verifies s SigningMethodSM2 (publicKey lib SigningMethodSM2 k)"
    using assms(1,12) by (auto simp: documentedSigning_def)
  show ?thesis
    by (rule SM2_token_accepted [OF assms(3,2) s(1) _ assms(9-11,7) _ hexDecode_Encode, where b = a])
      (use assms(4-6,8) s(2) in \<open>simp_all add: allowedRole_def PUBK_HEX_LEN_def\<close>)
qed

section \<open>A library that keeps the documentation\<close>

definition exampleParse ::
  "(string \<rightharpoonup> jwtToken) \<Rightarrow> ((string \<rightharpoonup> claim) \<Rightarrow> bool) \<Rightarrow> (string \<Rightarrow> sigMethod \<Rightarrow> 'k \<Rightarrow> bool) \<Rightarrow> 'k parse" where
  "exampleParse decode timely verifies s kf =
     (case decode s of
        None \<Rightarrow> Returns (Inl ''malformed'')
      | Some tok \<Rightarrow>
          (case kf tok of
             Panics \<Rightarrow> Panics
           | Blocks \<Rightarrow> Blocks
           | Returns (Inl e) \<Rightarrow> Returns (Inl e)
           | Returns (Inr k) \<Rightarrow>
               if timelyToken timely tok \<and> verifies s (tkMethod tok) k then Returns (Inr (tok, True))
               else Returns (Inl ''signature is invalid'')))"

lemma exampleParse_documented: "documentedParse (exampleParse decode timely verifies) decode timely verifies"
  by (auto simp: documentedParse_def exampleParse_def split: option.splits outcome.splits sum.splits)

definition exampleKey :: "8 word list" where "exampleKey = replicate 33 2"

definition exampleClaims :: "sigMethod \<Rightarrow> string \<rightharpoonup> claim" where
  "exampleClaims m =
     (if m = SigningMethodSM2
      then [''ak'' \<mapsto> CStr (hexEncodeToString exampleKey), ''r'' \<mapsto> CStr ''a'']
      else NewJwt_claims 5 ''domain'' ''key'')"

definition exampleAlg :: "sigMethod \<Rightarrow> string" where
  "exampleAlg m = (if m = SigningMethodSM2 then ''SM2'' else ''ES256'')"

text \<open>One key, and one token for each method.\<close>

definition exampleDecode :: "string \<rightharpoonup> jwtToken" where
  "exampleDecode s =
     (if s = ''sm2'' then Some \<lparr>tkMethod = SigningMethodSM2, tkAlg = Some (CStr ''SM2''),
        tkClaims = Some (exampleClaims SigningMethodSM2)\<rparr>
      else if s = ''ecdsa'' then Some \<lparr>tkMethod = SigningMethodECDSA, tkAlg = Some (CStr ''ES256''),
        tkClaims = Some (exampleClaims SigningMethodECDSA)\<rparr>
      else None)"

definition exampleLib :: "nat jwtlib" where
  "exampleLib =
     \<lparr>DecompressPubkey = (\<lambda>_. Inr 7), Sm2Decompress = (\<lambda>_. Some 7), Sm2Compress = (\<lambda>_. Returns exampleKey),
      publicKey = (\<lambda>_ _. 7),
      SignedString = (\<lambda>m alg cl k.
        if m \<in> {SigningMethodSM2, SigningMethodECDSA} \<and> alg = exampleAlg m \<and> cl = exampleClaims m
        then Inr (if m = SigningMethodSM2 then ''sm2'' else ''ecdsa'') else Inl ''unsupported''),
      fmtV = (\<lambda>_. ''''), hexErrText = (\<lambda>_. '''')\<rparr>"

definition exampleVerifies :: "string \<Rightarrow> sigMethod \<Rightarrow> nat \<Rightarrow> bool" where
  "exampleVerifies s m k \<longleftrightarrow> k = 7"

definition exampleCrypto :: cryptolib where
  "exampleCrypto =
     \<lparr>HexToECDSA = (\<lambda>_. Inr 3), PubkeyToAddress = (\<lambda>_. []), SignErr = (\<lambda>_ _ _. None), Sm2InitKey = (\<lambda>_. 3),
      Keccak256 = id, ProtoMarshal = (\<lambda>_. Inr []), RlpErr = (\<lambda>_. None)\<rparr>"

lemma exampleSigning: "documentedSigning exampleLib exampleDecode exampleVerifies"
  by (auto simp: documentedSigning_def exampleLib_def exampleDecode_def exampleVerifies_def exampleAlg_def
      split: if_splits)

lemma exampleTimely: "documentedClaims (\<lambda>_. True)"
  by (simp add: documentedClaims_def)

theorem NewJwt_accepted_witness:
  "parseJWT exampleLib (exampleParse exampleDecode (\<lambda>_. True) exampleVerifies) ''ecdsa'' = Returns None"
proof -
  have "NewJwt exampleLib exampleCrypto 5 ''domain'' ''key'' = Inr ''ecdsa''"
    by (simp add: NewJwt_def exampleLib_def exampleCrypto_def exampleAlg_def exampleClaims_def)
  moreover have "HexToECDSA exampleCrypto NewJwt_priv2 = Inr 3" by (simp add: exampleCrypto_def)
  moreover have "DecompressPubkey exampleLib (Hex2Bytes NewJwt_ak) = Inr (publicKey exampleLib SigningMethodECDSA 3)"
    by (simp add: exampleLib_def)
  ultimately show ?thesis
    using NewJwt_accepted [OF exampleSigning exampleParse_documented exampleTimely] by blast
qed

theorem self_signed_accepted_witness:
  "verifyTokenSM2 exampleLib
     (exampleParse exampleDecode (\<lambda>_. True) (\<lambda>s m k. \<exists>p. k = Some p \<and> exampleVerifies s m p)) ''sm2'' =
   Returns None"
  by (rule self_signed_accepted [OF exampleSigning exampleTimely exampleParse_documented,
        of 3 exampleKey "exampleClaims SigningMethodSM2"])
    (simp_all add: exampleLib_def exampleKey_def exampleClaims_def exampleAlg_def)

theorem tokens_accepted_iff_witness:
  "verifyTokenSM2 exampleLib (exampleParse exampleDecode (\<lambda>_. True) (\<lambda>_ _ _. True)) ''sm2'' = Returns None \<and>
   parseJWT exampleLib (exampleParse exampleDecode (\<lambda>_. True) exampleVerifies) ''sm2'' \<noteq> Returns None"
proof -
  have sm2: "exampleDecode ''sm2'' = Some \<lparr>tkMethod = SigningMethodSM2, tkAlg = Some (CStr ''SM2''),
      tkClaims = Some (exampleClaims SigningMethodSM2)\<rparr>" by (simp add: exampleDecode_def)
  have "namesKey \<lparr>tkMethod = SigningMethodSM2, tkAlg = Some (CStr ''SM2''),
      tkClaims = Some (exampleClaims SigningMethodSM2)\<rparr> SigningMethodSM2 ''SM2''
      (hexEncodeToString exampleKey) (exampleClaims SigningMethodSM2)"
    by (rule mkToken_namesKey) (simp_all add: exampleClaims_def exampleKey_def PUBK_HEX_LEN_def)
  moreover have "allowedRole (exampleClaims SigningMethodSM2)" by (simp add: allowedRole_def exampleClaims_def)
  moreover have "Sm2Compress exampleLib (Sm2Decompress exampleLib exampleKey) = Returns exampleKey"
    by (simp add: exampleLib_def)
  ultimately show ?thesis
    using tokens_accepted_iff [OF exampleParse_documented [of exampleDecode "\<lambda>_. True" "\<lambda>_ _ _. True"]
        exampleParse_documented [of exampleDecode "\<lambda>_. True" exampleVerifies], of exampleLib "''sm2''"]
      hexDecode_Encode [of exampleKey] sm2
    by (auto simp: namesKey_def)
qed

end
