(* ===== verification/MultiSend.thy ===== *)
theory MultiSend
  imports SenderLaws
begin

text \<open>
  Programs with several accounts at once: the goroutines of \<^verbatim>\<open>transferfuwuqi.go\<close>, and the two programs of
  \<^verbatim>\<open>src/transfer2\<close>. A run of concurrent goroutines is a schedule of turns of their loops; the node that answers
  a turn is chosen with the turn, so that it can depend on everything the other goroutines have done.
\<close>

section \<open>Concurrent goroutines\<close>

text \<open>
  The state of a goroutine is that of its loop, or how it ended, with its own events. A goroutine that has ended
  takes no more turns.
\<close>

type_synonym 's thread = "('s + exit) \<times> event list"

fun concurrent ::
  "(nat \<Rightarrow> node \<Rightarrow> 's \<Rightarrow> ('s + exit) script) \<Rightarrow> (nat \<times> node) list \<Rightarrow> (nat \<Rightarrow> 's thread) \<Rightarrow> nat \<Rightarrow> 's thread" where
  "concurrent body [] T = T"
| "concurrent body ((i, nd) # sched) T =
     (case T i of
        (Inl s, h) \<Rightarrow> concurrent body sched (T(i := run_state (body i nd s) h))
      | (Inr x, h) \<Rightarrow> concurrent body sched T)"

locale concurrent_threads =
  fixes body :: "nat \<Rightarrow> node \<Rightarrow> 's \<Rightarrow> ('s + exit) script"
    and inv :: "nat \<Rightarrow> 's + exit \<Rightarrow> event list \<Rightarrow> bool"
  assumes kept: "\<lbrakk>inv i (Inl s) h; run_state (body i nd s) h = (r, h')\<rbrakk> \<Longrightarrow> inv i r h'"
begin

lemma concurrent_inv:
  assumes "\<And>i. inv i (fst (T i)) (snd (T i))"
  shows "inv i (fst (concurrent body sched T i)) (snd (concurrent body sched T i))"
  using assms
proof (induction sched arbitrary: T)
  case (Cons a sched)
  obtain j nd where a: "a = (j, nd)" by force
  show ?case
  proof (cases "T j")
    case (Pair st h)
    show ?thesis
    proof (cases st)
      case (Inl s)
      obtain r h' where r: "run_state (body j nd s) h = (r, h')" by force
      have "inv j r h'" using Cons.prems [of j] Pair Inl r kept by auto
      then have "inv k (fst ((T(j := (r, h'))) k)) (snd ((T(j := (r, h'))) k))" for k
        using Cons.prems [of k] by simp
      then have "inv i (fst (concurrent body sched (T(j := (r, h'))) i)) (snd (concurrent body sched (T(j := (r, h'))) i))"
        by (rule Cons.IH)
      then show ?thesis using a Pair Inl r by simp
    next
      case (Inr x)
      then show ?thesis using a Pair Cons.IH [OF Cons.prems] by simp
    qed
  qed
qed simp

end

text \<open>The goroutines of a sender: each keeps the discipline of the nonces of its own account.\<close>

definition ownDiscipline :: "('s \<Rightarrow> nonce_state \<times> nat) \<Rightarrow> nat option \<Rightarrow> nat \<Rightarrow> 's + exit \<Rightarrow> event list \<Rightarrow> bool" where
  "ownDiscipline view limit i r h \<longleftrightarrow>
     disciplined h \<and> within limit (length (accepted h)) \<and>
     (case r of Inl s \<Rightarrow> tracked h = view s \<and> below limit (snd (view s)) | Inr _ \<Rightarrow> True)"

section \<open>src/callsol/fuwuqi/transferfuwuqi.go, all goroutines\<close>

text \<open>The first turn of a goroutine connects and asks for the nonce; the key and the address are part of its state.\<close>

type_synonym account_state = "(privkey \<times> address \<times> counters) option"

definition transferfuwuqi_thread ::
  "cryptolib \<Rightarrow> string \<Rightarrow> (string \<times> string) list \<Rightarrow> nat \<Rightarrow> node \<Rightarrow> account_state \<Rightarrow> (account_state + exit) script" where
  "transferfuwuqi_thread lib host started i nd s =
     (if length started \<le> i then State_Monad.return (Inr Return)
      else case s of
        None \<Rightarrow> withAccount lib nd host (fst (started ! i)) Return Return
                  (\<lambda>key from nonce. State_Monad.return (Inl (Some (key, from, nonce, 0))))
      | Some (key, from, c) \<Rightarrow>
          do {
            r \<leftarrow> transferfuwuqi_body lib nd i key from c;
            State_Monad.return (map_sum (\<lambda>c'. Some (key, from, c')) id r)
          })"

fun viewAccount :: "account_state \<Rightarrow> nonce_state \<times> nat" where
  "viewAccount None = (Unknown, 0)"
| "viewAccount (Some (key, from, c)) = viewCounters c"

lemma transferfuwuqi_turn:
  assumes "tracked h = viewCounters c" "run_state (transferfuwuqi_body lib nd i key addr c) h = (r, h')"
  shows "ownDiscipline viewCounters None i r h'"
proof -
  obtain nonce n where c: "c = (nonce, n)" by force
  have "keeps (viewCounters c) (transferfuwuqi_body lib nd i key addr c)
      (\<lambda>s' e. e = viewCounters s' \<and> fst e \<noteq> Broken \<and> below None (snd e)) (\<lambda>e. fst e \<noteq> Broken \<and> within None (snd e))"
    using transferfuwuqi.turn [of c lib nd i key addr] c by (simp add: limitOf_def transferfuwuqi_txNum_def)
  from keepsD [OF this assms(1)] show ?thesis
    using assms(2) by (cases r) (auto simp: ownDiscipline_def disciplined_def tracked_def within_def)
qed

lemma withAccount_first:
  assumes "tracked h = (Unknown, 0)"
    and "run_state (withAccount lib nd host hexKey Return Return
      (\<lambda>key addr nonce. State_Monad.return (Inl (Some (key, addr, nonce, 0))))) h = (r, h')"
  shows "ownDiscipline viewAccount None i r h'"
proof -
  have "keeps (Unknown, 0) (withAccount lib nd host hexKey Return Return
      (\<lambda>key addr nonce. State_Monad.return (Inl (Some (key, addr, nonce, 0)))))
      (\<lambda>s e. e = viewAccount s \<and> fst e \<noteq> Broken) (\<lambda>e. fst e \<noteq> Broken)"
    by (rule keeps_withAccount) (auto intro: keeps_go)
  from keepsD [OF this assms(1)] show ?thesis
    using assms(2) by (cases r) (auto simp: ownDiscipline_def disciplined_def tracked_def within_def)
qed

interpretation transferfuwuqi_threads: concurrent_threads "transferfuwuqi_thread lib host started"
  "ownDiscipline viewAccount None" for lib host started
proof
  fix i s h nd r h'
  assume inv: "ownDiscipline viewAccount None i (Inl s) h"
    and run: "run_state (transferfuwuqi_thread lib host started i nd s) h = (r, h')"
  show "ownDiscipline viewAccount None i r h'"
  proof (cases "length started \<le> i")
    case True
    then show ?thesis using inv run by (auto simp: transferfuwuqi_thread_def ownDiscipline_def)
  next
    case i: False
    show ?thesis
    proof (cases s)
      case None
      then show ?thesis
        using i run inv withAccount_first [of h lib nd host "fst (started ! i)" r h' i]
        by (simp add: transferfuwuqi_thread_def ownDiscipline_def)
    next
      case (Some p)
      obtain key addr c where s: "s = Some (key, addr, c)" using Some by (cases p) auto
      obtain r1 where r1: "run_state (transferfuwuqi_body lib nd i key addr c) h = (r1, h')"
          "r = map_sum (\<lambda>c'. Some (key, addr, c')) id r1"
        using i run s by (auto simp: transferfuwuqi_thread_def run_state_bind split: prod.splits)
      then have "ownDiscipline viewCounters None i r1 h'"
        using inv s by (intro transferfuwuqi_turn) (simp_all add: ownDiscipline_def)
      then show ?thesis using r1 by (cases r1) (auto simp: ownDiscipline_def)
    qed
  qed
qed


section \<open>src/transfer2/main.go\<close>

definition transfer2_keys :: "string list" where
  "transfer2_keys =
     [''d29ce71545474451d8292838d4a0680a8444e6e4c14da018b4a08345fb2bbb84'',
      ''de2f935c24ba2af4fa37c7794b944803d3c44992c04330bd4b80631ea24397c6'',
      ''d8f9556d406e09b2a692e91b849705869df7c8b6cc02d650a0048cd4ad3884ee'']"

definition transfer2_tos :: "string list" where
  "transfer2_tos =
     [''0x08b299d855734914cd719ea60dc84b25680f0001'', ''0x08b299d855734914cd719ea60dc84b25680f0002'',
      ''0x08b299d855734914cd719ea60dc84b25680f0003'']"

definition transfer2_tx :: "64 word \<Rightarrow> string \<Rightarrow> transaction" where
  "transfer2_tx nonce to1 = NewTransaction nonce (HexToAddress to1) (10 * 1) 21000 19000000000 []"

text \<open>The error of the private key is ignored, and signing with a nil key panics.\<close>

definition transfer2_sendTestTx ::
  "cryptolib \<Rightarrow> node \<Rightarrow> string \<Rightarrow> 64 word \<Rightarrow> string \<Rightarrow> (string option + exit) script" where
  "transfer2_sendTestTx lib nd privKey1 nonce to1 =
     (case HexToECDSA lib privKey1 of
        Inl _ \<Rightarrow> State_Monad.return (Inr Panic)
      | Inr privKey3 \<Rightarrow>
          do {
            err \<leftarrow> sendRaw nd (orNil (SignTx lib (transfer2_tx nonce to1) (EIP155Signer 739) privKey3));
            State_Monad.return (Inl err)
          })"

text \<open>The three goroutines; the first goes on after an error, and each counts its nonce up in any case.\<close>

definition transfer2_thread :: "cryptolib \<Rightarrow> nat \<Rightarrow> node \<Rightarrow> 64 word \<Rightarrow> (64 word + exit) script" where
  "transfer2_thread lib j nd i =
     (if length transfer2_keys \<le> j then State_Monad.return (Inr Return)
      else do {
        r \<leftarrow> transfer2_sendTestTx lib nd (transfer2_keys ! j) i (transfer2_tos ! j);
        State_Monad.return
          (case r of
             Inr x \<Rightarrow> Inr x
           | Inl err \<Rightarrow> if j \<noteq> 0 \<and> err \<noteq> None then Inr Return else Inl (i + 1))
      })"

text \<open>The error of the connection is ignored; the goroutines dereference the nil client then.\<close>

definition transfer2_main :: "cryptolib \<Rightarrow> node \<Rightarrow> (nat \<times> node) list \<Rightarrow> nat \<Rightarrow> 64 word thread" where
  "transfer2_main lib nd sched =
     (case run_state (dial nd ''http://127.0.0.1:8547'') [] of
        (Some _, h) \<Rightarrow> (\<lambda>_. (Inr Panic, h))
      | (None, h) \<Rightarrow> concurrent (transfer2_thread lib) sched (\<lambda>_. (Inl 1, [])))"

text \<open>The nonces that were sent, with the replies.\<close>

fun sent :: "event list \<Rightarrow> (64 word \<times> string option) list" where
  "sent [] = []"
| "sent (EvSend (Some st) r # h) = (txNonce (fst st), r) # sent h"
| "sent (_ # h) = sent h"

lemma sent_append [simp]: "sent (h @ h') = sent h @ sent h'"
  by (induction h rule: sent.induct) auto

lemma consecutive_snoc: "consecutive b (ns @ [n]) \<longleftrightarrow> consecutive b ns \<and> n = b + word_of_nat (length ns)"
  by (induction ns arbitrary: b) (auto simp: algebra_simps)

definition transfer2_inv :: "nat \<Rightarrow> 64 word + exit \<Rightarrow> event list \<Rightarrow> bool" where
  "transfer2_inv j r h \<longleftrightarrow>
     consecutive 1 (map fst (sent h)) \<and>
     (\<exists>rs. h = map (\<lambda>(st, r). EvSend (Some st) r) rs) \<and> (3 \<le> j \<longrightarrow> h = []) \<and>
     (case r of
        Inl n \<Rightarrow> n = 1 + word_of_nat (length (sent h)) \<and> (j \<noteq> 0 \<longrightarrow> (\<forall>(m, e) \<in> set (sent h). e = None))
      | Inr x \<Rightarrow>
          j < 3 \<longrightarrow> x = Return \<and> j \<noteq> 0 \<and> sent h \<noteq> [] \<and> snd (last (sent h)) \<noteq> None \<and>
            (\<forall>(m, e) \<in> set (butlast (sent h)). e = None))"

definition parses :: "cryptolib \<Rightarrow> bool" where
  "parses lib \<longleftrightarrow> (\<forall>k \<in> set transfer2_keys. \<exists>key. HexToECDSA lib k = Inr key)"

text \<open>A library that also parses every key, like \<open>withSigning\<close>.\<close>

definition withKeys :: "cryptolib \<Rightarrow> cryptolib" where
  "withKeys lib = (withSigning lib)
     \<lparr>HexToECDSA := (\<lambda>s. case HexToECDSA lib s of Inr k \<Rightarrow> Inr k | Inl _ \<Rightarrow> Inr 0)\<rparr>"

lemma signs_withKeys [simp]: "signs (withKeys lib)"
  by (simp add: withKeys_def withSigning_def signs_def)

lemma transfer2_turn:
  assumes "j < 3"
  obtains st where "txNonce (fst st) = i"
    and "run_state (transfer2_thread (withKeys lib) j nd i) h =
      (if j \<noteq> 0 \<and> ndSend nd h (Some st) \<noteq> None then Inr Return else Inl (i + 1),
       h @ [EvSend (Some st) (ndSend nd h (Some st))])"
proof -
  obtain key where "HexToECDSA (withKeys lib) (transfer2_keys ! j) = Inr key"
    by (cases "HexToECDSA lib (transfer2_keys ! j)") (auto simp: withKeys_def)
  then show ?thesis
    using that [of "(transfer2_tx i (transfer2_tos ! j), EIP155Signer 739, key)"] assms
    by (simp add: transfer2_thread_def transfer2_sendTestTx_def run_script transfer2_keys_def transfer2_tx_def
        split: option.splits)
qed

interpretation transfer2_threads: concurrent_threads "transfer2_thread (withKeys lib)" transfer2_inv for lib
proof
  fix j i h nd r h'
  assume inv: "transfer2_inv j (Inl i) h"
    and run: "run_state (transfer2_thread (withKeys lib) j nd i) h = (r, h')"
  show "transfer2_inv j r h'"
  proof (cases "j < 3")
    case True
    obtain st where n: "txNonce (fst st) = i"
      and rh: "run_state (transfer2_thread (withKeys lib) j nd i) h =
        (if j \<noteq> 0 \<and> ndSend nd h (Some st) \<noteq> None then Inr Return else Inl (i + 1),
         h @ [EvSend (Some st) (ndSend nd h (Some st))])"
      by (rule transfer2_turn [OF True])
    have r: "r = (if j \<noteq> 0 \<and> ndSend nd h (Some st) \<noteq> None then Inr Return else Inl (i + 1))"
      and h': "h' = h @ [EvSend (Some st) (ndSend nd h (Some st))]"
      using run unfolding rh by auto
    obtain rs where rs: "h = map (\<lambda>(st, r). EvSend (Some st) r) rs" using inv by (auto simp: transfer2_inv_def)
    have "h' = map (\<lambda>(st, r). EvSend (Some st) r) (rs @ [(st, ndSend nd h (Some st))])" using h' rs by simp
    then have "\<exists>rs. h' = map (\<lambda>(st, r). EvSend (Some st) r) rs" by blast
    then show ?thesis using inv n True unfolding r
      by (auto simp: transfer2_inv_def h' consecutive_snoc algebra_simps)
  qed (use inv run in \<open>auto simp: transfer2_inv_def transfer2_thread_def transfer2_keys_def\<close>)
qed

lemma transfer2_thread_withKeys:
  assumes "signs lib" "parses lib"
  shows "transfer2_thread (withKeys lib) = transfer2_thread lib"
proof (intro ext)
  fix j nd i
  show "transfer2_thread (withKeys lib) j nd i = transfer2_thread lib j nd i"
  proof (cases "j < length transfer2_keys")
    case True
    then obtain key where "HexToECDSA lib (transfer2_keys ! j) = Inr key"
      using assms(2) nth_mem unfolding parses_def by blast
    then show ?thesis using assms(1) by (simp add: transfer2_thread_def transfer2_sendTestTx_def withKeys_def
        withSigning_def SignTx_def signs_def)
  qed (simp add: transfer2_thread_def)
qed

text \<open>The discipline of nonces for an account whose next nonce is \<open>n\<close>.\<close>

definition disciplinedFrom :: "64 word \<Rightarrow> event list \<Rightarrow> bool" where
  "disciplinedFrom n h \<longleftrightarrow> foldl ns_step (Next n) h \<noteq> Broken"

lemma disciplinedFrom_sends:
  "\<lbrakk>h = map (\<lambda>(st, r). EvSend (Some st) r) rs; consecutive n (map fst (sent h))\<rbrakk> \<Longrightarrow>
     disciplinedFrom n h \<longleftrightarrow> (\<forall>(m, e) \<in> set (butlast (sent h)). e = None)"
proof (induction rs arbitrary: n h)
  case (Cons p rs)
  obtain st r where p: "p = (st, r)" by (cases p)
  define h1 where "h1 = map (\<lambda>(st, r). EvSend (Some st) r) rs"
  have h: "h = EvSend (Some st) r # h1" using Cons.prems(1) p by (simp add: h1_def)
  have n: "txNonce (fst st) = n" and c: "consecutive (n + 1) (map fst (sent h1))"
    using Cons.prems(2) h by simp_all
  show ?case
  proof (cases r)
    case None
    have "sent h1 = [] \<longleftrightarrow> rs = []" by (cases rs) (auto simp: h1_def split: prod.splits)
    then show ?thesis using Cons.IH [OF h1_def c] None h n
      by (auto simp: disciplinedFrom_def h1_def split: prod.splits)
  next
    case (Some e)
    show ?thesis
    proof (cases rs)
      case Nil
      then show ?thesis using h n by (simp add: disciplinedFrom_def h1_def split: option.splits)
    next
      case (Cons q qs)
      obtain st2 r2 where q: "q = (st2, r2)" by (cases q)
      have "txNonce (fst st2) = n + 1" using c Cons q by (simp add: h1_def)
      then have "foldl ns_step (Next n) h1 = Broken"
        using Cons q by (simp add: h1_def foldl_Broken)
      then show ?thesis using Some h n Cons q by (auto simp: disciplinedFrom_def h1_def)
    qed
  qed
qed (simp add: disciplinedFrom_def)

text \<open>
  The three goroutines of \<^verbatim>\<open>transfer2/main.go\<close> send the nonces 1, 2, 3 and so on, without asking for the
  nonce of their accounts, in every schedule and whatever the node answers. For an account whose next nonce is 1,
  the second and the third goroutine keep the discipline, because they stop at the first refused
  transaction; the first never stops, and keeps it exactly as long as no transaction but the last one was refused:
  a refused nonce is not sent again, and what follows it stays behind a gap.
\<close>

theorem transfer2_nonces:
  assumes "signs lib" "parses lib" "ndDial nd [] ''http://127.0.0.1:8547'' = None" "j < 3"
    and "transfer2_main lib nd sched j = (r, h)"
  shows "consecutive 1 (map fst (sent h)) \<and>
    (j \<noteq> 0 \<longrightarrow> disciplinedFrom 1 h \<and>
       (r = Inr Return \<longleftrightarrow> sent h \<noteq> [] \<and> snd (last (sent h)) \<noteq> None)) \<and>
    (j = 0 \<longrightarrow> isl r \<and> (disciplinedFrom 1 h \<longleftrightarrow> (\<forall>(m, e) \<in> set (butlast (sent h)). e = None)))"
proof -
  have "transfer2_inv j (fst (concurrent (transfer2_thread lib) sched (\<lambda>_. (Inl 1, [])) j))
      (snd (concurrent (transfer2_thread lib) sched (\<lambda>_. (Inl 1, [])) j))"
    unfolding transfer2_thread_withKeys [OF assms(1,2), symmetric]
    by (rule transfer2_threads.concurrent_inv) (simp add: transfer2_inv_def)
  then have inv: "transfer2_inv j r h"
    using assms(3,5) by (simp add: transfer2_main_def run_script)
  then obtain rs where rs: "h = map (\<lambda>(st, r). EvSend (Some st) r) rs"
    and c: "consecutive 1 (map fst (sent h))" by (auto simp: transfer2_inv_def)
  have d: "disciplinedFrom 1 h \<longleftrightarrow> (\<forall>(m, e) \<in> set (butlast (sent h)). e = None)"
    by (rule disciplinedFrom_sends [OF rs c])
  show ?thesis
  proof (cases r)
    case (Inl n)
    then have "\<forall>(m, e) \<in> set (sent h). e = None" if "j \<noteq> 0" using inv that by (simp add: transfer2_inv_def)
    moreover have "last (sent h) \<in> set (sent h)" if "sent h \<noteq> []" using that by simp
    ultimately show ?thesis using Inl c d by (fastforce dest: in_set_butlastD)
  next
    case (Inr x)
    then show ?thesis using inv c d assms(4) by (cases x) (auto simp: transfer2_inv_def)
  qed
qed

section \<open>src/transfer2/mian2.go\<close>

definition mian2_tx :: "64 word \<Rightarrow> nat \<Rightarrow> nat \<Rightarrow> transaction" where
  "mian2_tx nonce n1 n2 =
     NewTransaction nonce
       (HexToAddress (''0x08b299d855734914cd7b19eea60dc84b'' @ itoa n1 @ ''25680f'' @ itoa n2))
       (1000000 * 10 ^ 18) 21000 9000000000 []"

text \<open>One turn of the loop, which has no end; an error of the question for the nonce makes it zero.\<close>

definition mian2_body :: "cryptolib \<Rightarrow> node \<Rightarrow> privkey \<Rightarrow> address \<Rightarrow> counters \<Rightarrow> (counters + exit) script" where
  "mian2_body lib nd key addr s =
     (let (nonce, i) = s in
      do {
        n1 \<leftarrow> intn nd 9;
        n2 \<leftarrow> intn nd 9;
        err \<leftarrow> sendRaw nd (orNil (SignTx lib (mian2_tx nonce n1 n2) (EIP155Signer 739) key));
        case err of
          Some _ \<Rightarrow> do { r \<leftarrow> nonceAt nd addr; State_Monad.return (Inl (orZero r, i)) }
        | None \<Rightarrow> State_Monad.return (Inl (nonce + 1, i + 1))
      })"

text \<open>The nonce that the node has told is replaced by 2.\<close>

definition sendTestTx1 :: "cryptolib \<Rightarrow> node \<Rightarrow> nat \<Rightarrow> string \<Rightarrow> (counters + exit) script" where
  "sendTestTx1 lib nd k privKey =
     withAccount lib nd ''http://127.0.0.1:8547'' privKey Return Return
       (\<lambda>key addr nonce. iterate k (mian2_body lib nd key addr) (2, 0))"

definition mian2_main :: "string list \<Rightarrow> (string \<times> string) list" where
  "mian2_main privKeys = goroutines privKeys"

text \<open>A node that always answers the question for the nonce.\<close>

definition answering :: "node \<Rightarrow> node" where
  "answering nd = nd\<lparr>ndNonceAt := (\<lambda>h a. case ndNonceAt nd h a of Inr n \<Rightarrow> Inr n | Inl _ \<Rightarrow> Inr 0)\<rparr>"

definition answers :: "node \<Rightarrow> bool" where
  "answers nd \<longleftrightarrow> (\<forall>h a. \<exists>n. ndNonceAt nd h a = Inr n)"

lemma answering_id: "answers nd \<Longrightarrow> answering nd = nd"
proof -
  assume a: "answers nd"
  have "(case ndNonceAt nd h a of Inr n \<Rightarrow> Inr n | Inl _ \<Rightarrow> Inr 0) = ndNonceAt nd h a" for h a
    using a unfolding answers_def by (metis sum.case(2))
  then show ?thesis by (cases nd) (simp add: answering_def)
qed

lemma keeps_answering:
  assumes "fst e \<noteq> Broken" "\<And>n. keeps (Next n, snd e) (k (Inr n)) Q F"
  shows "keeps e (do { r \<leftarrow> nonceAt (answering nd) a; k r }) Q F"
  unfolding nonceAt_def
proof (rule keeps_perform)
  fix h
  assume h: "tracked h = e"
  obtain n where n: "ndNonceAt (answering nd) h a = Inr n"
    by (cases "ndNonceAt nd h a") (auto simp: answering_def)
  show "keeps (tracked (h @ [EvNonceAt a (ndNonceAt (answering nd) h a)])) (k (ndNonceAt (answering nd) h a)) Q F"
    using assms h n by (cases "fst e") (simp_all add: tracked_snoc)
qed

interpretation mian2: sender "mian2_body (withSigning lib) (answering nd) key a" viewCounters None for lib nd key a
  by unfold_locales
    (auto simp: split_paired_all mian2_body_def mian2_tx_def orZero_def intro!: keeps_answering keeps_intn keeps_send
      keeps_case_option keeps_go)

lemma mian2_grows: "grows (mian2_body lib nd key a s)"
  by (auto simp: mian2_body_def split: prod.splits intro!: grow_rule)

lemma mian2_override:
  assumes "signs lib" "answers nd" "tracked h = (Next n, 0)"
  shows "disciplined (snd (run_state (iterate (Suc k) (mian2_body lib nd key a) (2, 0)) h)) \<longleftrightarrow> n = 2"
proof (cases "n = 2")
  case True
  then show ?thesis
    using mian2.turns [of h "(2, 0)" "Suc k" lib nd key a] assms by (simp add: withSigning_id answering_id)
next
  case False
  let ?j1 = "ndIntn nd h 9 mod 9"
  let ?h1 = "h @ [EvIntn 9 ?j1]"
  let ?j2 = "ndIntn nd ?h1 9 mod 9"
  let ?h2 = "?h1 @ [EvIntn 9 ?j2]"
  let ?st = "Some (mian2_tx 2 ?j1 ?j2, EIP155Signer 739, key)"
  let ?h3 = "?h2 @ [EvSend ?st (ndSend nd ?h2 ?st)]"
  define rest where "rest = (case ndSend nd ?h2 ?st of
      Some _ \<Rightarrow> do { r \<leftarrow> nonceAt nd a; State_Monad.return (Inl (orZero r, 0)) }
    | None \<Rightarrow> State_Monad.return (Inl (3, Suc 0) :: counters + exit))"
  have run: "run_state (mian2_body lib nd key a (2, 0)) h = run_state rest ?h3"
    using assms(1) by (simp add: mian2_body_def run_script rest_def split: option.splits)
  have "expected ?h3 = Broken"
    using assms(3) False by (simp add: tracked_def expected_def mian2_tx_def)
  moreover have "grows (do { r \<leftarrow> rest; case r of Inl s' \<Rightarrow> iterate k (mian2_body lib nd key a) s' |
      Inr x \<Rightarrow> State_Monad.return (Inr x) })"
    unfolding rest_def by (intro grow_rule grows_iterate mian2_grows)
  ultimately have "expected (snd (run_state (do { r \<leftarrow> rest; case r of Inl s' \<Rightarrow>
      iterate k (mian2_body lib nd key a) s' | Inr x \<Rightarrow> State_Monad.return (Inr x) }) ?h3)) = Broken"
    by (intro grows_broken)
  then show ?thesis using False run by (simp add: disciplined_def run_state_bind)
qed

text \<open>
  \<^verbatim>\<open>transfer2/mian2.go\<close> asks for the nonce of the account and then starts with the nonce 2: with a node that
  always answers the question, its runs keep the discipline of nonces if and only if 2 was the next nonce of the
  account.
\<close>

theorem mian2_disciplined_iff:
  assumes "signs lib" "answers nd" "HexToECDSA lib privKey = Inr key"
    and "ndDial nd [] ''http://127.0.0.1:8547'' = None"
    and "ndNonceAt nd [EvDial ''http://127.0.0.1:8547'' None] (PubkeyToAddress lib key) = Inr n"
  shows "disciplined (events (sendTestTx1 lib nd (Suc k) privKey)) \<longleftrightarrow> n = 2"
proof -
  let ?h = "[EvDial ''http://127.0.0.1:8547'' None, EvNonceAt (PubkeyToAddress lib key) (Inr n)]"
  have h: "tracked ?h = (Next n, 0)" by (simp add: tracked_def expected_def)
  show ?thesis
    using mian2_override [OF assms(1,2) h, of k key "PubkeyToAddress lib key"] assms(3-5)
    by (simp add: events_def sendTestTx1_def withAccount_def run_script del: iterate.simps)
qed

theorem mian2_disciplined_iff_witness:
  "\<not> disciplined (events (sendTestTx1 sampleLib (sampleNode 7) 3 ''key''))"
  using mian2_disciplined_iff [of sampleLib "sampleNode 7" "''key''" 3 7 2]
  by (simp add: sampleLib_def sampleNode_def signs_def answers_def numeral_3_eq_3 del: iterate.simps)


text \<open>A node that refuses everything.\<close>

definition refusingFrom :: "64 word \<Rightarrow> node" where
  "refusingFrom base = (sampleNode base)\<lparr>ndSend := (\<lambda>_ _. Some ''nonce too low'')\<rparr>"

definition transfer2_sample :: "nat \<Rightarrow> 64 word thread" where
  "transfer2_sample =
     transfer2_main sampleLib (sampleNode 1) [(0, refusingFrom 1), (1, sampleNode 1), (0, sampleNode 1)]"

lemma transfer2_sample_0: "sent (snd (transfer2_sample 0)) = [(1, Some ''nonce too low''), (2, None)]"
  by (simp add: transfer2_sample_def transfer2_main_def run_script transfer2_thread_def transfer2_sendTestTx_def
      transfer2_keys_def transfer2_tos_def sampleLib_def sampleNode_def refusingFrom_def SignTx_def transfer2_tx_def)

theorem transfer2_nonces_witness:
  "\<not> disciplinedFrom 1 (snd (transfer2_sample 0)) \<and> isl (fst (transfer2_sample 0))"
proof -
  have "signs sampleLib" "parses sampleLib" by (simp_all add: signs_def parses_def sampleLib_def)
  moreover have "ndDial (sampleNode 1) [] ''http://127.0.0.1:8547'' = None" by (simp add: sampleNode_def)
  ultimately show ?thesis
    using transfer2_nonces [of sampleLib "sampleNode 1" 0
        "[(0, refusingFrom 1), (1, sampleNode 1), (0, sampleNode 1)]" "fst (transfer2_sample 0)" "snd (transfer2_sample 0)"]
      transfer2_sample_0
    by (simp add: transfer2_sample_def)
qed

end
