(* ===== verification/ClientSub.thy ===== *)
theory ClientSub
  imports Http
begin

text \<open>
  The methods of the RPC client on a connection that stays open, \<^verbatim>\<open>src/rpc/client.go\<close>: \<^verbatim>\<open>Subscribe\<close>,
  \<^verbatim>\<open>EthSubscribe\<close>, \<^verbatim>\<open>ShhSubscribe\<close>, \<^verbatim>\<open>requestUnsubscribe\<close>, \<^verbatim>\<open>CallContext\<close>, \<^verbatim>\<open>SupportedModules\<close> and \<^verbatim>\<open>Close\<close>, and their
  composition with the server: a subscription from the request to the delivery of its notifications and to its end.
\<close>

section \<open>Exchanges with a peer\<close>

text \<open>
  The peer of the connection: the error with which writing a text fails, if it does, and the events that the
  dispatch loop has after the text was written until the caller goes on.
\<close>

type_synonym peer = "raw \<Rightarrow> string option \<times> dispatch_event list"

text \<open>
  \<^verbatim>\<open>send\<close> and \<^verbatim>\<open>wait\<close> of one operation. The loop takes the operation when no other send is in progress; \<open>ctxErr\<close> is
  the error of the context when it ends first. The encoder writes the message and a line feed.
\<close>

definition exchange ::
  "jsonlib \<Rightarrow> peer \<Rightarrow> string option \<Rightarrow> string option \<Rightarrow> jsonrpcMessage \<Rightarrow> Client \<Rightarrow>
     (jsonrpcMessage option \<times> string option) outcome \<times> Client" where
  "exchange lib peer ctxErr sub msg c =
     (if clQuit c then (Returns (None, Some ErrClientQuit), c)
      else if clLastOp c \<noteq> None then ((case ctxErr of Some e \<Rightarrow> Returns (None, Some e) | None \<Rightarrow> Blocks), c)
      else let n = length (clOps c); (err, evs) = peer (marshalRequest msg @ [CHR 0x0A])
           in case run_ops (dispatch lib) [EvRequestOp [mgID msg] sub, EvSendDone err] c of
                None \<Rightarrow> (Panics, c)
              | Some c1 \<Rightarrow>
                  (case err of
                     Some e \<Rightarrow> (Returns (None, Some e), c1)
                   | None \<Rightarrow>
                       (case run_ops (dispatch lib) evs c1 of
                          None \<Rightarrow> (Panics, c1)
                        | Some c2 \<Rightarrow>
                            (let (r, op) = wait ctxErr (clOps c2 ! n) in (r, updateOp n (\<lambda>_. op) c2)))))"

section \<open>The methods\<close>

datatype chan_value = NotChan | ChanValue (sendable: bool) (isNilChan: bool)

definition Subscribe ::
  "jsonlib \<Rightarrow> peer \<Rightarrow> string option \<Rightarrow> bool \<Rightarrow> string \<Rightarrow> chan_value \<Rightarrow> govalue list \<Rightarrow> 32 word \<Rightarrow> Client \<Rightarrow>
     (string + nat) outcome \<times> 32 word \<times> Client" where
  "Subscribe lib peer ctxErr isHTTP namespace channel args idCounter c =
     (case channel of
        NotChan \<Rightarrow> (Panics, idCounter, c)
      | ChanValue send nil \<Rightarrow>
          if \<not> send \<or> nil then (Panics, idCounter, c)
          else if isHTTP then (Returns (Inl ErrNotificationsUnsupported), idCounter, c)
          else case newMessage lib idCounter (namespace @ subscribeMethodSuffix) args of
            (Inl e, d) \<Rightarrow> (Returns (Inl e), d, c)
          | (Inr msg, d) \<Rightarrow>
              (case exchange lib peer ctxErr (Some namespace) msg c of
                 (Returns (_, Some e), c') \<Rightarrow> (Returns (Inl e), d, c')
               | (Returns (_, None), c') \<Rightarrow> (Returns (Inr (length (clSubObjs c))), d, c')
               | (Blocks, c') \<Rightarrow> (Blocks, d, c')
               | (Panics, c') \<Rightarrow> (Panics, d, c')))"

definition EthSubscribe ::
  "jsonlib \<Rightarrow> peer \<Rightarrow> string option \<Rightarrow> bool \<Rightarrow> chan_value \<Rightarrow> govalue list \<Rightarrow> 32 word \<Rightarrow> Client \<Rightarrow>
     (string + nat) outcome \<times> 32 word \<times> Client" where
  "EthSubscribe lib peer ctxErr isHTTP = Subscribe lib peer ctxErr isHTTP ''eth1''"

definition ShhSubscribe ::
  "jsonlib \<Rightarrow> peer \<Rightarrow> string option \<Rightarrow> bool \<Rightarrow> chan_value \<Rightarrow> govalue list \<Rightarrow> 32 word \<Rightarrow> Client \<Rightarrow>
     (string + nat) outcome \<times> 32 word \<times> Client" where
  "ShhSubscribe lib peer ctxErr isHTTP = Subscribe lib peer ctxErr isHTTP ''shh''"

text \<open>\<^verbatim>\<open>CallContext\<close> of a client whose connection is not HTTP.\<close>

definition callConn ::
  "jsonlib \<Rightarrow> peer \<Rightarrow> (raw \<Rightarrow> string + govalue) \<Rightarrow> string option \<Rightarrow> string \<Rightarrow> govalue list \<Rightarrow> 32 word \<Rightarrow> Client \<Rightarrow>
     (string + govalue) outcome \<times> 32 word \<times> Client" where
  "callConn lib peer unm ctxErr method args idCounter c =
     (case newMessage lib idCounter method args of
        (Inl e, d) \<Rightarrow> (Returns (Inl e), d, c)
      | (Inr msg, d) \<Rightarrow>
          (case exchange lib peer ctxErr None msg c of
             (Returns (_, Some e), c') \<Rightarrow> (Returns (Inl e), d, c')
           | (Returns (Some resp, None), c') \<Rightarrow> (Returns (evalResponse unm resp), d, c')
           | (Returns (None, None), c') \<Rightarrow> (Panics, d, c')
           | (Blocks, c') \<Rightarrow> (Blocks, d, c')
           | (Panics, c') \<Rightarrow> (Panics, d, c')))"

text \<open>The result of \<^verbatim>\<open>requestUnsubscribe\<close> is decoded into an empty interface, which takes every value.\<close>

definition requestUnsubscribe ::
  "jsonlib \<Rightarrow> peer \<Rightarrow> ClientSubscription \<Rightarrow> 32 word \<Rightarrow> Client \<Rightarrow> (string + govalue) outcome \<times> 32 word \<times> Client" where
  "requestUnsubscribe lib peer sub =
     callConn lib peer (\<lambda>r. Inr (GVal r)) None (csNamespace sub @ unsubscribeMethodSuffix) [GStr (csSubid sub)]"

definition SupportedModules ::
  "jsonlib \<Rightarrow> peer \<Rightarrow> (raw \<Rightarrow> string + govalue) \<Rightarrow> string option \<Rightarrow> 32 word \<Rightarrow> Client \<Rightarrow>
     (string + govalue) outcome \<times> 32 word \<times> Client" where
  "SupportedModules lib peer unm ctxErr = callConn lib peer unm ctxErr ''rpc_modules'' []"

definition clientClose :: "jsonlib \<Rightarrow> bool \<Rightarrow> Client \<Rightarrow> Client option" where
  "clientClose lib isHTTP c = (if isHTTP then Some c else dispatch lib EvClose c)"

section \<open>A server as the peer\<close>

text \<open>
  The read loop of the client on the bytes that have arrived: each message is passed on to the
  dispatch loop; the loop ends with the first error and waits when nothing but white space is left.
\<close>

function readLoop :: "jsonlib \<Rightarrow> string \<Rightarrow> dispatch_event list" where
  "readLoop lib input =
     (if skip_ws input = [] then []
      else case readMessage lib input of
             Inl e \<Rightarrow> [EvReadErr e]
           | Inr (ms, rest) \<Rightarrow> EvReadResp ms # readLoop lib rest)"
  by pat_completeness auto
termination
  by (relation "measure (length \<circ> snd)")
    (auto simp: readMessage_def split: sum.splits prod.splits if_splits option.splits dest: decodeRaw_rest)

declare readLoop.simps [simp del]

text \<open>The server reads the text and serves the request in it; what it has written since is what the client reads.\<close>

definition serveText :: "jsonlib \<Rightarrow> 'w code \<Rightarrow> Server \<Rightarrow> 'w conn \<Rightarrow> raw \<Rightarrow> 'w conn option" where
  "serveText lib call srv cn text =
     map_option snd (serveSingle lib call srv True
       (cn\<lparr>cnCodec := (cnCodec cn)\<lparr>cIn := cIn (cnCodec cn) @ text\<rparr>\<rparr>))"

definition newOutput :: "'w conn \<Rightarrow> 'w conn \<Rightarrow> string" where
  "newOutput cn cn' = drop (length (cOut (cnCodec cn))) (cOut (cnCodec cn'))"

definition serverPeer :: "jsonlib \<Rightarrow> 'w code \<Rightarrow> Server \<Rightarrow> 'w conn \<Rightarrow> peer" where
  "serverPeer lib call srv cn text =
     (None, case serveText lib call srv cn text of
              None \<Rightarrow> [] | Some cn' \<Rightarrow> readLoop lib (newOutput cn cn'))"

section \<open>Texts on the connection\<close>

lemma skip_ws_front: "skip_ws ws = [] \<Longrightarrow> skip_ws (ws @ x) = skip_ws x"
  by (simp add: skip_ws_def)

lemma skip_ws_newline [simp]: "skip_ws [CHR 0x0A] = []"
  by (simp add: skip_ws_def is_jws_def)

lemma decodeRaw_line:
  assumes "skip_ws ws = []" "compact v"
  shows "decodeRaw lib (ws @ v @ [CHR 0x0A]) = Inr (v, [CHR 0x0A])"
proof -
  have "tail_ok [] [CHR 0x0A]" by (simp add: tail_ok_def num_char_def is_digit_def)
  from decodeRaw_compact [OF assms(2) this, of lib] show ?thesis
    by (simp add: decodeRaw_def skip_ws_front [OF assms(1)])
qed

lemma readLoop_line:
  assumes "compact t" "\<not> isBatch t" "decodeMessagePtr t = Some m"
  shows "readLoop lib (t @ [CHR 0x0A]) = [EvReadResp [m]]"
proof -
  have d: "decodeRaw lib (t @ [CHR 0x0A]) = Inr (t, [CHR 0x0A])" using decodeRaw_line [of "[]" t lib] assms(1)
    by (simp add: skip_ws_def)
  then have "skip_ws (t @ [CHR 0x0A]) \<noteq> []" by (auto simp: decodeRaw_def)
  then show ?thesis
    using d assms(2,3)
    by (subst readLoop.simps) (simp add: readMessage_def readLoop.simps [of lib "[CHR 0x0A]"])
qed

lemma not_batch_success: "marshalResponse lib r = Inr t \<Longrightarrow> \<not> isBatch t"
  by (cases r) (auto split: sum.splits)

lemma not_null_array [simp]: "\<not> is_null (render_array vs)"
proof -
  have "TrimSpace (render_array vs) = render_array vs"
    by (simp add: render_array_def TrimSpace_def is_space_def)
  then show ?thesis by (simp add: is_null_def render_array_def)
qed

text \<open>The first parameter of a subscription request is the name of the subscription.\<close>

lemma params_of_subscription:
  assumes "compactLib lib" "marshalParams lib (GStr m # args) = Inr p"
  shows "unmarshalString1 p = Some m"
proof -
  obtain rs where rs: "marshalValues lib args = Inr rs" "p = render_array (json_quote m # rs)"
    using assms(2) by (auto simp: marshalParams_def split: sum.splits)
  have c: "\<forall>v \<in> set (json_quote m # rs). compact v"
    using compact_marshalValues [OF assms(1) rs(1)] by simp
  show ?thesis
    using json_array_render [OF c] by (simp add: unmarshalString1_def compact_valid rs(2))
qed

lemma decode_notification:
  assumes "compact r" "marshalValue lib v = Inr r"
  shows "\<exists>t. marshalResponse lib (CreateNotification i ns (Some v)) = Inr t \<and> compact t \<and>
    decodeMessagePtr t = Some (Some (zeroMessage\<lparr>mgVersion := ''2.0'', mgMethod := ns @ notificationMethodSuffix,
      mgParams := render_object [(''subscription'', json_quote i), (''result'', r)]\<rparr>)) \<and>
    unmarshalSubResult (render_object [(''subscription'', json_quote i), (''result'', r)]) = Some (i, r)"
proof -
  let ?ps = "[(''subscription'', json_quote i), (''result'', r)]"
  have p: "\<forall>(k, v) \<in> set ?ps. compact v" using assms(1) by simp
  note o = json_object_render [OF p]
  let ?ms = "[versionMember, (''method'', json_quote (ns @ notificationMethodSuffix)), (''params'', render_object ?ps)]"
  have c: "\<forall>(k, v) \<in> set ?ms. compact v" using o(2) by (simp add: versionMember_def)
  have "marshalResponse lib (CreateNotification i ns (Some v)) = Inr (render_object ?ms)"
    using assms(2) by (simp add: CreateNotification_def marshalOptional_def)
  moreover have "decodeMessagePtr (render_object ?ms) = Some (Some (zeroMessage\<lparr>mgVersion := ''2.0'',
      mgMethod := ns @ notificationMethodSuffix, mgParams := render_object ?ps\<rparr>))"
    unfolding decodeMessagePtr_object [OF c]
    by (simp add: versionMember_def decodeMessageMember_def jsonrpcVersion_def)
  moreover have "unmarshalSubResult (render_object ?ps) = Some (i, r)"
    using o by (simp add: unmarshalSubResult_def compact_valid decodeSubMember_def)
  ultimately show ?thesis using json_object_render(2) [OF c] by blast
qed

text \<open>The server understands a request to subscribe and one to unsubscribe.\<close>

lemma parse_message:
  assumes "compactLib lib" "newMessage lib c m args = (Inr msg, c')" "m \<noteq> []"
  shows "unmarshalRequest lib (marshalRequest msg) = Inr
     \<lparr>jMethod = m, jVersion = ''2.0'', jId = mgID msg, jPayload = mgParams msg\<rparr>"
    and "compact (marshalRequest msg)" "\<not> isBatch (marshalRequest msg)" "mgParams msg \<noteq> []"
proof -
  note f = newMessage_fields [OF assms(1,2)]
  show c: "compact (marshalRequest msg)" by (rule marshalRequest_object(2)) (use f assms(3) in simp_all)
  have "decodeRequest (marshalRequest msg) = Some
     \<lparr>jMethod = mgMethod msg, jVersion = mgVersion msg, jId = mgID msg, jPayload = mgParams msg\<rparr>"
    by (rule decodeRequest_marshal) (use f assms(3) in simp_all)
  then show "unmarshalRequest lib (marshalRequest msg) = Inr
     \<lparr>jMethod = m, jVersion = ''2.0'', jId = mgID msg, jPayload = mgParams msg\<rparr>"
    using f compact_valid [OF c] by (simp add: unmarshalRequest_Inr)
  show "\<not> isBatch (marshalRequest msg)" by (simp add: marshalRequest_def)
  show "mgParams msg \<noteq> []" using f(6) by (auto simp: compact_def)
qed

lemma parse_subscribe:
  assumes "compactLib lib" "newMessage lib c (a @ subscribeMethodSuffix) (GStr m # args) = (Inr msg, c')"
  shows "parseRequest lib (marshalRequest msg) =
    ([\<lparr>rqService = a, rqMethod = m, rqId = Some (mgID msg), rqPubSub = True,
       rqParams = Some (mgParams msg), rqErr = None\<rparr>], False, None)"
proof -
  note f = newMessage_fields [OF assms] and p = parse_message [OF assms]
  have "a @ subscribeMethodSuffix \<noteq> []" by (simp add: suffix_defs)
  from p [OF this] params_of_subscription [OF assms(1) f(5)] f(8) show ?thesis
    by (simp add: parseRequest_def zeroRpcRequest_def)
qed

lemma not_subscribe_suffix: "\<not> HasSuffix (a @ unsubscribeMethodSuffix) subscribeMethodSuffix"
  using suffixes_exclusive by (auto simp: HasSuffix_iff)

lemma parse_unsubscribe:
  assumes "compactLib lib" "newMessage lib c (a @ unsubscribeMethodSuffix) args = (Inr msg, c')"
  shows "parseRequest lib (marshalRequest msg) =
    ([\<lparr>rqService = [], rqMethod = a @ unsubscribeMethodSuffix, rqId = Some (mgID msg), rqPubSub = True,
       rqParams = Some (mgParams msg), rqErr = None\<rparr>], False, None)"
proof -
  note f = newMessage_fields [OF assms] and p = parse_message [OF assms]
  have "a @ unsubscribeMethodSuffix \<noteq> []" by (simp add: suffix_defs)
  from p [OF this] f(8) show ?thesis
    by (simp add: parseRequest_def zeroRpcRequest_def not_subscribe_suffix)
qed

lemma readLoop_lines:
  "list_all2 (\<lambda>t m. compact t \<and> \<not> isBatch t \<and> decodeMessagePtr t = Some m) ts ms \<Longrightarrow> skip_ws ws = [] \<Longrightarrow>
     readLoop lib (ws @ concat (map (\<lambda>t. t @ [CHR 0x0A]) ts)) = map (\<lambda>m. EvReadResp [m]) ms"
proof (induction ts ms arbitrary: ws rule: list_all2_induct)
  case (Cons t ts m ms)
  let ?rest = "[CHR 0x0A] @ concat (map (\<lambda>t. t @ [CHR 0x0A]) ts)"
  have "tail_ok [] ?rest" by (simp add: tail_ok_def num_char_def is_digit_def)
  then have d: "decodeRaw lib (ws @ t @ ?rest) = Inr (t, ?rest)"
    using decodeRaw_compact [of t ?rest lib] Cons by (simp add: decodeRaw_def skip_ws_front)
  then have "skip_ws (ws @ t @ ?rest) \<noteq> []" by (auto simp: decodeRaw_def)
  then show ?case
    using d Cons.hyps Cons.IH [of "[CHR 0x0A]"]
    by (simp add: readLoop.simps [of lib "ws @ t @ _"] readMessage_def)
qed (simp add: readLoop.simps)

section \<open>One exchange\<close>

definition connected :: "Client \<Rightarrow> bool" where
  "connected c \<longleftrightarrow> \<not> clQuit c \<and> clReading c \<and> clLastOp c = None"

text \<open>A connection of the server that has a notifier and whose input has been read.\<close>

definition openConn :: "'w conn \<Rightarrow> Notifier \<Rightarrow> bool" where
  "openConn cn nt \<longleftrightarrow> cnNotifier cn = Some nt \<and> skip_ws (cIn (cnCodec cn)) = [] \<and>
     \<not> cClosed (cnCodec cn) \<and> cWritable (cnCodec cn)"

definition written :: "raw \<Rightarrow> message \<Rightarrow> 'w conn \<Rightarrow> 'w conn" where
  "written t msg cn = cn\<lparr>cnCodec := (cnCodec cn)\<lparr>cIn := [CHR 0x0A], cOut := cOut (cnCodec cn) @ t @ [CHR 0x0A],
     cSent := cSent (cnCodec cn) @ [msg]\<rparr>\<rparr>"

lemma newOutput_written [simp]: "newOutput cn (written t msg cn) = t @ [CHR 0x0A]"
  by (simp add: newOutput_def written_def)

lemma serveText_line:
  assumes "running srv" "openConn cn nt" "compact text" "\<not> isBatch text"
    "parseRequest lib text = ([rq], False, None)"
  shows "serveText lib call srv cn (text @ [CHR 0x0A]) =
    exec lib call (verifyRequest lib (services srv) rq) (cn\<lparr>cnCodec := (cnCodec cn)\<lparr>cIn := [CHR 0x0A]\<rparr>\<rparr>)"
proof -
  have "skip_ws (cIn (cnCodec cn)) = []" using assms(2) by (simp add: openConn_def)
  from decodeRaw_line [OF this assms(3), of lib] show ?thesis
    using assms(1,4,5)
    by (simp add: serveText_def serveSingle_def readRequest_def ReadRequestHeaders_def option.map_comp comp_def
        option.map_ident)
qed

lemma writeMessage_open:
  assumes "openConn cn nt" "marshalResponse lib r = Inr t"
  shows "writeMessage lib (Single r) (cn\<lparr>cnCodec := (cnCodec cn)\<lparr>cIn := [CHR 0x0A]\<rparr>, cnWorld := w, cnNotifier := n\<rparr>) =
    (written t (Single r) cn)\<lparr>cnNotifier := n, cnWorld := w\<rparr>"
  using assms by (simp add: openConn_def writeMessage_def Write_def written_def)

text \<open>The client, when its peer answers with one response.\<close>

lemma exchange_response:
  assumes "connected c" "peer (marshalRequest msg @ [CHR 0x0A]) = (None, [EvReadResp [Some resp]])"
    and "isResponse resp" "mgID resp = mgID msg" "\<not> isNotification resp"
  shows "exchange lib peer ctxErr None msg c =
      (Returns (Some resp, None), c\<lparr>clOps := clOps c @
          [\<lparr>opIds = [mgID msg], opErr = None, opSub = None, opResp = [], opClosed = False\<rparr>],
        clRespWait := (clRespWait c)(mgID msg := None)\<rparr>)"
  using assms
  by (simp add: exchange_def connected_def registerOp_def sendDone_def handleMessage_def handleResponse_def
      updateOp_def wait_def Let_def list_update_append)

lemma exchange_subscribed:
  assumes "connected c" "peer (marshalRequest msg @ [CHR 0x0A]) = (None, [EvReadResp [Some resp]])"
    and "isResponse resp" "mgID resp = mgID msg" "\<not> isNotification resp"
    and "mgError resp = None" "mgResult resp = json_quote i"
  shows "exchange lib peer ctxErr (Some a) msg c =
      (Returns (None, None), c\<lparr>clOps := clOps c @
          [\<lparr>opIds = [mgID msg], opErr = None, opSub = Some (length (clSubObjs c)), opResp = [], opClosed = True\<rparr>],
        clSubObjs := clSubObjs c @ [(newClientSubscription a)\<lparr>csSubid := i, csStarted := True\<rparr>],
        clRespWait := (clRespWait c)(mgID msg := None), clSubs := (clSubs c)(i \<mapsto> length (clSubObjs c))\<rparr>)"
  using assms compact_valid [of "json_quote i"]
  by (simp add: exchange_def connected_def registerOp_def sendDone_def handleMessage_def handleResponse_def
      startSubscription_def updateOp_def wait_def Let_def list_update_append)

lemma response_of:
  "isResponse (zeroMessage\<lparr>mgVersion := v, mgID := itoa n, mgResult := r\<rparr>)"
  "\<not> isNotification (zeroMessage\<lparr>mgVersion := v, mgID := itoa n, mgResult := r\<rparr>)"
proof -
  obtain x xs where "itoa n = x # xs" "is_digit x" by (rule itoa_Cons [of n])
  then show "isResponse (zeroMessage\<lparr>mgVersion := v, mgID := itoa n, mgResult := r\<rparr>)"
    "\<not> isNotification (zeroMessage\<lparr>mgVersion := v, mgID := itoa n, mgResult := r\<rparr>)"
    using digit_neqs [of x] by (simp_all add: isResponse_def isNotification_def hasValidID_def zeroMessage_def)
qed

section \<open>A subscription, from end to end\<close>

text \<open>The state of the server after it has answered a request to subscribe.\<close>

definition subscribedConn :: "raw \<Rightarrow> raw option \<Rightarrow> ID \<Rightarrow> string \<Rightarrow> 'w \<Rightarrow> Notifier \<Rightarrow> 'w conn \<Rightarrow> 'w conn" where
  "subscribedConn t j i ns w nt cn =
     (written t (Single (CreateResponse j (GId i))) cn)
       \<lparr>cnNotifier := Some (activate i ns (snd (CreateSubscription i nt))), cnWorld := w\<rparr>"

lemma serveText_subscribe:
  assumes "compactLib lib" "running srv" "openConn cn nt"
    and "services srv a = Some svc" "svSubscriptions svc m = Some cb" "isSubscribe cb"
    and "\<not> HasSuffix m unsubscribeMethodSuffix" "length (mIn (cmethod cb)) = 2 + length vals"
    and "newMessage lib idc (a @ subscribeMethodSuffix) (GStr m # args) = (Inr msg, d)"
    and "(if argTypes cb = [] then Inr []
      else map_sum id tl (parsePositionalArguments lib (mgParams msg) (stringType # argTypes cb))) = Inr vals"
    and "call cb vals (cnWorld cn) = Some (w, [ActCreate i], [GSub i, GNil])"
    and "marshalResponse lib (CreateResponse (Some (mgID msg)) (GId i)) = Inr t"
  shows "serveText lib call srv cn (marshalRequest msg @ [CHR 0x0A]) =
    Some (subscribedConn t (Some (mgID msg)) i (svName svc) w nt cn)"
proof -
  let ?cn = "cn\<lparr>cnCodec := (cnCodec cn)\<lparr>cIn := [CHR 0x0A]\<rparr>\<rparr>"
  let ?q = "(newServerRequest (Some (mgID msg)))\<lparr>srSvcname := svName svc, srCallb := Some cb, srArgs := vals\<rparr>"
  have "a @ subscribeMethodSuffix \<noteq> []" by (simp add: suffix_defs)
  note p = parse_message [OF assms(1,9) this]
  have q: "verifyRequest lib (services srv) \<lparr>rqService = a, rqMethod = m, rqId = Some (mgID msg), rqPubSub = True,
       rqParams = Some (mgParams msg), rqErr = None\<rparr> = ?q"
    using assms(4,5,7,10)
    by (auto simp: verifyRequest_def ParseRequestArguments_def Let_def withArgs_def newServerRequest_def
        split: if_splits sum.splits)
  have nt: "cnNotifier cn = Some nt" using assms(3) by (simp add: openConn_def)
  have "exec lib call ?q ?cn = Some (subscribedConn t (Some (mgID msg)) i (svName svc) w nt cn)"
    using assms(6,8,11) nt writeMessage_open [OF assms(3,12), where n = "Some (snd (CreateSubscription i nt))" and w = w]
    by (simp add: exec_def handle_def createSubscription_def reflectCall_def runAct_def newServerRequest_def
        runActivation_def subscribedConn_def Let_def written_def)
  then show ?thesis
    using serveText_line [OF assms(2,3) p(2,3) parse_subscribe [OF assms(1,9)], of call] q by simp
qed

lemma activate_created:
  "nActive (activate i ns (snd (CreateSubscription i nt))) =
     (nActive nt)(i \<mapsto> \<lparr>sID = i, sNamespace = ns, sErr = nChans nt\<rparr>)"
  by (simp add: activate_def CreateSubscription_def Let_def)

text \<open>Notifications of an active subscription, written one after the other and read by the client.\<close>

lemma notify_written:
  assumes "openConn cn nt" "nActive nt i = Some s"
    and "list_all2 (\<lambda>v t. marshalResponse lib (CreateNotification i (sNamespace s) (Some v)) = Inr t) vs ts"
  shows "\<exists>cod. fold (\<lambda>v. runAct lib (ActNotify i (Some v))) vs cn = cn\<lparr>cnCodec := cod\<rparr> \<and>
    cOut cod = cOut (cnCodec cn) @ concat (map (\<lambda>t. t @ [CHR 0x0A]) ts)"
  using assms(3,1)
proof (induction vs ts arbitrary: cn rule: list_all2_induct)
  case (Cons v vs t ts)
  let ?cod = "(cnCodec cn)\<lparr>cOut := cOut (cnCodec cn) @ t @ [CHR 0x0A],
    cSent := cSent (cnCodec cn) @ [Single (CreateNotification i (sNamespace s) (Some v))]\<rparr>"
  have r: "runAct lib (ActNotify i (Some v)) cn = cn\<lparr>cnCodec := ?cod\<rparr>"
    using Cons.hyps(1) Cons.prems assms(2) by (simp add: runAct_def openConn_def Notify_def Write_def)
  have "openConn (cn\<lparr>cnCodec := ?cod\<rparr>) nt" using Cons.prems by (simp add: openConn_def)
  from Cons.IH [OF this] show ?case using r by simp
next
  case Nil
  then show ?case by (intro exI [of _ "cnCodec cn"]) simp
qed

lemma client_delivers:
  assumes "connected c" "clSubs c i = Some k" "k < length (clSubObjs c)" "\<not> csQuit (clSubObjs c ! k)"
    and "list_all2 (\<lambda>m r. isNotification m \<and> HasSuffix (mgMethod m) notificationMethodSuffix \<and>
      unmarshalSubResult (mgParams m) = Some (i, r)) ms rs"
  shows "\<exists>c'. run_ops (dispatch lib) (map (\<lambda>m. EvReadResp [Some m]) ms) c = Some c' \<and>
    csIn (clSubObjs c' ! k) = csIn (clSubObjs c ! k) @ rs"
  using assms(5,1-4)
proof (induction ms rs arbitrary: c rule: list_all2_induct)
  case (Cons m ms r rs)
  let ?c = "c\<lparr>clSubObjs := (clSubObjs c)[k := deliver r (clSubObjs c ! k)]\<rparr>"
  have d: "dispatch lib (EvReadResp [Some m]) c = Some ?c"
    using Cons.hyps(1) Cons.prems by (simp add: connected_def handleMessage_def handleNotification_def)
  have "connected ?c" "clSubs ?c i = Some k" "k < length (clSubObjs ?c)" "\<not> csQuit (clSubObjs ?c ! k)"
    using Cons.prems by (simp_all add: connected_def deliver_def)
  from Cons.IH [OF this] show ?case using d Cons.prems by (auto simp: deliver_def)
qed simp

text \<open>The texts of the notifications and what the client makes of them.\<close>

lemma notifications_texts:
  assumes "compactLib lib" "list_all2 (\<lambda>v r. marshalValue lib v = Inr r) vs rs"
  shows "\<exists>ts ms. list_all2 (\<lambda>v t. marshalResponse lib (CreateNotification i ns (Some v)) = Inr t) vs ts \<and>
      list_all2 (\<lambda>t m. compact t \<and> \<not> isBatch t \<and> decodeMessagePtr t = Some m) ts (map Some ms) \<and>
      list_all2 (\<lambda>m r. isNotification m \<and> HasSuffix (mgMethod m) notificationMethodSuffix \<and>
        unmarshalSubResult (mgParams m) = Some (i, r)) ms rs"
  using assms(2)
proof (induction vs rs rule: list_all2_induct)
  case (Cons v vs r rs)
  let ?m = "zeroMessage\<lparr>mgVersion := ''2.0'', mgMethod := ns @ notificationMethodSuffix,
    mgParams := render_object [(''subscription'', json_quote i), (''result'', r)]\<rparr>"
  obtain t where t: "marshalResponse lib (CreateNotification i ns (Some v)) = Inr t" "compact t"
      "decodeMessagePtr t = Some (Some ?m)" "unmarshalSubResult (mgParams ?m) = Some (i, r)"
    using decode_notification [OF compact_marshalValue [OF assms(1) Cons.hyps(1)] Cons.hyps(1), of i ns] by auto
  obtain ts ms where IH: "list_all2 (\<lambda>v t. marshalResponse lib (CreateNotification i ns (Some v)) = Inr t) vs ts"
      "list_all2 (\<lambda>t m. compact t \<and> \<not> isBatch t \<and> decodeMessagePtr t = Some m) ts (map Some ms)"
      "list_all2 (\<lambda>m r. isNotification m \<and> HasSuffix (mgMethod m) notificationMethodSuffix \<and>
        unmarshalSubResult (mgParams m) = Some (i, r)) ms rs" using Cons.IH by blast
  have "isNotification ?m" by (simp add: isNotification_def zeroMessage_def suffix_defs)
  then show ?case
    using IH t not_batch_success [OF t(1)] by (intro exI [of _ "t # ts"] exI [of _ "?m # ms"]) simp
qed simp


section \<open>The end of a subscription\<close>

lemma serveText_unsubscribe:
  assumes "compactLib lib" "running srv" "openConn cn nt" "nActive nt i = Some s" "sErr s \<notin> set (nClosedChans nt)"
    and "newMessage lib idc (a @ unsubscribeMethodSuffix) [GStr i] = (Inr msg, d)"
    and "marshalResponse lib (CreateResponse (Some (mgID msg)) (GBool True)) = Inr t"
  shows "serveText lib call srv cn (marshalRequest msg @ [CHR 0x0A]) =
    Some ((written t (Single (CreateResponse (Some (mgID msg)) (GBool True))) cn)
      \<lparr>cnNotifier := Some (nt\<lparr>nClosedChans := sErr s # nClosedChans nt, nActive := (nActive nt)(i := None)\<rparr>)\<rparr>)"
proof -
  let ?q = "(newServerRequest (Some (mgID msg)))\<lparr>srIsUnsubscribe := True, srArgs := [GStr i]\<rparr>"
  note f = newMessage_fields [OF assms(1,6)]
  have ne: "a @ unsubscribeMethodSuffix \<noteq> []" by (simp add: suffix_defs)
  note p = parse_message [OF assms(1,6) ne]
  have ps: "mgParams msg = render_array [json_quote i]" using f(5) by (simp add: marshalParams_def)
  have "json_array (render_array [json_quote i]) = Some [json_quote i]" by (rule json_array_render) simp
  then have q: "verifyRequest lib (services srv) \<lparr>rqService = [], rqMethod = a @ unsubscribeMethodSuffix,
       rqId = Some (mgID msg), rqPubSub = True, rqParams = Some (mgParams msg), rqErr = None\<rparr> = ?q"
    using ps by (simp add: verifyRequest_def ParseRequestArguments_def parsePositionalArguments_def Let_def withArgs_def
        decodeValue_def newServerRequest_def)
  have nt: "cnNotifier cn = Some nt" using assms(3) by (simp add: openConn_def)
  have w: "writeMessage lib (Single (CreateResponse (Some (mgID msg)) (GBool True)))
        (cn\<lparr>cnCodec := (cnCodec cn)\<lparr>cIn := [CHR 0x0A]\<rparr>, cnNotifier := n\<rparr>) =
      (written t (Single (CreateResponse (Some (mgID msg)) (GBool True))) cn)\<lparr>cnNotifier := n\<rparr>" for n
    using assms(3,7) by (simp add: openConn_def writeMessage_def Write_def written_def)
  show ?thesis
    using serveText_line [OF assms(2,3) p(2,3) parse_unsubscribe [OF assms(1,6)], of call] q nt assms(4,5)
    by (simp add: exec_def handle_def handleUnsubscribe_def unsubscribe_def closeChan_def newServerRequest_def w)
qed

text \<open>
  C3. Unsubscribing ends a subscription on the server. For every subscription that is active in a notifier that keeps its
  invariant, \<^verbatim>\<open>requestUnsubscribe\<close> of the client returns \<open>true\<close>, the server closes the channel that its code
  waits on, and what the code passes to \<^verbatim>\<open>Notify\<close> afterwards is not sent any more.
\<close>

theorem unsubscribe_end_to_end:
  assumes "compactLib lib" "running srv" "openConn cn nt" "connected c"
    and "notifier_inv nt" "nActive nt (csSubid sub) = Some s"
  shows "\<exists>cn' c' nt'.
    requestUnsubscribe lib (serverPeer lib call srv cn) sub idc c = (Returns (Inr (GVal ''true'')), idc + 1, c') \<and>
    connected c' \<and> openConn cn' nt' \<and> sErr s \<in> set (nClosedChans nt') \<and> nActive nt' (csSubid sub) = None \<and>
    (\<forall>msg. newMessage lib idc (csNamespace sub @ unsubscribeMethodSuffix) [GStr (csSubid sub)] = (Inr msg, idc + 1) \<longrightarrow>
       serveText lib call srv cn (marshalRequest msg @ [CHR 0x0A]) = Some cn') \<and>
    (\<forall>v. newOutput cn' (runAct lib (ActNotify (csSubid sub) v) cn') = [])"
proof -
  let ?i = "csSubid sub"
  obtain msg where m: "newMessage lib idc (csNamespace sub @ unsubscribeMethodSuffix) [GStr ?i] = (Inr msg, idc + 1)"
    by (simp add: newMessage_def marshalParams_def nextID_def Let_def)
  note f = newMessage_fields [OF assms(1) m]
  have open_chan: "sErr s \<notin> set (nClosedChans nt)"
    using notifier_invD(3) [OF assms(5), of "(True, ?i)" s] assms(6) by simp
  let ?resp = "zeroMessage\<lparr>mgVersion := ''2.0'', mgID := mgID msg, mgResult := ''true''\<rparr>"
  obtain t where t: "marshalResponse lib (CreateResponse (Some (mgID msg)) (GBool True)) = Inr t" "compact t"
      "decodeMessagePtr t = Some (Some ?resp)"
    using decode_success [of "''true''" lib "GBool True" "unat (idc + 1)"] f(3) by auto
  define nt' where "nt' = nt\<lparr>nClosedChans := sErr s # nClosedChans nt, nActive := (nActive nt)(?i := None)\<rparr>"
  define cn' where "cn' = (written t (Single (CreateResponse (Some (mgID msg)) (GBool True))) cn)
      \<lparr>cnNotifier := Some nt'\<rparr>"
  have s: "serveText lib call srv cn (marshalRequest msg @ [CHR 0x0A]) = Some cn'"
    unfolding cn'_def nt'_def by (rule serveText_unsubscribe [OF assms(1-3,6) open_chan m t(1)])
  have "newOutput cn cn' = t @ [CHR 0x0A]" by (simp add: newOutput_def cn'_def written_def)
  then have peer: "serverPeer lib call srv cn (marshalRequest msg @ [CHR 0x0A]) = (None, [EvReadResp [Some ?resp]])"
    using readLoop_line [OF t(2) not_batch_success [OF t(1)] t(3), of lib] s by (simp add: serverPeer_def)
  let ?c = "c\<lparr>clOps := clOps c @ [\<lparr>opIds = [mgID msg], opErr = None, opSub = None, opResp = [], opClosed = False\<rparr>],
      clRespWait := (clRespWait c)(mgID msg := None)\<rparr>"
  have "exchange lib (serverPeer lib call srv cn) None None msg c = (Returns (Some ?resp, None), ?c)"
    by (rule exchange_response [where peer = "serverPeer lib call srv cn" and msg = msg and resp = ?resp, OF assms(4) peer])
      (use f(3) response_of in \<open>simp_all add: zeroMessage_def\<close>)
  then have r: "requestUnsubscribe lib (serverPeer lib call srv cn) sub idc c = (Returns (Inr (GVal ''true'')), idc + 1, ?c)"
    using m by (simp add: requestUnsubscribe_def callConn_def evalResponse_def zeroMessage_def)
  have "openConn cn' nt'" using assms(3) by (simp add: openConn_def cn'_def written_def)
  moreover have "connected ?c" using assms(4) by (simp add: connected_def)
  moreover have "newOutput cn' (runAct lib (ActNotify ?i v) cn') = []" for v
    by (simp add: newOutput_def runAct_def cn'_def nt'_def Notify_def)
  ultimately show ?thesis
    using r s m by (intro exI [of _ cn'] exI [of _ ?c] exI [of _ nt']) (simp add: nt'_def)
qed

section \<open>Instances\<close>

definition demoNotifierConn :: "nat conn" where
  "demoNotifierConn = \<lparr>cnNotifier = Some newNotifier, cnCodec = NewCodec [], cnWorld = 0\<rparr>"

lemma demo_connected:
  "compactLib (basicLib\<lparr>marshal := (\<lambda>_. Inr ''5'')\<rparr>)" "running demoServer"
  "openConn demoNotifierConn newNotifier" "connected newClient"
  using basicLib_compact
  by (simp_all add: demoServer_def NewServer_def openConn_def demoNotifierConn_def NewCodec_def skip_ws_def connected_def
      newClient_def)


theorem unsubscribe_end_to_end_witness:
  "\<exists>c'. requestUnsubscribe (basicLib\<lparr>marshal := (\<lambda>_. Inr ''5'')\<rparr>)
       (serverPeer (basicLib\<lparr>marshal := (\<lambda>_. Inr ''5'')\<rparr>) demoCall demoServer
         (demoNotifierConn\<lparr>cnNotifier := Some (activate ''0x1'' ''eth'' (snd (CreateSubscription ''0x1'' newNotifier)))\<rparr>))
       ((newClientSubscription ''eth'')\<lparr>csSubid := ''0x1''\<rparr>) 7 newClient = (Returns (Inr (GVal ''true'')), 8, c')"
proof -
  let ?nt = "activate ''0x1'' ''eth'' (snd (CreateSubscription ''0x1'' newNotifier))"
  have "notifier_inv (snd (CreateSubscription ''0x1'' newNotifier))"
    by (rule notifier_inv_create [OF notifier_inv_new surjective_pairing])
  then have inv: "notifier_inv ?nt" by (rule notifier_inv_activate)
  have o: "openConn (demoNotifierConn\<lparr>cnNotifier := Some ?nt\<rparr>) ?nt"
    using demo_connected(3) by (simp add: openConn_def)
  show ?thesis
    using unsubscribe_end_to_end [where sub = "(newClientSubscription ''eth'')\<lparr>csSubid := ''0x1''\<rparr>" and
        call = demoCall and idc = 7, OF demo_connected(1,2) o demo_connected(4) inv]
    by (auto simp: activate_created)
qed

end
