(* ===== verification/CallTyping.thy ===== *)
theory CallTyping
  imports Serve
begin

text \<open>
  Typing of the calls that the server makes by reflection (\<^verbatim>\<open>utils.go\<close>, \<^verbatim>\<open>json.go\<close>, \<^verbatim>\<open>server.go\<close>): what registration
  stores about a method agrees with the type of the method, the arguments of a request are decoded into
  the types of its parameters, and so the calls get what they take.
\<close>

section \<open>Types\<close>

text \<open>A value for a parameter of type \<open>t\<close>: it was decoded into it, or it is the nil of a pointer that was left out.\<close>

definition argOf :: "jsonlib \<Rightarrow> gotype \<Rightarrow> govalue \<Rightarrow> bool" where
  "argOf lib t v \<longleftrightarrow> (\<exists>r. decodeValue lib t r = Inr v) \<or> (isPtr t \<and> v = GZero t)"

definition errorValue :: "govalue \<Rightarrow> bool" where
  "errorValue v \<longleftrightarrow> v = GNil \<or> (\<exists>t. v = GError t)"

text \<open>The results of a callback: those of a subscription are the subscription and an error.\<close>

definition replyOf :: "callback \<Rightarrow> govalue list \<Rightarrow> bool" where
  "replyOf cb reply \<longleftrightarrow>
     (if isSubscribe cb
      then \<exists>v e. reply = [v, e] \<and> errorValue e \<and> (e = GNil \<longrightarrow> (\<exists>i. v = GSub i))
      else length reply = length (mOut (cmethod cb)) \<and>
           (0 \<le> errPos cb \<and> nat (errPos cb) < length reply \<longrightarrow> errorValue (reply ! nat (errPos cb))))"

text \<open>The code of the services: on arguments of the declared types it returns results of the declared types.\<close>

definition typedCode :: "jsonlib \<Rightarrow> 'w code \<Rightarrow> bool" where
  "typedCode lib call \<longleftrightarrow>
     (\<forall>cb args w. list_all2 (argOf lib) (argTypes cb) args \<longrightarrow>
        (\<exists>w' acts reply. call cb args w = Some (w', acts, reply) \<and> replyOf cb reply))"

text \<open>A method has a receiver, and a method that looks like a subscription takes the context itself.\<close>

definition properMethod :: "gomethod \<Rightarrow> bool" where
  "properMethod m \<longleftrightarrow> mIn m \<noteq> [] \<and> (isPubSub m \<longrightarrow> mIn m ! 1 = contextType)"

definition registerAll :: "(string \<times> gobject) list \<Rightarrow> serviceRegistry" where
  "registerAll objs = fold (\<lambda>(name, obj) svcs. snd (RegisterName name obj svcs)) objs (services NewServer)"

section \<open>Registration\<close>

text \<open>What a callback says about the method it calls.\<close>

definition callback_ok :: "bool \<Rightarrow> callback \<Rightarrow> bool" where
  "callback_ok sub cb \<longleftrightarrow>
     isSubscribe cb = sub \<and> (sub \<longrightarrow> hasCtx cb) \<and>
     length (mIn (cmethod cb)) = (if hasCtx cb then 2 else 1) + length (argTypes cb) \<and>
     argTypes cb = drop (if hasCtx cb then 2 else 1) (mIn (cmethod cb)) \<and>
     (\<not> sub \<and> 0 \<le> errPos cb \<longrightarrow> nat (errPos cb) < length (mOut (cmethod cb)))"

definition registry_ok :: "serviceRegistry \<Rightarrow> bool" where
  "registry_ok svcs \<longleftrightarrow>
     (\<forall>a svc b cb. svcs a = Some svc \<longrightarrow>
        (svCallbacks svc b = Some cb \<longrightarrow> callback_ok False cb) \<and>
        (svSubscriptions svc b = Some cb \<longrightarrow> callback_ok True cb))"

lemma callback_okD:
  assumes "callback_ok sub cb"
  shows "isSubscribe cb = sub" "sub \<Longrightarrow> hasCtx cb"
    "length (mIn (cmethod cb)) = (if hasCtx cb then 2 else 1) + length (argTypes cb)"
    "drop (if hasCtx cb then 2 else 1) (mIn (cmethod cb)) = argTypes cb"
    "\<not> sub \<Longrightarrow> 0 \<le> errPos cb \<Longrightarrow> nat (errPos cb) < length (mOut (cmethod cb))"
  using assms unfolding callback_ok_def by (blast | metis)+

lemma registry_okD:
  assumes "registry_ok svcs" "svcs a = Some svc"
  shows "svCallbacks svc b = Some cb \<Longrightarrow> callback_ok False cb"
    and "svSubscriptions svc b = Some cb \<Longrightarrow> callback_ok True cb"
  using assms unfolding registry_ok_def by blast+

lemma suitableMethod_ok:
  assumes "properMethod m" "suitableMethod rv m = Some (b, cb)"
  shows "callback_ok b cb"
proof -
  note s = suitableMethod_shape [OF assms(2)]
  have len: "length (mIn m) = (if hasCtx cb then 2 else 1) + length (argTypes cb)"
    using s assms(1) by (cases "mIn m") (auto simp: properMethod_def)
  have "b \<longrightarrow> hasCtx cb" using s assms(1) by (auto simp: properMethod_def isPubSub_def)
  moreover have "\<not> b \<and> 0 \<le> errPos cb \<longrightarrow> nat (errPos cb) < length (mOut m)"
    using suitableMethod_errPos [of rv m cb] assms(2) by (cases b) (auto simp: nat_less_iff)
  moreover have "cmethod cb = m" using s by blast
  ultimately show ?thesis unfolding callback_ok_def using s len by blast
qed

lemma suitableCallbacks_ok:
  assumes "list_all properMethod ms"
  shows "fst (suitableCallbacks rv ms) k = Some cb \<Longrightarrow> callback_ok False cb"
    and "snd (suitableCallbacks rv ms) k = Some cb \<Longrightarrow> callback_ok True cb"
  using suitableLoop_range [of rv ms "(Map.empty, Map.empty)" k cb] assms suitableMethod_ok
  by (auto simp: suitableCallbacks_def list_all_iff)

lemma registry_ok_RegisterName:
  assumes "registry_ok svcs" "list_all properMethod (oMethods obj)"
  shows "registry_ok (snd (RegisterName name obj svcs))"
proof -
  note ok = suitableCallbacks_ok [OF assms(2), of "oRcvr obj"]
  show ?thesis
    using assms(1) ok unfolding registry_ok_def RegisterName_def Let_def
    by (auto split: option.splits if_splits dest!: map_add_SomeD)
qed

lemma registry_ok_NewServer: "registry_ok (services NewServer)"
proof -
  have "list_all properMethod (oMethods rpcService)" by code_simp
  then show ?thesis
    using registry_ok_RegisterName [of Map.empty rpcService MetadataApi]
    by (simp add: NewServer_def registry_ok_def)
qed

lemma registry_ok_registerAll:
  assumes "list_all (\<lambda>(name, obj). list_all properMethod (oMethods obj)) objs"
  shows "registry_ok (registerAll objs)"
proof -
  have "registry_ok svcs \<Longrightarrow> registry_ok (fold (\<lambda>(name, obj) svcs. snd (RegisterName name obj svcs)) objs svcs)" for svcs
    using assms by (induction objs arbitrary: svcs) (auto intro: registry_ok_RegisterName)
  then show ?thesis using registry_ok_NewServer by (simp add: registerAll_def)
qed

section \<open>Requests\<close>

lemma argOf_parsed:
  assumes "parsePositionalArguments lib p types = Inr args"
  shows "list_all2 (argOf lib) types args"
proof -
  obtain vs as where "readArgs lib types 0 vs = Inr as"
      and args: "list_all isPtr (drop (length as) types)" "args = as @ map GZero (drop (length as) types)"
    using assms by (auto simp: parsePositionalArguments_def fillArgs_eq split: option.splits sum.splits if_splits)
  then have as: "length as \<le> length types" "\<forall>j < length as. argOf lib (types ! j) (as ! j)"
    by (auto simp: readArgs_Inr argOf_def)
  have "list_all2 (argOf lib) (take (length as) types @ drop (length as) types) args"
    unfolding args(2)
  proof (rule list_all2_appendI)
    show "list_all2 (argOf lib) (take (length as) types) as" using as by (simp add: list_all2_conv_all_nth)
    show "list_all2 (argOf lib) (drop (length as) types) (map GZero (drop (length as) types))"
      using args(1) by (auto simp: list_all2_conv_all_nth argOf_def list_all_length)
  qed
  then show ?thesis by simp
qed

text \<open>A request to subscribe or unsubscribe always has parameters.\<close>

lemma parseRequest_params:
  "parseRequest lib v = (qs, b, None) \<Longrightarrow> r \<in> set qs \<Longrightarrow> rqErr r = None \<and> (rqPubSub r \<longrightarrow> rqParams r \<noteq> None)"
  by (auto simp: parseRequest_def zeroRpcRequest_def split: sum.splits option.splits if_splits list.splits)

lemma batchRequest_params: "batchRequest q = Inr r \<Longrightarrow> rqPubSub r \<longrightarrow> rqParams r \<noteq> None"
  by (auto simp: batchRequest_def zeroRpcRequest_def Let_def split: option.splits if_splits list.splits)

lemma batchLoop_params: "batchLoop rs = Inr qs \<Longrightarrow> r \<in> set qs \<Longrightarrow> rqPubSub r \<longrightarrow> rqParams r \<noteq> None"
  by (induction rs arbitrary: qs) (auto split: sum.splits dest: batchRequest_params)

lemma headers_params:
  assumes "ReadRequestHeaders lib c = ((qs, b, None), c')" "r \<in> set qs"
  shows "rqPubSub r \<longrightarrow> rqParams r \<noteq> None"
  using assms parseRequest_params [of lib _ qs b r] batchLoop_params [of _ qs r]
  by (fastforce simp: ReadRequestHeaders_def parseBatchRequest_def split: sum.splits prod.splits if_splits)

text \<open>
  A request that passed the verification is to unsubscribe with an argument that is a string, or it names a callback and
  has arguments of the types of its parameters; only a call without parameters may have none instead.
\<close>

definition verified :: "jsonlib \<Rightarrow> serverRequest \<Rightarrow> bool" where
  "verified lib q \<longleftrightarrow>
     srErr q \<noteq> None \<or> srIsUnsubscribe q \<or>
     (\<exists>sub cb. srCallb q = Some cb \<and> callback_ok sub cb \<and>
        (list_all2 (argOf lib) (argTypes cb) (srArgs q) \<or> \<not> sub \<and> srArgs q = []))"

lemma verified_withArgs:
  assumes "callback_ok sub cb" "srCallb q = Some cb" "\<And>as. res = Inr as \<Longrightarrow> list_all2 (argOf lib) (argTypes cb) as"
  shows "verified lib (withArgs res q)"
  using assms by (cases res) (auto simp: verified_def withArgs_def)

lemma verifyRequest_verified:
  assumes "registry_ok svcs" "rqPubSub r \<longrightarrow> rqParams r \<noteq> None"
  shows "verified lib (verifyRequest lib svcs r)"
proof -
  have err: "verified lib (q\<lparr>srErr := Some e\<rparr>)" for q e by (simp add: verified_def)
  have unsub: "verified lib (withArgs res (q\<lparr>srIsUnsubscribe := True\<rparr>))" for res q
    by (cases res) (simp_all add: verified_def withArgs_def)
  have plain: "verified lib (q\<lparr>srSvcname := n, srCallb := Some cb\<rparr>)"
    if "callback_ok sub cb" "srArgs q = []" "sub \<longrightarrow> argTypes cb = []" for q n sub cb
    using that by (auto simp: verified_def)
  have tl: "list_all2 (argOf lib) ts as" if "map_sum id tl (ParseRequestArguments lib (stringType # ts) p) = Inr as" for p ts as
    using that argOf_parsed [of lib _ "stringType # ts"]
    by (cases "ParseRequestArguments lib (stringType # ts) p")
      (fastforce simp: ParseRequestArguments_def list_all2_Cons1 split: option.splits)+
  have pos: "list_all2 (argOf lib) ts as" if "ParseRequestArguments lib ts p = Inr as" for p ts as
    using that argOf_parsed [of lib _ ts] by (auto simp: ParseRequestArguments_def split: option.splits)
  have q: "srArgs (newServerRequest i) = []" for i by (simp add: newServerRequest_def)
  consider (e) e where "rqErr r = Some e"
    | (u) "rqErr r = None" "rqPubSub r" "HasSuffix (rqMethod r) unsubscribeMethodSuffix"
    | (n) "rqErr r = None" "\<not> (rqPubSub r \<and> HasSuffix (rqMethod r) unsubscribeMethodSuffix)" "svcs (rqService r) = None"
    | (s) svc where "rqErr r = None" "\<not> (rqPubSub r \<and> HasSuffix (rqMethod r) unsubscribeMethodSuffix)"
        "svcs (rqService r) = Some svc"
    by fastforce
  then show ?thesis
  proof cases
    case s
    note ok = registry_okD [OF assms(1) s(3)]
    show ?thesis
    proof (cases "(if rqPubSub r then svSubscriptions svc else svCallbacks svc) (rqMethod r)")
      case None
      then show ?thesis using s err by (simp add: verifyRequest_def split: if_splits)
    next
      case (Some cb)
      have c: "callback_ok (rqPubSub r) cb" using Some ok by (simp split: if_splits)
      show ?thesis
        using s Some assms(2) verified_withArgs [OF c] tl pos plain [OF c q]
        by (auto simp: verifyRequest_def Let_def split: if_splits)
    qed
  qed (use err unsub in \<open>simp_all add: verifyRequest_def Let_def\<close>)
qed

section \<open>Calls do not panic\<close>

lemma handleCall_returns:
  assumes "typedCode lib call" "callback_ok False cb" "list_all2 (argOf lib) (argTypes cb) (srArgs q) \<or> srArgs q = []"
  shows "handleCall lib call q cb cn \<noteq> None"
proof (cases "length (srArgs q) = length (argTypes cb)")
  case True
  then have "list_all2 (argOf lib) (argTypes cb) (srArgs q)" using assms(3) by auto
  then obtain w' acts reply where c: "call cb (srArgs q) (cnWorld cn) = Some (w', acts, reply)" "replyOf cb reply"
    using assms(1) unfolding typedCode_def by blast
  have "length (mIn (cmethod cb)) = 1 + (if hasCtx cb then 1 else 0) + length (srArgs q)"
    using callback_okD(3) [OF assms(2)] True by (simp split: if_splits)
  then show ?thesis
    using c callback_okD(1,5) [OF assms(2)] True
    by (auto simp: handleCall_def reflectCall_def replyOf_def errorValue_def)
qed (simp add: handleCall_def)

lemma handleUnsubscribe_returns:
  assumes "\<And>n. cnNotifier cn = Some n \<Longrightarrow> notifier_inv n"
  shows "handleUnsubscribe q cn \<noteq> None"
proof -
  have "\<exists>e n'. unsubscribe i n = Some (e, n')" if "cnNotifier cn = Some n" for i n
    using notifier_invD(3) [OF assms [OF that], of "(True, i)"]
    by (auto simp: unsubscribe_def closeChan_def split: option.splits)
  note u = this
  show ?thesis
  proof (cases "\<exists>i vs. srArgs q = GStr i # vs")
    case True
    then obtain i vs where q: "srArgs q = GStr i # vs" by blast
    show ?thesis
    proof (cases "cnNotifier cn")
      case (Some n)
      obtain e n' where "unsubscribe i n = Some (e, n')" using u [OF Some] by blast
      then show ?thesis using q Some by (cases e) (simp_all add: handleUnsubscribe_def)
    qed (simp add: handleUnsubscribe_def q)
  qed (auto simp: handleUnsubscribe_def split: list.splits govalue.splits)
qed

lemma createSubscription_returns:
  assumes "typedCode lib call" "callback_ok True cb" "list_all2 (argOf lib) (argTypes cb) args"
  shows "createSubscription lib call cb args cn \<noteq> None"
proof -
  obtain w' acts reply where c: "call cb args (cnWorld cn) = Some (w', acts, reply)" "replyOf cb reply"
    using assms(1,3) unfolding typedCode_def by blast
  have "length (mIn (cmethod cb)) = 2 + length args"
    using callback_okD(2,3) [OF assms(2)] list_all2_lengthD [OF assms(3)] by simp
  then show ?thesis
    using c callback_okD(1) [OF assms(2)]
    by (auto simp: createSubscription_def reflectCall_def replyOf_def errorValue_def)
qed

lemma handle_verified:
  assumes "verified lib q" "typedCode lib call" "\<And>n. cnNotifier cn = Some n \<Longrightarrow> notifier_inv n"
  shows "handle lib call q cn \<noteq> None"
proof -
  consider (e) "srErr q \<noteq> None" | (u) "srErr q = None" "srIsUnsubscribe q"
    | (c) sub cb where "srErr q = None" "\<not> srIsUnsubscribe q" "srCallb q = Some cb" "callback_ok sub cb"
        "list_all2 (argOf lib) (argTypes cb) (srArgs q) \<or> \<not> sub \<and> srArgs q = []"
    using assms(1) unfolding verified_def by blast
  then show ?thesis
  proof cases
    case c
    show ?thesis
    proof (cases sub)
      case True
      then have "createSubscription lib call cb (srArgs q) cn \<noteq> None"
        using c by (intro createSubscription_returns [OF assms(2)]) auto
      then show ?thesis
        using c(1-3) True callback_okD(1) [OF c(4)] by (auto simp: handle_def split: option.splits sum.splits prod.splits)
    next
      case False
      then have "handleCall lib call q cb cn \<noteq> None"
        using c by (intro handleCall_returns [OF assms(2)]) auto
      then show ?thesis using c(1-3) False callback_okD(1) [OF c(4)] by (simp add: handle_def)
    qed
  qed (use handleUnsubscribe_returns [OF assms(3)] in \<open>auto simp: handle_def\<close>)
qed


definition echoCall :: "nat code" where
  "echoCall cb args w =
     Some (w + 1, [],
       if isSubscribe cb then [GSub ''0x1'', GNil] else replicate (length (mOut (cmethod cb))) GNil)"

lemma echoCall_typed: "typedCode lib echoCall"
proof -
  have "replyOf cb (if isSubscribe cb then [GSub ''0x1'', GNil] else replicate (length (mOut (cmethod cb))) GNil)" for cb
    by (cases "nat (errPos cb) < length (mOut (cmethod cb))") (auto simp: replyOf_def errorValue_def)
  then show ?thesis by (auto simp: typedCode_def echoCall_def)
qed

definition demoRead :: "(serverRequest list \<times> bool \<times> rpc_error option) \<times> codec" where
  "demoRead = readRequest basicLib (registerAll [(''eth'', demoObject)])
     (NewCodec ''{\"id\":2,\"method\":\"eth_add\",\"params\":[5]}'')"


end
