(* ===== verification/Queries.thy ===== *)
theory Queries
  imports EthClient Chaincode
begin

text \<open>
  The programs that ask the node for something and print the answer: balances, blocks, transactions, receipts, the state of
  chaincode and of the safe contract. They call the typed client (\<open>EthClient\<close>) over HTTP and the
  vendored \<^verbatim>\<open>ethclient\<close>, which is the record \<open>ethnode\<close>. A program returns what it prints last, an
  error or the answer; it may panic, or wait for ever.
\<close>

section \<open>The environment\<close>

record ethnode =
  enDial :: "string \<Rightarrow> string option"
  enBalanceAt :: "address \<Rightarrow> string + int"
  enNonceAt :: "address \<Rightarrow> string + 64 word"
  enTransactionByHash :: "string \<Rightarrow> 64 word option \<times> bool"
  enReceipt :: "string \<Rightarrow> nat \<Rightarrow> 64 word option"
  enCallContract :: "callMsg \<Rightarrow> string + 8 word list"

text \<open>The dialing at the start of each program.\<close>

definition connectTo :: "ethnode \<Rightarrow> string \<Rightarrow> (string + 'a) outcome \<Rightarrow> (string + 'a) outcome" where
  "connectTo nd host k = (case enDial nd host of Some e \<Rightarrow> Returns (Inl e) | None \<Rightarrow> k)"

text \<open>The continuation after a call of the typed client.\<close>

definition afterCall ::
  "(string + govalue) outcome \<Rightarrow> (govalue \<Rightarrow> (string + 'a) outcome) \<Rightarrow> (string + 'a) outcome" where
  "afterCall r k =
     (case r of
        Returns (Inl e) \<Rightarrow> Returns (Inl e)
      | Returns (Inr v) \<Rightarrow> k v
      | Blocks \<Rightarrow> Blocks
      | Panics \<Rightarrow> Panics)"

text \<open>\<^verbatim>\<open>CheckTransaction\<close> and the receive that follows: it waits until there is a receipt, whose status is printed.\<close>

definition awaitReceipt :: "ethnode \<Rightarrow> string \<Rightarrow> (string + 64 word) outcome" where
  "awaitReceipt nd txHash =
     (case checkTransaction (enReceipt nd txHash) 0 of
        None \<Rightarrow> Blocks | Some (t, status) \<Rightarrow> Returns (Inr status))"

section \<open>Decoding of results\<close>

definition unmString :: "jsonlib \<Rightarrow> raw \<Rightarrow> string + govalue" where
  "unmString lib v =
     (case (if json_valid v then decodeString v '''' else None) of
        None \<Rightarrow> Inl (unmarshalErr lib v) | Some s \<Rightarrow> Inr (GStr s))"

text \<open>\<^verbatim>\<open>base64.StdEncoding\<close>: line ends are skipped, padding is required.\<close>

definition b64_val :: "char \<Rightarrow> nat option" where
  "b64_val c =
     (if is_upper c then Some (of_char c - 65)
      else if is_lower c then Some (of_char c - 71)
      else if is_digit c then Some (of_char c + 4)
      else if c = CHR ''+'' then Some 62
      else if c = CHR ''/'' then Some 63
      else None)"

fun b64decode :: "string \<Rightarrow> 8 word list option" where
  "b64decode [] = Some []"
| "b64decode (a # b # c # d # rest) =
     (case (b64_val a, b64_val b) of
        (Some x, Some y) \<Rightarrow>
          if c = CHR ''='' \<and> d = CHR ''='' \<and> rest = [] then Some [word_of_nat (x * 4 + y div 16)]
          else
            (case b64_val c of
               None \<Rightarrow> None
             | Some z \<Rightarrow>
                 if d = CHR ''='' \<and> rest = [] then
                   Some [word_of_nat (x * 4 + y div 16), word_of_nat (y mod 16 * 16 + z div 4)]
                 else
                   (case (b64_val d, b64decode rest) of
                      (Some u, Some bs) \<Rightarrow>
                        Some (word_of_nat (x * 4 + y div 16) # word_of_nat (y mod 16 * 16 + z div 4) #
                          word_of_nat (z mod 4 * 64 + u) # bs)
                    | _ \<Rightarrow> None))
      | _ \<Rightarrow> None)"
| "b64decode _ = None"

definition StdEncoding_Decode :: "string \<Rightarrow> 8 word list option" where
  "StdEncoding_Decode s = b64decode (filter (\<lambda>c. c \<noteq> CHR 0x0A \<and> c \<noteq> CHR 0x0D) s)"

text \<open>A slice of bytes: a string in base 64, or an array of numbers; the bytes are kept as a string.\<close>

definition decodeByte :: "raw \<Rightarrow> 8 word option" where
  "decodeByte v =
     (case decodeInt v 0 of
        None \<Rightarrow> None | Some n \<Rightarrow> if 0 \<le> n \<and> n < 256 then Some (word_of_int n) else None)"

definition decodeBytes :: "raw \<Rightarrow> 8 word list option" where
  "decodeBytes v =
     (if \<not> json_valid v then None
      else if is_null v then Some []
      else if is_string_lit v then StdEncoding_Decode (string_of_lit v)
      else case json_array v of None \<Rightarrow> None | Some vs \<Rightarrow> those (map decodeByte vs))"

definition unmBytes :: "jsonlib \<Rightarrow> raw \<Rightarrow> string + govalue" where
  "unmBytes lib v =
     (case decodeBytes v of None \<Rightarrow> Inl (unmarshalErr lib v) | Some bs \<Rightarrow> Inr (GStr (stringOf bs)))"

text \<open>The struct \<^verbatim>\<open>WithdrawRPCTransaction\<close>; the decoding of the inner transaction is the argument \<open>dec\<close>.\<close>

record withdrawTx =
  wRPCTx :: "raw option"
  wStatus :: int
  wCommitNumber :: "nat option"
  wCurrentCommit :: "nat option"
  wTxMsg :: string
  wDstChainID :: string

definition zeroWithdraw :: withdrawTx where
  "zeroWithdraw = \<lparr>wRPCTx = None, wStatus = 0, wCommitNumber = None, wCurrentCommit = None, wTxMsg = '''',
     wDstChainID = ''''\<rparr>"

text \<open>A pointer to a \<^verbatim>\<open>hexutil.Big\<close>: the empty text is zero.\<close>

definition decodeBigPtr :: "raw \<Rightarrow> nat option option" where
  "decodeBigPtr v =
     (if is_null v then Some None
      else if is_string_lit v then
        (if butlast (tl v) = [] then Some (Some 0)
         else case DecodeBig (butlast (tl v)) of Inl _ \<Rightarrow> None | Inr n \<Rightarrow> Some (Some n))
      else None)"

definition decodeWithdrawMember :: "(raw \<Rightarrow> bool) \<Rightarrow> withdrawTx \<times> bool \<Rightarrow> raw \<times> raw \<Rightarrow> withdrawTx \<times> bool" where
  "decodeWithdrawMember dec st kv =
     (let (r, ok) = st; key = ToLower (unquote (fst kv)); v = snd kv in
      if key = ''rpc_tx'' then
        (if is_null v then (r\<lparr>wRPCTx := None\<rparr>, ok) else (r\<lparr>wRPCTx := Some v\<rparr>, ok \<and> dec v))
      else if key = ''status'' then
        (case decodeInt v (wStatus r) of Some n \<Rightarrow> (r\<lparr>wStatus := n\<rparr>, ok) | None \<Rightarrow> (r, False))
      else if key = ''commitnumber'' then
        (case decodeBigPtr v of Some n \<Rightarrow> (r\<lparr>wCommitNumber := n\<rparr>, ok) | None \<Rightarrow> (r, False))
      else if key = ''currentcommit'' then
        (case decodeBigPtr v of Some n \<Rightarrow> (r\<lparr>wCurrentCommit := n\<rparr>, ok) | None \<Rightarrow> (r, False))
      else if key = ''txmsg'' then
        (case decodeString v (wTxMsg r) of Some s \<Rightarrow> (r\<lparr>wTxMsg := s\<rparr>, ok) | None \<Rightarrow> (r, False))
      else if key = ''dst_chain_id'' then
        (case decodeString v (wDstChainID r) of Some s \<Rightarrow> (r\<lparr>wDstChainID := s\<rparr>, ok) | None \<Rightarrow> (r, False))
      else (r, ok))"

definition decodeWithdraw :: "(raw \<Rightarrow> bool) \<Rightarrow> raw \<Rightarrow> withdrawTx option" where
  "decodeWithdraw dec v =
     (if \<not> json_valid v then None
      else if is_null v then Some zeroWithdraw
      else case json_object v of
             None \<Rightarrow> None
           | Some ms \<Rightarrow>
               (let (r, ok) = foldl (decodeWithdrawMember dec) (zeroWithdraw, True) ms in if ok then Some r else None))"

definition unmWithdraw :: "jsonlib \<Rightarrow> (raw \<Rightarrow> bool) \<Rightarrow> raw \<Rightarrow> string + govalue" where
  "unmWithdraw lib dec v =
     (case decodeWithdraw dec v of None \<Rightarrow> Inl (unmarshalErr lib v) | Some _ \<Rightarrow> Inr (GVal v))"

section \<open>The programs\<close>

text \<open>\<^verbatim>\<open>getBalance.go\<close>\<close>

definition getBalance_main :: "ethnode \<Rightarrow> (string + int) outcome" where
  "getBalance_main nd =
     connectTo nd ''http://10.0.0.148:8545''
       (Returns (enBalanceAt nd (HexToAddress ''0x83fe44cb9e75fac28c2560faead245f248dfa5f8'')))"

text \<open>\<^verbatim>\<open>getCommitBlockBynum.go\<close>; a map takes any object, and \<open>null\<close>.\<close>

definition unmMap :: "jsonlib \<Rightarrow> raw \<Rightarrow> string + govalue" where
  "unmMap lib v =
     (if json_valid v \<and> (is_null v \<or> json_object v \<noteq> None) then Inr (GVal v) else Inl (unmarshalErr lib v))"

definition getCommitBlock_main :: "ethnode \<Rightarrow> rpc_env \<Rightarrow> (string + govalue) outcome" where
  "getCommitBlock_main nd env =
     connectTo nd ''http://localhost:8545''
       (afterCall (fst (GetCommitBlockByNum env (unmMap (reLib env)) (Some 3))) (\<lambda>block. Returns (Inr block)))"

text \<open>\<^verbatim>\<open>queryUncompletedTx.go\<close>: an error of the call is not seen, the list is empty then.\<close>

definition queryUncompletedTx_main ::
  "ethnode \<Rightarrow> rpc_env \<Rightarrow> (raw \<Rightarrow> string + govalue) \<Rightarrow> (string + govalue option) outcome" where
  "queryUncompletedTx_main nd env unmHashes =
     connectTo nd ''http://localhost:8545''
       (case fst (QueryUncompletedTxByAddr env unmHashes
                (json_quote ''0x8000d109daef5c81799bc01d4d82b0589deedb33'')) of
          Returns hashes \<Rightarrow> Returns (Inr hashes) | Blocks \<Rightarrow> Blocks | Panics \<Rightarrow> Panics)"

text \<open>\<^verbatim>\<open>queryTx1.go\<close>: it dereferences the inner transaction.\<close>

definition queryTx1_hash :: string where
  "queryTx1_hash = ''0x83db1744f2f9e4733188c0c1ccd59cc3b68b951f9e2351e6231eec657eaa8830''"

definition queryTx1_main :: "ethnode \<Rightarrow> rpc_env \<Rightarrow> (raw \<Rightarrow> bool) \<Rightarrow> (string + withdrawTx) outcome" where
  "queryTx1_main nd env dec =
     connectTo nd ''http://10.0.0.110:8545''
       (afterCall (fst (QueryTxByHash env (unmWithdraw (reLib env) dec) (json_quote queryTx1_hash)))
          (\<lambda>v. case v of
                 GVal r \<Rightarrow>
                   (case decodeWithdraw dec r of
                      Some tx \<Rightarrow> if wRPCTx tx = None then Panics else Returns (Inr tx)
                    | None \<Rightarrow> Panics)
               | _ \<Rightarrow> Panics))"

text \<open>\<^verbatim>\<open>checkStatus.go\<close>\<close>

definition checkStatus_hash :: string where
  "checkStatus_hash = ''0x7037b32278f0d7d5cf83ac1bb5365bab2b51df22aa66693bce3aa35b0ddf80e3''"

definition checkStatus_main :: "ethnode \<Rightarrow> (string + 64 word) outcome" where
  "checkStatus_main nd = connectTo nd ''http://10.0.0.148:8545'' (awaitReceipt nd checkStatus_hash)"

text \<open>
  \<^verbatim>\<open>transaction.go\<close>: the node signs the transaction; the program then reads the nonce of what \<^verbatim>\<open>TransactionByHash\<close>
  returns, whose error it ignores. \<open>unmBig\<close> and \<open>unmHash\<close> decode a number and a hash, \<open>js\<close> encodes the message.
\<close>

definition hashText :: "govalue \<Rightarrow> string" where
  "hashText v = (case v of GStr s \<Rightarrow> s | _ \<Rightarrow> '''')"

definition transaction_main ::
  "ethnode \<Rightarrow> rpc_env \<Rightarrow> (raw \<Rightarrow> string + govalue) \<Rightarrow> (raw \<Rightarrow> string + govalue) \<Rightarrow> (Message \<Rightarrow> raw) \<Rightarrow>
     (string + 64 word) outcome" where
  "transaction_main nd env unmBig unmHash js =
     connectTo nd ''http://localhost:8545''
       (case GetBlockNumber env unmBig of
          (r, i) \<Rightarrow>
            afterCall r (\<lambda>blockNumber.
              let message = NewMessage (Some (HexToAddress ''30b82c8694b59695d78f33a7ba1c2a55dfa618d5''))
                    (Some (HexToAddress ''5e0f92917d632f7cdb7564a67644ca45430b524c'')) (Some 1) (Some 90000) (Some 0) []
              in afterCall (fst (SendTransaction (env\<lparr>reId := i\<rparr>) unmHash js message))
                   (\<lambda>txHash.
                      case fst (enTransactionByHash nd (hashText txHash)) of
                        None \<Rightarrow> Panics
                      | Some nonce \<Rightarrow> awaitReceipt nd (hashText txHash))))"

text \<open>\<^verbatim>\<open>sendTransaction.go\<close>\<close>

definition sendTransaction_main ::
  "cryptolib \<Rightarrow> ethnode \<Rightarrow> rpc_env \<Rightarrow> (raw \<Rightarrow> string + govalue) \<Rightarrow> (Message \<Rightarrow> raw) \<Rightarrow> (string + 64 word) outcome" where
  "sendTransaction_main lib nd env unmHash js =
     connectTo nd ''http://10.0.0.148:8545''
       (case HexToECDSA lib ''a2f1a32e5234f64a6624210b871c22909034f24a52166369c2619681390433aa'' of
          Inl e \<Rightarrow> Returns (Inl e)
        | Inr privKey \<Rightarrow>
            let sender = PubkeyToAddress lib privKey; to = Keccak256ToAddress lib ''trust-tx-white-list'' in
            case enNonceAt nd sender of
              Inl e \<Rightarrow> Returns (Inl e)
            | Inr nonce \<Rightarrow>
                let msg = NewMessage (Some sender) (Some to) (Some 9000000000000000000) (Some 4712388)
                      (Some 20000000000) []
                in afterCall (fst (SendTransaction env unmHash js msg)) (\<lambda>txHash. awaitReceipt nd (hashText txHash)))"

text \<open>
  \<^verbatim>\<open>checkCCPutState.go\<close> and \<^verbatim>\<open>ccRan/baapQuery.go\<close>: the first takes the result as a string, cuts its first two characters off and
  decodes it as hexadecimal; the second has \<^verbatim>\<open>BaapQuery1\<close> decode it into a slice of bytes. \<open>str\<close> is the text of an address.
\<close>

definition bytesText :: "8 word list \<Rightarrow> raw" where
  "bytesText b = json_quote (''0x'' @ hexEncodeToString b)"

definition queryPayload :: "cryptolib \<Rightarrow> (address \<Rightarrow> string) \<Rightarrow> string \<Rightarrow> string \<Rightarrow> string + 8 word list" where
  "queryPayload lib str cc key =
     invokePayload lib ''get'' [bytesOf key] [(''to'', bytesOf (str (Keccak256ToAddress lib cc)))]"

definition checkCCPutState_main ::
  "cryptolib \<Rightarrow> (address \<Rightarrow> string) \<Rightarrow> ethnode \<Rightarrow> rpc_env \<Rightarrow> (string + 8 word list + hex_error) outcome" where
  "checkCCPutState_main lib str nd env =
     connectTo nd ''http://192.168.0.120:8546''
       (case queryPayload lib str ''8000d109DAef5C81799bC01D4d82B0589dEEDb33:testcc02:1.0.0'' ''name'' of
          Inl e \<Rightarrow> Returns (Inl e)
        | Inr data \<Rightarrow>
            afterCall (fst (BaapQuery env (unmString (reLib env)) (bytesText data)))
              (\<lambda>v. case v of
                     GStr result \<Rightarrow>
                       if length result < 2 then Panics
                       else (case hexDecodeString (drop 2 result) of
                               (a, None) \<Rightarrow> Returns (Inr (Inl a)) | (a, Some err) \<Rightarrow> Returns (Inr (Inr err)))
                   | _ \<Rightarrow> Panics))"

definition BaapQuery1 ::
  "rpc_env \<Rightarrow> (raw \<Rightarrow> string + govalue) \<Rightarrow> raw \<Rightarrow> (string + govalue) outcome \<times> 32 word" where
  "BaapQuery1 env unm input = rpcCall env unm ''eth_baapQuery'' [GVal input]"

definition baapQuery_main ::
  "cryptolib \<Rightarrow> (address \<Rightarrow> string) \<Rightarrow> ethnode \<Rightarrow> rpc_env \<Rightarrow> (string + 8 word list) outcome" where
  "baapQuery_main lib str nd env =
     connectTo nd ''http://10.0.0.113:22222''
       (case queryPayload lib str ''8000d109DAef5C81799bC01D4d82B0589dEEDb33:testcc02:1.0.7'' ''a'' of
          Inl e \<Rightarrow> Returns (Inl e)
        | Inr data \<Rightarrow>
            afterCall (fst (BaapQuery1 env (unmBytes (reLib env)) (bytesText data)))
              (\<lambda>v. case v of GStr result \<Rightarrow> Returns (Inr (bytesOf result)) | _ \<Rightarrow> Panics))"

text \<open>
  The programs that call a contract without a transaction: \<^verbatim>\<open>safe/getData.go\<close>, \<^verbatim>\<open>callsol/sol/getSol.go\<close>, \<^verbatim>\<open>solsum.go\<close> and
  \<^verbatim>\<open>wasm/ewasm/getWasm.go\<close>. The first two ignore the error of dialing and call through a nil client then. The packing of
  arguments and the unpacking of results by the abi library and the decoder of the safe's messages are arguments.
\<close>

definition callMessage :: "address \<Rightarrow> 8 word list \<Rightarrow> callMsg" where
  "callMessage to data = \<lparr>cmFrom = None, cmTo = Some to, cmValue = 0, cmData = data\<rparr>"

definition callUnchecked ::
  "ethnode \<Rightarrow> string \<Rightarrow> callMsg \<Rightarrow> (8 word list \<Rightarrow> (string + 'a) outcome) \<Rightarrow> (string + 'a) outcome" where
  "callUnchecked nd host msg k =
     (if enDial nd host \<noteq> None then Panics
      else case enCallContract nd msg of Inl e \<Rightarrow> Returns (Inl e) | Inr result \<Rightarrow> k result)"

definition PDXS_GET_DOMAIN :: "8 word list" where "PDXS_GET_DOMAIN = [3]"
definition PDXS_GET_KEY :: "8 word list" where "PDXS_GET_KEY = [7]"

definition getDomain ::
  "cryptolib \<Rightarrow> (string \<Rightarrow> address) \<Rightarrow> (8 word list \<Rightarrow> string) \<Rightarrow> ethnode \<Rightarrow> string \<Rightarrow> (string + string) outcome" where
  "getDomain lib EthAddress domainName nd domain =
     (case safePayload lib (DomainItem domain '''' '''') [(ACTION, PDXS_GET_DOMAIN)] of
        Inl e \<Rightarrow> Returns (Inl e)
      | Inr data \<Rightarrow>
          callUnchecked nd ''http://127.0.0.1:8547'' (callMessage (EthAddress ''PDXSafe'') data)
            (\<lambda>result. Returns (Inr (domainName result))))"

definition getKey ::
  "cryptolib \<Rightarrow> (string \<Rightarrow> address) \<Rightarrow> (8 word list \<Rightarrow> string) \<Rightarrow> ethnode \<Rightarrow> string \<Rightarrow> string \<Rightarrow> (string + string) outcome" where
  "getKey lib EthAddress domainName nd domain key =
     (case safePayload lib (KeyItem key domain []) [(ACTION, PDXS_GET_KEY)] of
        Inl e \<Rightarrow> Returns (Inl e)
      | Inr data \<Rightarrow>
          callUnchecked nd ''http://127.0.0.1:8547'' (callMessage (EthAddress ''PDXSafe'') data)
            (\<lambda>result. Returns (Inr (domainName result))))"

definition getSol_main ::
  "(string \<Rightarrow> string + 8 word list) \<Rightarrow> (8 word list \<Rightarrow> string + string) \<Rightarrow> ethnode \<Rightarrow> (string + string) outcome" where
  "getSol_main pack unpack nd =
     (case pack ''get1'' of
        Inl e \<Rightarrow> Returns (Inl e)
      | Inr abiBuf \<Rightarrow>
          callUnchecked nd ''http://127.0.0.1:8547''
            (callMessage (HexToAddress ''0xDd1588125971b4Ca7a876A4Ea7Ae177e69bf436C'') abiBuf)
            (\<lambda>result. Returns (unpack result)))"

definition solsum_main ::
  "(string \<Rightarrow> 8 word list \<Rightarrow> string + 8 word list) \<Rightarrow> (8 word list \<Rightarrow> string + 8 word) \<Rightarrow> ethnode \<Rightarrow> (string + 8 word) outcome" where
  "solsum_main pack unpack nd =
     (case pack ''sum'' [88, 11] of
        Inl e \<Rightarrow> Returns (Inl e)
      | Inr abiBuf \<Rightarrow>
          connectTo nd ''http://39.100.94.15:8545''
            (case enCallContract nd (callMessage (HexToAddress ''0xfE4f5525b519d74A780aC539464f071600F62A36'') abiBuf) of
               Inl e \<Rightarrow> Returns (Inl e)
             | Inr result \<Rightarrow> Returns (unpack result)))"

text \<open>An error is logged, and the value printed is nil then.\<close>

definition GetWasm :: "ethnode \<Rightarrow> address \<Rightarrow> string option \<times> 8 word list" where
  "GetWasm nd to =
     (case enCallContract nd (callMessage to (bytesOf (''get:'' @ ''pdx''))) of
        Inl e \<Rightarrow> (Some e, []) | Inr bytes \<Rightarrow> (None, bytes))"

section \<open>Keys\<close>

text \<open>
  \<^verbatim>\<open>generateKey/generateKey.go\<close>, whose loop runs 20001 times (\<open>gen i\<close> is the \<open>i\<close>-th key, an error is a panic; \<open>FromECDSA\<close>
  gives its bytes), and \<^verbatim>\<open>generateKey/prvtoadd.go\<close>, which prints the addresses of a list of keys and dereferences the nil
  key of a text that is none.
\<close>

fun newKeys_lines :: "(nat \<Rightarrow> string + 'key) \<Rightarrow> ('key \<Rightarrow> 8 word list) \<Rightarrow> nat \<Rightarrow> nat \<Rightarrow> string list \<times> bool" where
  "newKeys_lines gen FromECDSA i 0 = ([], True)"
| "newKeys_lines gen FromECDSA i (Suc n) =
     (case gen i of
        Inl e \<Rightarrow> ([], False)
      | Inr prv \<Rightarrow>
          (let (ls, ok) = newKeys_lines gen FromECDSA (Suc i) n in (hexEncodeToString (FromECDSA prv) # ls, ok)))"

definition newKeys_main :: "(nat \<Rightarrow> string + 'key) \<Rightarrow> ('key \<Rightarrow> 8 word list) \<Rightarrow> string list \<times> bool" where
  "newKeys_main gen FromECDSA = newKeys_lines gen FromECDSA 0 20001"

fun prvtoadd_main :: "cryptolib \<Rightarrow> string list \<Rightarrow> address list \<times> bool" where
  "prvtoadd_main lib [] = ([], True)"
| "prvtoadd_main lib (k # ks) =
     (case HexToECDSA lib k of
        Inl _ \<Rightarrow> ([], False)
      | Inr prv \<Rightarrow> (let (as, ok) = prvtoadd_main lib ks in (PubkeyToAddress lib prv # as, ok)))"

section \<open>A call that is answered\<close>

text \<open>
  Every request is answered with one line of JSON whose result is \<open>v\<close>; arguments that are JSON already are
  sent as they are.
\<close>

definition answersWith :: "rpc_env \<Rightarrow> raw \<Rightarrow> bool" where
  "answersWith env v \<longleftrightarrow>
     v \<noteq> [] \<and>
     (\<forall>rq. \<exists>s t m. reNet env rq = Inr \<lparr>hrCode = 200, hrStatus = s, hrBody = t @ [CHR 0x0A]\<rparr> \<and>
        compact t \<and> decodeMessagePtr t = Some (Some m) \<and> mgError m = None \<and> mgResult m = v) \<and>
     (\<forall>r. marshal (reLib env) (GVal r) = Inr r)"

lemma answersWith_id [simp]: "answersWith (env\<lparr>reId := i\<rparr>) v = answersWith env v"
  by (simp add: answersWith_def)

lemma rpcCall_answered:
  assumes "answersWith env v" "args = [] \<or> args = [GVal a]"
  shows "rpcCall env unm method args = (Returns (unm v), snd (nextID (reId env)))"
proof -
  obtain msg where msg: "newMessage (reLib env) (reId env) method args = (Inr msg, snd (nextID (reId env)))"
    using assms by (auto simp: answersWith_def newMessage_def marshalParams_def nextID_def Let_def)
  obtain s t m where "reNet env (postRequest (reHost env) (marshalRequest msg)) =
      Inr \<lparr>hrCode = 200, hrStatus = s, hrBody = t @ [CHR 0x0A]\<rparr>"
    "compact t" "decodeMessagePtr t = Some (Some m)" "mgError m = None" "mgResult m = v"
    using assms unfolding answersWith_def by blast
  moreover have "v \<noteq> []" using assms by (simp add: answersWith_def)
  ultimately show ?thesis
    using CallContext_line [OF msg, of "reNet env" "reHost env" s t m unm "reCtxErr env"]
    by (simp add: rpcCall_def evalResponse_def)
qed

lemmas answered = BaapQuery_def BaapQuery1_def QueryTxByHash_def GetBlockNumber_def SendTransaction_def rpcCall_answered afterCall_def connectTo_def

section \<open>Base 64\<close>

lemma b64_val_pad [simp]: "b64_val (CHR ''='') = None"
  by code_simp

lemma b64_val_hex [simp]: "d < 16 \<Longrightarrow> b64_val (digit_char d) \<noteq> None"
proof -
  have "list_all (\<lambda>d. b64_val (digit_char d) \<noteq> None) [0..<16]" by code_simp
  then show "d < 16 \<Longrightarrow> b64_val (digit_char d) \<noteq> None" by (simp add: list_all_iff)
qed

text \<open>A text of characters of the alphabet alone, without padding: its length decides.\<close>

lemma b64decode_alphabet:
  "\<forall>c \<in> set s. b64_val c \<noteq> None \<Longrightarrow>
   (if 4 dvd length s then \<exists>bs. b64decode s = Some bs \<and> length bs = 3 * (length s div 4) else b64decode s = None)"
proof (induction s rule: b64decode.induct)
  case (2 a b c d rest)
  from "2.prems" have cd: "c \<noteq> CHR ''=''" "d \<noteq> CHR ''=''" by auto
  from "2.prems" obtain x y z u where v:
    "b64_val a = Some x" "b64_val b = Some y" "b64_val c = Some z" "b64_val d = Some u" by auto
  have "4 dvd length (a # b # c # d # rest) \<longleftrightarrow> 4 dvd length rest"
    by (simp add: eval_nat_numeral(3) numeral_eq_Suc dvd_def) presburger
  moreover have "if 4 dvd length rest then \<exists>bs. b64decode rest = Some bs \<and> length bs = 3 * (length rest div 4)
      else b64decode rest = None"
    using "2.IH" [OF refl] "2.prems" cd v by auto
  ultimately show ?case using cd v by (auto split: if_splits)
qed (simp_all add: dvd_def; presburger)+

lemma hexEncode_alphabet: "c \<in> set (hexEncodeToString bs) \<Longrightarrow> b64_val c \<noteq> None"
proof (induction bs)
  case (Cons b bs)
  from Cons.prems consider "c = digit_char (unat b div 16)" | "c = digit_char (unat b mod 16)"
    | "c \<in> set (hexEncodeToString bs)" by auto
  then show ?case
    using b64_val_hex [OF nibbles_of_byte(1), of b] b64_val_hex [of "unat b mod 16"] Cons.IH by cases auto
qed simp

lemma Decode_hexText:
  "if odd (length bs)
   then \<exists>cs. StdEncoding_Decode (''0x'' @ hexEncodeToString bs) = Some cs \<and> length cs = 3 * (length bs + 1) div 2
   else StdEncoding_Decode (''0x'' @ hexEncodeToString bs) = None"
proof -
  let ?s = "''0x'' @ hexEncodeToString bs"
  have "b64_val (CHR ''0'') \<noteq> None" "b64_val (CHR ''x'') \<noteq> None" by code_simp+
  then have all: "\<forall>c \<in> set ?s. b64_val c \<noteq> None" using hexEncode_alphabet by auto
  have "b64_val (CHR 0x0A) = None" "b64_val (CHR 0x0D) = None" by code_simp+
  then have "filter (\<lambda>c. c \<noteq> CHR 0x0A \<and> c \<noteq> CHR 0x0D) ?s = ?s"
    using all by (intro filter_True) metis
  then have "StdEncoding_Decode ?s = b64decode ?s" by (simp add: StdEncoding_Decode_def)
  moreover have "length ?s = 2 * (length bs + 1)" by simp
  moreover have "4 dvd 2 * (length bs + 1) \<longleftrightarrow> odd (length bs)" by presburger
  moreover have "3 * (2 * (length bs + 1) div 4) = 3 * (length bs + 1) div 2" if "odd (length bs)"
    using that by presburger
  ultimately show ?thesis using b64decode_alphabet [OF all] by (auto split: if_splits)
qed

section \<open>What the programs end with\<close>

lemma bytesOf_stringOf: "bytesOf (stringOf bs) = bs"
proof -
  have "of_char (char_of (unat b)) = b" for b :: "8 word"
    using unat_bound [of b] of_nat_of_char [of "char_of (unat b)", where 'a = "8 word", symmetric] by simp
  then show ?thesis by (simp add: bytesOf_def stringOf_def map_idI)
qed

lemma decodeBytes_hexText: "decodeBytes (bytesText bs) = StdEncoding_Decode (''0x'' @ hexEncodeToString bs)"
  by (simp add: decodeBytes_def bytesText_def compact_valid)

lemma unmString_quote: "unmString lib (json_quote s) = Inr (GStr s)"
  by (simp add: unmString_def compact_valid)

text \<open>
  C32. What the two chaincode query programs make of an answer of the node. The node answers a value of the chaincode as
  hexadecimal text with a prefix; \<^verbatim>\<open>checkCCPutState\<close> decodes every such answer to exactly the value, while
  \<^verbatim>\<open>baapQuery\<close>, which has the JSON decoder read the text as base 64, never prints the value: for a value of odd length it
  prints other bytes, half as many again, and for one of even length it fails. A string of fewer than two characters makes
  \<^verbatim>\<open>checkCCPutState\<close> panic.
\<close>

theorem chaincode_query_reply:
  assumes "enDial nd ''http://192.168.0.120:8546'' = None" "enDial nd ''http://10.0.0.113:22222'' = None"
    and "queryPayload lib str ''8000d109DAef5C81799bC01D4d82B0589dEEDb33:testcc02:1.0.0'' ''name'' = Inr d"
    and "queryPayload lib str ''8000d109DAef5C81799bC01D4d82B0589dEEDb33:testcc02:1.0.7'' ''a'' = Inr d'"
  shows "(answersWith env (bytesText bs) \<longrightarrow>
       checkCCPutState_main lib str nd env = Returns (Inr (Inl bs)) \<and>
       (if odd (length bs)
        then \<exists>cs. baapQuery_main lib str nd env = Returns (Inr cs) \<and> length cs = 3 * (length bs + 1) div 2 \<and> cs \<noteq> bs
        else baapQuery_main lib str nd env = Returns (Inl (unmarshalErr (reLib env) (bytesText bs))))) \<and>
     (answersWith env (json_quote s) \<longrightarrow> (checkCCPutState_main lib str nd env = Panics \<longleftrightarrow> length s < 2))"
proof (intro conjI impI)
  assume a: "answersWith env (bytesText bs)"
  show "checkCCPutState_main lib str nd env = Returns (Inr (Inl bs))"
    using assms a hexDecode_Encode [of bs]
    by (simp add: checkCCPutState_main_def answered bytesText_def unmString_quote)
  show "if odd (length bs)
    then \<exists>cs. baapQuery_main lib str nd env = Returns (Inr cs) \<and> length cs = 3 * (length bs + 1) div 2 \<and> cs \<noteq> bs
    else baapQuery_main lib str nd env = Returns (Inl (unmarshalErr (reLib env) (bytesText bs)))"
  proof (cases "odd (length bs)")
    case True
    obtain cs where cs: "StdEncoding_Decode (''0x'' @ hexEncodeToString bs) = Some cs"
        "length cs = 3 * (length bs + 1) div 2"
      using Decode_hexText [of bs] unfolding if_P [OF True] by blast
    have "length cs \<noteq> length bs" using cs(2) True by presburger
    then have "cs \<noteq> bs" by auto
    with True cs assms a show ?thesis
      by (simp add: baapQuery_main_def answered unmBytes_def decodeBytes_hexText bytesOf_stringOf)
  next
    case False
    with Decode_hexText [of bs] assms a show ?thesis
      by (simp add: baapQuery_main_def answered unmBytes_def decodeBytes_hexText)
  qed
next
  assume "answersWith env (json_quote s)"
  with assms show "checkCCPutState_main lib str nd env = Panics \<longleftrightarrow> length s < 2"
    by (auto simp: checkCCPutState_main_def answered unmString_quote split: prod.splits option.splits)
qed

lemma awaitReceipt_first:
  "enReceipt nd h t = Some r \<Longrightarrow> \<forall>j < t. enReceipt nd h j = None \<Longrightarrow> awaitReceipt nd h = Returns (Inr r)"
  using checkTransaction_at [of "enReceipt nd h" 0 t r] by (simp add: awaitReceipt_def)

lemma awaitReceipt_never: "\<forall>j. enReceipt nd h j = None \<Longrightarrow> awaitReceipt nd h = Blocks"
  using checkTransaction_sound [of "enReceipt nd h" 0] by (fastforce simp: awaitReceipt_def split: option.splits)

text \<open>
  How the query programs end. \<^verbatim>\<open>queryTx1\<close> prints the decoded answer, fails on one that does not decode, and
  panics exactly on an answer without inner transaction, \<open>null\<close> among them, which is what a node answers for a
  hash it does not know. \<^verbatim>\<open>checkStatus\<close> prints the status of the first receipt the node has, and waits for ever when
  there is none; so does \<^verbatim>\<open>transaction\<close> after its transaction was accepted, but it panics instead when the node does not
  yet know the transaction.
\<close>

theorem query_programs_end:
  assumes "\<forall>host. enDial nd host = None"
    and "answersWith env v"
    and "GetBlockNumber env unmBig = (Returns (Inr n), i)"
    and "\<forall>msg. fst (SendTransaction (env\<lparr>reId := i\<rparr>) unmHash js msg) = Returns (Inr (GStr h))"
  shows "queryTx1_main nd env dec =
      (case decodeWithdraw dec v of
         None \<Rightarrow> Returns (Inl (unmarshalErr (reLib env) v))
       | Some tx \<Rightarrow> if wRPCTx tx = None then Panics else Returns (Inr tx)) \<and>
    (v = ''null'' \<longrightarrow> queryTx1_main nd env dec = Panics) \<and>
    (\<forall>t r. enReceipt nd checkStatus_hash t = Some r \<and> (\<forall>j < t. enReceipt nd checkStatus_hash j = None) \<longrightarrow>
       checkStatus_main nd = Returns (Inr r)) \<and>
    ((\<forall>j. enReceipt nd checkStatus_hash j = None) \<longrightarrow> checkStatus_main nd = Blocks) \<and>
    transaction_main nd env unmBig unmHash js =
      (if fst (enTransactionByHash nd h) = None then Panics else awaitReceipt nd h)"
proof (intro conjI impI allI)
  show query: "queryTx1_main nd env dec =
      (case decodeWithdraw dec v of
         None \<Rightarrow> Returns (Inl (unmarshalErr (reLib env) v))
       | Some tx \<Rightarrow> if wRPCTx tx = None then Panics else Returns (Inr tx))"
    using assms(1,2) by (simp add: queryTx1_main_def answered unmWithdraw_def split: option.splits)
  show "queryTx1_main nd env dec = Panics" if "v = ''null''"
  proof -
    have "json_valid ''null''" "is_null ''null''" by code_simp+
    then show ?thesis using that unfolding query by (simp add: decodeWithdraw_def zeroWithdraw_def)
  qed
  show "checkStatus_main nd = Returns (Inr r)"
    if "enReceipt nd checkStatus_hash t = Some r \<and> (\<forall>j < t. enReceipt nd checkStatus_hash j = None)" for t r
    using assms(1) that awaitReceipt_first [of nd checkStatus_hash t r] by (simp add: checkStatus_main_def connectTo_def)
  show "checkStatus_main nd = Blocks" if "\<forall>j. enReceipt nd checkStatus_hash j = None"
    using assms(1) that awaitReceipt_never by (simp add: checkStatus_main_def connectTo_def)
  show "transaction_main nd env unmBig unmHash js =
      (if fst (enTransactionByHash nd h) = None then Panics else awaitReceipt nd h)"
    using assms by (simp add: transaction_main_def connectTo_def afterCall_def hashText_def Let_def split: option.splits)
qed

section \<open>An instance\<close>

definition replyLine :: "raw \<Rightarrow> raw" where
  "replyLine v = render_object [versionMember, (''id'', itoa 1), (''result'', v)]"

definition replyEnv :: "raw \<Rightarrow> rpc_env" where
  "replyEnv v =
     \<lparr>reLib = basicLib\<lparr>marshal := (\<lambda>x. case x of GVal r \<Rightarrow> Inr r | _ \<Rightarrow> Inr ''null'')\<rparr>,
      reNet = (\<lambda>_. Inr \<lparr>hrCode = 200, hrStatus = '''', hrBody = replyLine v @ [CHR 0x0A]\<rparr>),
      reHost = '''', reCtxErr = None, reId = 0\<rparr>"

definition quietNode :: ethnode where
  "quietNode =
     \<lparr>enDial = (\<lambda>_. None), enBalanceAt = (\<lambda>_. Inr 0), enNonceAt = (\<lambda>_. Inr 0),
      enTransactionByHash = (\<lambda>_. (None, False)), enReceipt = (\<lambda>_ t. if 2 \<le> t then Some 1 else None),
      enCallContract = (\<lambda>_. Inr [])\<rparr>"

lemma answersWith_replyEnv: "compact v \<Longrightarrow> answersWith (replyEnv v) v"
  using decode_success [of v "basicLib\<lparr>marshal := (\<lambda>_. Inr v)\<rparr>" "GVal v" 1]
  by (auto simp: answersWith_def replyEnv_def replyLine_def CreateResponse_def idMember_def zeroMessage_def compact_def)

lemma queryPayload_instance:
  assumes "key = ''name'' \<or> key = ''a''"
  shows "\<exists>d. queryPayload (withProto lib) (\<lambda>_. '''') cc key = Inr d"
proof -
  let ?i = "mkInvocation ''get'' [bytesOf key] [(''to'', bytesOf '''')]"
  have "length (wireInvocation ?i) < 100" using assms by (elim disjE; hypsubst) code_simp+
  then have "length (wireInvocation ?i) + 8 \<le> maxMarshalSize" by (simp add: maxMarshalSize_def)
  then show ?thesis
    using invokePayload_arrives [of "[(''to'', bytesOf '''')]" "''get''" "[bytesOf key]" lib]
    by (auto simp: queryPayload_def)
qed

theorem chaincode_query_reply_witness:
  "checkCCPutState_main (withProto undefined) (\<lambda>_. '''') quietNode (replyEnv (bytesText [0x41, 0x42])) =
     Returns (Inr (Inl [0x41, 0x42])) \<and>
   baapQuery_main (withProto undefined) (\<lambda>_. '''') quietNode (replyEnv (bytesText [0x41, 0x42])) =
     Returns (Inl (unmarshalErr (reLib (replyEnv (bytesText [0x41, 0x42]))) (bytesText [0x41, 0x42]))) \<and>
   (\<exists>cs. baapQuery_main (withProto undefined) (\<lambda>_. '''') quietNode (replyEnv (bytesText [0x41])) = Returns (Inr cs) \<and>
      length cs = 3 \<and> cs \<noteq> [0x41]) \<and>
   checkCCPutState_main (withProto undefined) (\<lambda>_. '''') quietNode (replyEnv (json_quote '''')) = Panics"
proof -
  obtain d d' where d:
    "queryPayload (withProto undefined) (\<lambda>_. '''') ''8000d109DAef5C81799bC01D4d82B0589dEEDb33:testcc02:1.0.0'' ''name'' = Inr d"
    "queryPayload (withProto undefined) (\<lambda>_. '''') ''8000d109DAef5C81799bC01D4d82B0589dEEDb33:testcc02:1.0.7'' ''a'' = Inr d'"
    using queryPayload_instance by metis
  have nd: "enDial quietNode host = None" for host by (simp add: quietNode_def)
  note reply = chaincode_query_reply [OF nd nd d]
  have env: "answersWith (replyEnv (bytesText bs)) (bytesText bs)" "answersWith (replyEnv (json_quote s)) (json_quote s)"
    for bs s by (simp_all add: answersWith_replyEnv bytesText_def)
  have two: "even (length [0x41 :: 8 word, 0x42])" "odd (length [0x41 :: 8 word])" by simp_all
  show ?thesis
    using reply [of "replyEnv (bytesText [0x41, 0x42])" "[0x41, 0x42]" "''''"] env
      reply [of "replyEnv (bytesText [0x41])" "[0x41]" "''''"]
      reply [of "replyEnv (json_quote '''')" "[]" "''''"] two
    by simp
qed

theorem query_programs_end_witness:
  "queryTx1_main quietNode (replyEnv ''null'') (\<lambda>_. True) = Panics \<and>
   checkStatus_main quietNode = Returns (Inr 1) \<and>
   transaction_main quietNode (replyEnv ''null'') (\<lambda>_. Inr GNil) (\<lambda>_. Inr (GStr ''h'')) (\<lambda>_. ''null'') = Panics"
proof -
  let ?env = "replyEnv ''null''"
  have a: "answersWith ?env ''null''" by (simp add: answersWith_replyEnv)
  obtain i where i: "GetBlockNumber ?env (\<lambda>_. Inr GNil) = (Returns (Inr GNil), i)"
    using a by (simp add: answered)
  have s: "\<forall>msg. fst (SendTransaction (?env\<lparr>reId := i\<rparr>) (\<lambda>_. Inr (GStr ''h'')) (\<lambda>_. ''null'') msg) =
      Returns (Inr (GStr ''h''))"
    using a by (simp add: answered)
  have "\<forall>host. enDial quietNode host = None" "enReceipt quietNode checkStatus_hash 2 = Some 1"
    "\<forall>j < 2. enReceipt quietNode checkStatus_hash j = None" "fst (enTransactionByHash quietNode ''h'') = None"
    by (simp_all add: quietNode_def)
  then show ?thesis
    using query_programs_end [OF _ a i s, of quietNode "\<lambda>_. True"] by metis
qed

end
