(* ===== verification/Abi.thy ===== *)
theory Abi
  imports Queries
begin

text \<open>
  The encoding of contract calls by the vendored \<^verbatim>\<open>src/vendor/pdx-chain/accounts/abi\<close>: \<^verbatim>\<open>pack.go\<close>, \<^verbatim>\<open>unpack.go\<close>,
  \<^verbatim>\<open>argument.go\<close>, \<^verbatim>\<open>method.go\<close> and \<^verbatim>\<open>abi.go\<close>, for the types that the contracts of the programs have: numbers without
  sign, booleans, strings, bytes and addresses. Arrays and slices are left out. The copy in \<^verbatim>\<open>go-ethereum\<close> is the same.
  A slice expression beyond the end of its operand is a panic.
\<close>

section \<open>Types and values\<close>

datatype abi_type = UintTy nat | BoolTy | StringTy | AddressTy | BytesTy

text \<open>Go values: an unsigned integer with its width, a \<^verbatim>\<open>*big.Int\<close>, a bool, a string, an address, a slice of bytes.\<close>

datatype abi_value =
  VUint nat nat | VBig int | VBool bool | VString string | VAddress address | VBytes "8 word list"

definition requiresLengthPrefix :: "abi_type \<Rightarrow> bool" where
  "requiresLengthPrefix t \<longleftrightarrow> t = StringTy \<or> t = BytesTy"

datatype abi_kind = KUint nat | KPtr | KBool | KString | KArray | KSlice

definition reflectIntKind :: "nat \<Rightarrow> abi_kind" where
  "reflectIntKind sz = (if sz \<in> {8, 16, 32, 64} then KUint sz else KPtr)"

fun typeKind :: "abi_type \<Rightarrow> abi_kind" where
  "typeKind (UintTy n) = reflectIntKind n"
| "typeKind BoolTy = KBool"
| "typeKind StringTy = KString"
| "typeKind AddressTy = KArray"
| "typeKind BytesTy = KSlice"

fun valueKind :: "abi_value \<Rightarrow> abi_kind" where
  "valueKind (VUint w n) = KUint w"
| "valueKind (VBig i) = KPtr"
| "valueKind (VBool b) = KBool"
| "valueKind (VString s) = KString"
| "valueKind (VAddress a) = KArray"
| "valueKind (VBytes b) = KSlice"

fun kindText :: "abi_kind \<Rightarrow> string" where
  "kindText (KUint w) = ''uint'' @ itoa w"
| "kindText KPtr = ''ptr''"
| "kindText KBool = ''bool''"
| "kindText KString = ''string''"
| "kindText KArray = ''array''"
| "kindText KSlice = ''slice''"

definition typeCheck :: "abi_type \<Rightarrow> abi_value \<Rightarrow> string option" where
  "typeCheck t v =
     (if typeKind t \<noteq> valueKind v
      then Some (''abi: cannot use '' @ kindText (valueKind v) @ '' as type '' @ kindText (typeKind t) @ '' as argument'')
      else None)"

section \<open>Packing\<close>

fun toBE :: "nat \<Rightarrow> nat \<Rightarrow> 8 word list" where
  "toBE 0 n = []"
| "toBE (Suc k) n = toBE k (n div 256) @ [word_of_nat n]"

definition SetBytes :: "8 word list \<Rightarrow> nat" where
  "SetBytes bs = foldl (\<lambda>a b. a * 256 + unat b) 0 bs"

definition U256 :: "int \<Rightarrow> 8 word list" where
  "U256 n = toBE 32 (nat (n mod 2 ^ 256))"

definition RightPadBytes :: "8 word list \<Rightarrow> nat \<Rightarrow> 8 word list" where
  "RightPadBytes b l = (if l \<le> length b then b else b @ replicate (l - length b) 0)"

definition LeftPadBytes :: "8 word list \<Rightarrow> nat \<Rightarrow> 8 word list" where
  "LeftPadBytes b l = (if l \<le> length b then b else replicate (l - length b) 0 @ b)"

definition packBytesSlice :: "8 word list \<Rightarrow> nat \<Rightarrow> 8 word list" where
  "packBytesSlice b l = U256 (int l) @ RightPadBytes b ((l + 31) div 32 * 32)"

fun packElement :: "abi_value \<Rightarrow> 8 word list" where
  "packElement (VUint w n) = U256 (int n)"
| "packElement (VBig i) = U256 i"
| "packElement (VBool b) = U256 (if b then 1 else 0)"
| "packElement (VString s) = packBytesSlice (bytesOf s) (length s)"
| "packElement (VAddress a) = LeftPadBytes a 32"
| "packElement (VBytes b) = packBytesSlice b (length b)"

definition pack :: "abi_type \<Rightarrow> abi_value \<Rightarrow> string + 8 word list" where
  "pack t v = (case typeCheck t v of Some e \<Rightarrow> Inl e | None \<Rightarrow> Inr (packElement v))"

text \<open>The loop of \<^verbatim>\<open>Arguments.Pack\<close> with the head \<open>ret\<close> and the variable input so far.\<close>

fun packLoop :: "nat \<Rightarrow> (abi_type \<times> abi_value) list \<Rightarrow> 8 word list \<Rightarrow> 8 word list \<Rightarrow> string + 8 word list" where
  "packLoop off [] ret var = Inr (ret @ var)"
| "packLoop off ((t, v) # tvs) ret var =
     (case pack t v of
        Inl e \<Rightarrow> Inl e
      | Inr packed \<Rightarrow>
          if requiresLengthPrefix t
          then packLoop off tvs (ret @ U256 (int (off + length var))) (var @ packed)
          else packLoop off tvs (ret @ packed) var)"

definition Arguments_Pack :: "abi_type list \<Rightarrow> abi_value list \<Rightarrow> string + 8 word list" where
  "Arguments_Pack abiArgs args =
     (if length args \<noteq> length abiArgs
      then Inl (''argument count mismatch: '' @ itoa (length args) @ '' for '' @ itoa (length abiArgs))
      else packLoop (32 * length abiArgs) (zip abiArgs args) [] [])"

section \<open>Unpacking\<close>

definition goSlice :: "'a list \<Rightarrow> nat \<Rightarrow> nat \<Rightarrow> 'a list option" where
  "goSlice xs a b = (if a \<le> b \<and> b \<le> length xs then Some (take (b - a) (drop a xs)) else None)"

definition readInteger :: "nat \<Rightarrow> 8 word list \<Rightarrow> abi_value" where
  "readInteger sz b =
     (case reflectIntKind sz of
        KUint w \<Rightarrow> VUint w (SetBytes (drop (length b - w div 8) b))
      | _ \<Rightarrow> VBig (int (SetBytes b)))"

definition readBool :: "8 word list \<Rightarrow> string + abi_value" where
  "readBool word =
     (if \<exists>b \<in> set (take 31 word). b \<noteq> 0 then Inl ''abi: improperly encoded boolean value''
      else if word ! 31 = 0 then Inr (VBool False)
      else if word ! 31 = 1 then Inr (VBool True)
      else Inl ''abi: improperly encoded boolean value'')"

definition lengthPrefixPointsTo :: "nat \<Rightarrow> 8 word list \<Rightarrow> (string + nat \<times> nat) outcome" where
  "lengthPrefixPointsTo index output =
     (case goSlice output index (index + 32) of
        None \<Rightarrow> Panics
      | Some word \<Rightarrow>
          (let bigOffsetEnd = SetBytes word + 32; outputLength = length output in
           if bigOffsetEnd > outputLength then
             Returns (Inl (''abi: cannot marshal in to go slice: offset '' @ itoa bigOffsetEnd @
               '' would go over slice boundary (len='' @ itoa outputLength @ '')''))
           else if bigOffsetEnd \<ge> 2 ^ 63 then Returns (Inl (''abi offset larger than int64: '' @ itoa bigOffsetEnd))
           else
             (case goSlice output (bigOffsetEnd - 32) bigOffsetEnd of
                None \<Rightarrow> Panics
              | Some word' \<Rightarrow>
                  (let totalSize = bigOffsetEnd + SetBytes word' in
                   if totalSize \<ge> 2 ^ 63 then Returns (Inl (''abi length larger than int64: '' @ itoa totalSize))
                   else if totalSize > outputLength then
                     Returns (Inl (''abi: cannot marshal in to go type: length insufficient '' @ itoa outputLength @
                       '' require '' @ itoa totalSize))
                   else Returns (Inr (bigOffsetEnd, SetBytes word'))))))"

definition toGoType :: "nat \<Rightarrow> abi_type \<Rightarrow> 8 word list \<Rightarrow> (string + abi_value) outcome" where
  "toGoType index t output =
     (if index + 32 > length output then
        Returns (Inl (''abi: cannot marshal in to go type: length insufficient '' @ itoa (length output) @
          '' require '' @ itoa (index + 32)))
      else if requiresLengthPrefix t then
        (case lengthPrefixPointsTo index output of
           Returns (Inl e) \<Rightarrow> Returns (Inl e)
         | Returns (Inr (begin, len)) \<Rightarrow>
             (case goSlice output begin (begin + len) of
                None \<Rightarrow> Panics
              | Some b \<Rightarrow> Returns (Inr (if t = StringTy then VString (stringOf b) else VBytes b)))
         | Blocks \<Rightarrow> Blocks
         | Panics \<Rightarrow> Panics)
      else
        (case goSlice output index (index + 32) of
           None \<Rightarrow> Panics
         | Some returnOutput \<Rightarrow>
             Returns
               (case t of
                  UintTy sz \<Rightarrow> Inr (readInteger sz returnOutput)
                | BoolTy \<Rightarrow> readBool returnOutput
                | AddressTy \<Rightarrow> Inr (VAddress (BytesToAddress returnOutput))
                | _ \<Rightarrow> Inl (''abi: unknown type''))))"

fun unpackFrom :: "nat \<Rightarrow> abi_type list \<Rightarrow> 8 word list \<Rightarrow> (string + abi_value list) outcome" where
  "unpackFrom i [] data = Returns (Inr [])"
| "unpackFrom i (t # ts) data =
     (case toGoType (i * 32) t data of
        Returns (Inl e) \<Rightarrow> Returns (Inl e)
      | Returns (Inr v) \<Rightarrow>
          (case unpackFrom (Suc i) ts data of
             Returns (Inr vs) \<Rightarrow> Returns (Inr (v # vs))
           | r \<Rightarrow> r)
      | Blocks \<Rightarrow> Blocks
      | Panics \<Rightarrow> Panics)"

definition UnpackValues :: "abi_type list \<Rightarrow> 8 word list \<Rightarrow> (string + abi_value list) outcome" where
  "UnpackValues ts data = unpackFrom 0 ts data"

section \<open>Interfaces of contracts\<close>

record Method =
  mdName :: string
  mdConst :: bool
  mdInputs :: "abi_type list"
  mdOutputs :: "abi_type list"

record ABI =
  abConstructor :: "abi_type list"
  abMethods :: "string \<rightharpoonup> Method"

fun typeText :: "abi_type \<Rightarrow> string" where
  "typeText (UintTy n) = ''uint'' @ itoa n"
| "typeText BoolTy = ''bool''"
| "typeText StringTy = ''string''"
| "typeText AddressTy = ''address''"
| "typeText BytesTy = ''bytes''"

definition Sig :: "Method \<Rightarrow> string" where
  "Sig md = mdName md @ ''('' @ join_with (CHR '','') (map typeText (mdInputs md)) @ '')''"

definition Method_Id :: "cryptolib \<Rightarrow> Method \<Rightarrow> 8 word list" where
  "Method_Id lib md = take 4 (Keccak256 lib (bytesOf (Sig md)))"

definition Pack :: "cryptolib \<Rightarrow> ABI \<Rightarrow> string \<Rightarrow> abi_value list \<Rightarrow> string + 8 word list" where
  "Pack lib abi name args =
     (if name = '''' then Arguments_Pack (abConstructor abi) args
      else case abMethods abi name of
        None \<Rightarrow> Inl (''method '' @ [CHR 0x27] @ name @ [CHR 0x27] @ '' not found'')
      | Some md \<Rightarrow>
          (case Arguments_Pack (mdInputs md) args of
             Inl e \<Rightarrow> Inl e | Inr arguments \<Rightarrow> Inr (Method_Id lib md @ arguments)))"

text \<open>\<^verbatim>\<open>Unpack\<close> of the result of a method with one result into a variable of its type.\<close>

definition Unpack :: "ABI \<Rightarrow> string \<Rightarrow> 8 word list \<Rightarrow> (string + abi_value) outcome" where
  "Unpack abi name output =
     (if length output = 0 then Returns (Inl ''abi: unmarshalling empty output'')
      else case abMethods abi name of
        None \<Rightarrow> Returns (Inl ''abi: could not locate named method or event'')
      | Some md \<Rightarrow>
          if length output mod 32 \<noteq> 0 then Returns (Inl ''abi: improperly formatted output'')
          else
            (case UnpackValues (mdOutputs md) output of
               Returns (Inl e) \<Rightarrow> Returns (Inl e)
             | Returns (Inr vs) \<Rightarrow>
                 if length vs \<noteq> 1
                 then Returns (Inl (''abi: wrong length, expected single value, got '' @ itoa (length vs)))
                 else Returns (Inr (hd vs))
             | Blocks \<Rightarrow> Blocks
             | Panics \<Rightarrow> Panics))"

section \<open>Bytes\<close>

lemma toBE_length [simp]: "length (toBE k n) = k"
  by (induction k arbitrary: n) auto

lemma SetBytes_snoc: "SetBytes (bs @ [b]) = SetBytes bs * 256 + unat b"
  by (simp add: SetBytes_def)

lemma SetBytes_toBE: "SetBytes (toBE k n) = n mod 256 ^ k"
proof (induction k arbitrary: n)
  case (Suc k)
  have "unat (word_of_nat n :: 8 word) = n mod 256" by (simp add: unsigned_of_nat take_bit_eq_mod)
  then show ?case
    using Suc [of "n div 256"] by (simp add: SetBytes_snoc mod_mult2_eq)
qed (simp add: SetBytes_def)

lemma U256_length [simp]: "length (U256 n) = 32"
  by (simp add: U256_def)

lemma SetBytes_U256: "SetBytes (U256 n) = nat (n mod 2 ^ 256)"
proof -
  have "nat (n mod 2 ^ 256) < 2 ^ 256" by (simp add: nat_less_iff)
  moreover have "(256 :: nat) ^ 32 = 2 ^ 256" by (simp add: power_mult [symmetric, of 2 8 32])
  ultimately show ?thesis by (simp add: U256_def SetBytes_toBE del: toBE.simps)
qed

lemma SetBytes_U256_nat: "n < 2 ^ 256 \<Longrightarrow> SetBytes (U256 (int n)) = n"
  by (simp add: SetBytes_U256 zmod_int [symmetric] nat_mod_distrib)

lemma toBE_drop: "j \<le> k \<Longrightarrow> drop (k - j) (toBE k n) = toBE j n"
proof (induction k arbitrary: n j)
  case (Suc k)
  then show ?case by (cases j) (auto simp: Suc_diff_le)
qed simp

section \<open>Elements\<close>

text \<open>A value of the type, in the range of the type.\<close>

fun fits :: "abi_type \<Rightarrow> abi_value \<Rightarrow> bool" where
  "fits (UintTy sz) (VUint w n) \<longleftrightarrow> reflectIntKind sz = KUint w \<and> n < 2 ^ w"
| "fits (UintTy sz) (VBig i) \<longleftrightarrow> reflectIntKind sz = KPtr \<and> 0 \<le> i \<and> i < 2 ^ 256"
| "fits BoolTy (VBool b) \<longleftrightarrow> True"
| "fits StringTy (VString s) \<longleftrightarrow> True"
| "fits AddressTy (VAddress a) \<longleftrightarrow> length a = AddressLength"
| "fits BytesTy (VBytes b) \<longleftrightarrow> True"
| "fits _ _ \<longleftrightarrow> False"

lemma fits_pack: "fits t v \<Longrightarrow> pack t v = Inr (packElement v)"
  by (induction t v rule: fits.induct) (auto simp: pack_def typeCheck_def)

lemma fits_static_length: "fits t v \<Longrightarrow> \<not> requiresLengthPrefix t \<Longrightarrow> length (packElement v) = 32"
  by (induction t v rule: fits.induct) (auto simp: requiresLengthPrefix_def LeftPadBytes_def AddressLength_def)

lemma reflectIntKind_KUint: "reflectIntKind sz = KUint w \<Longrightarrow> sz = w \<and> w \<in> {8, 16, 32, 64}"
  by (simp add: reflectIntKind_def split: if_splits)

lemma readInteger_U256:
  assumes "reflectIntKind sz = KUint w" "n < 2 ^ w"
  shows "readInteger sz (U256 (int n)) = VUint w n"
proof -
  have w: "w \<in> {8, 16, 32, 64}" using reflectIntKind_KUint [OF assms(1)] by simp
  then have le: "w div 8 \<le> 32" "256 ^ (w div 8) = (2 :: nat) ^ w" "w \<le> 256" by auto
  from le(3) have "(2 :: nat) ^ w \<le> 2 ^ 256" by (intro power_increasing) simp_all
  with assms(2) have n: "n < 2 ^ 256" by linarith
  then have "nat (int n mod 2 ^ 256) = n" by (simp add: nat_mod_distrib)
  then have "SetBytes (drop (32 - w div 8) (U256 (int n))) = n"
    using toBE_drop [OF le(1), of n] assms(2) le(2) unfolding U256_def by (simp add: SetBytes_toBE del: toBE.simps)
  then show ?thesis using assms(1) by (simp add: readInteger_def)
qed

lemma readInteger_big: "reflectIntKind sz = KPtr \<Longrightarrow> 0 \<le> i \<Longrightarrow> i < 2 ^ 256 \<Longrightarrow> readInteger sz (U256 i) = VBig i"
  by (simp add: readInteger_def SetBytes_U256)

lemma readBool_U256: "readBool (U256 (if b then 1 else 0)) = Inr (VBool b)"
proof (cases b)
  case True
  have "readBool (U256 1) = Inr (VBool True)" by code_simp
  then show ?thesis using True by simp
next
  case False
  have "readBool (U256 0) = Inr (VBool False)" by code_simp
  then show ?thesis using False by simp
qed

lemma BytesToAddress_pad: "length a = AddressLength \<Longrightarrow> BytesToAddress (LeftPadBytes a 32) = a"
  by (simp add: BytesToAddress_def LeftPadBytes_def AddressLength_def)

lemma goSlice_middle: "goSlice (xs @ ys @ zs) (length xs) (length xs + length ys) = Some ys"
  by (simp add: goSlice_def)

lemma toGoType_static:
  assumes "fits t v" "\<not> requiresLengthPrefix t"
  shows "toGoType (length xs) t (xs @ packElement v @ zs) = Returns (Inr v)"
proof -
  have len: "length (packElement v) = 32" using fits_static_length [OF assms] .
  then have "goSlice (xs @ packElement v @ zs) (length xs) (length xs + 32) = Some (packElement v)"
    using goSlice_middle [of xs "packElement v" zs] by simp
  then show ?thesis
    using assms len
    by (cases t; cases v)
       (auto simp: toGoType_def requiresLengthPrefix_def readInteger_U256 readBool_U256 BytesToAddress_pad
          readInteger_big)
qed

lemma RightPad_prefix: "l \<ge> length b \<Longrightarrow> RightPadBytes b l = b @ replicate (l - length b) 0"
  by (simp add: RightPadBytes_def)

lemma round_up: "(l :: nat) \<le> (l + 31) div 32 * 32"
  by presburger

lemma lengthPrefix_found:
  assumes "data = xs @ U256 (int (length pre)) @ ys" "data = pre @ U256 (int (length b)) @ b @ post" "length data < 2 ^ 63"
  shows "lengthPrefixPointsTo (length xs) data = Returns (Inr (length pre + 32, length b))"
proof -
  have "length pre + 32 + length b \<le> length data" using assms(2) by simp
  then have bound: "length pre + 32 + length b < 2 ^ 63" using assms(3) by linarith
  have small: "n < (2 :: nat) ^ 256" if "n < 2 ^ 63" for n
    using that power_strict_increasing [of 63 256 "2 :: nat"] by linarith
  have w1: "goSlice data (length xs) (length xs + 32) = Some (U256 (int (length pre)))"
    using goSlice_middle [of xs "U256 (int (length pre))" ys] unfolding assms(1) by simp
  have w2: "goSlice data (length pre) (length pre + 32) = Some (U256 (int (length b)))"
    using goSlice_middle [of pre "U256 (int (length b))" "b @ post"] unfolding assms(2) by simp
  have n: "SetBytes (U256 (int (length pre))) = length pre" "SetBytes (U256 (int (length b))) = length b"
    using bound by (intro SetBytes_U256_nat small; linarith)+
  show ?thesis
    using \<open>length pre + 32 + length b \<le> length data\<close> bound
    by (simp add: lengthPrefixPointsTo_def w1 w2 n Let_def)
qed

lemma toGoType_dynamic:
  assumes "fits t v" "requiresLengthPrefix t"
    and "data = xs @ U256 (int (length pre)) @ ys" "data = pre @ packElement v @ post" "length data < 2 ^ 63"
  shows "toGoType (length xs) t data = Returns (Inr v)"
proof -
  obtain b where b: "packElement v = packBytesSlice b (length b)" "v = (if t = StringTy then VString (stringOf b) else VBytes b)"
    using assms(1,2) by (cases t; cases v) (auto simp: requiresLengthPrefix_def intro: that [of "bytesOf _"])
  obtain pad where pad: "packElement v = U256 (int (length b)) @ b @ pad"
    unfolding b(1) packBytesSlice_def RightPad_prefix [OF round_up] by simp
  have l: "lengthPrefixPointsTo (length xs) data = Returns (Inr (length pre + 32, length b))"
    by (rule lengthPrefix_found [OF assms(3) _ assms(5)]) (use assms(4) pad in simp)
  have "goSlice data (length pre + 32) (length pre + 32 + length b) = Some b"
    using goSlice_middle [of "pre @ U256 (int (length b))" b "pad @ post"] assms(4) pad by simp
  moreover have "length xs + 32 \<le> length data" unfolding assms(3) by simp
  ultimately show ?thesis using assms(2) l b(2) by (simp add: toGoType_def)
qed

section \<open>Argument lists\<close>

text \<open>The head and the tail of an encoding, as functions of the arguments that are left.\<close>

fun heads :: "nat \<Rightarrow> (abi_type \<times> abi_value) list \<Rightarrow> 8 word list" where
  "heads p [] = []"
| "heads p ((t, v) # tvs) =
     (if requiresLengthPrefix t then U256 (int p) @ heads (p + length (packElement v)) tvs
      else packElement v @ heads p tvs)"

fun tails :: "(abi_type \<times> abi_value) list \<Rightarrow> 8 word list" where
  "tails [] = []"
| "tails ((t, v) # tvs) = (if requiresLengthPrefix t then packElement v else []) @ tails tvs"

definition allFit :: "(abi_type \<times> abi_value) list \<Rightarrow> bool" where
  "allFit tvs \<longleftrightarrow> list_all (\<lambda>(t, v). fits t v) tvs"

lemma packLoop_eq: "allFit tvs \<Longrightarrow> packLoop off tvs ret var = Inr (ret @ heads (off + length var) tvs @ var @ tails tvs)"
  by (induction off tvs ret var rule: packLoop.induct) (auto simp: allFit_def fits_pack add.assoc)

lemma heads_length: "allFit tvs \<Longrightarrow> length (heads p tvs) = 32 * length tvs"
  by (induction p tvs rule: heads.induct) (auto simp: allFit_def fits_static_length)

lemma unpackFrom_packed:
  assumes "allFit tvs" "length ret = 32 * i" "length data < 2 ^ 63"
    and "data = ret @ heads (length ret + 32 * length tvs + length var) tvs @ var @ tails tvs"
  shows "unpackFrom i (map fst tvs) data = Returns (Inr (map snd tvs))"
  using assms
proof (induction tvs arbitrary: i ret var)
  case (Cons tv tvs)
  obtain t v where tv: "tv = (t, v)" by (cases tv)
  have fit: "fits t v" "allFit tvs" using Cons.prems(1) by (simp_all add: allFit_def tv)
  let ?p = "length ret + 32 * length (tv # tvs) + length var"
  show ?case
  proof (cases "requiresLengthPrefix t")
    case True
    let ?q = "?p + length (packElement v)"
    have d: "data = ret @ U256 (int ?p) @ heads ?q tvs @ (var @ packElement v) @ tails tvs"
      using Cons.prems(4) True by (simp add: tv)
    let ?pre = "ret @ U256 (int ?p) @ heads ?q tvs @ var"
    have pre: "length ?pre = ?p" using heads_length [OF fit(2)] by simp
    have d1: "data = ret @ U256 (int (length ?pre)) @ heads ?q tvs @ (var @ packElement v) @ tails tvs"
      unfolding pre by (rule d)
    have d2: "data = ?pre @ packElement v @ tails tvs" by (simp only: d append.assoc)
    have "toGoType (length ret) t data = Returns (Inr v)"
      by (rule toGoType_dynamic [OF fit(1) True d1 d2 Cons.prems(3)])
    moreover have "unpackFrom (Suc i) (map fst tvs) data = Returns (Inr (map snd tvs))"
      by (rule Cons.IH [OF fit(2), where ret = "ret @ U256 (int ?p)" and var = "var @ packElement v"])
         (use d Cons.prems(2,3) in \<open>simp_all add: algebra_simps\<close>)
    ultimately show ?thesis using Cons.prems(2) by (simp add: tv mult.commute)
  next
    case False
    have len: "length (packElement v) = 32" using fits_static_length [OF fit(1) False] .
    have d: "data = ret @ packElement v @ heads ?p tvs @ var @ tails tvs"
      using Cons.prems(4) False by (simp add: tv)
    have "toGoType (length ret) t data = Returns (Inr v)"
      unfolding d by (rule toGoType_static [OF fit(1) False])
    moreover have "unpackFrom (Suc i) (map fst tvs) data = Returns (Inr (map snd tvs))"
      by (rule Cons.IH [OF fit(2), where ret = "ret @ packElement v" and var = var])
         (use d len Cons.prems(2,3) in \<open>simp_all add: algebra_simps\<close>)
    ultimately show ?thesis using Cons.prems(2) by (simp add: tv mult.commute)
  qed
qed simp

text \<open>Every call of \<^verbatim>\<open>toGoType\<close> returns: the checks keep each slice expression within the data.\<close>

lemma lengthPrefix_returns:
  "index + 32 \<le> length output \<Longrightarrow>
   \<exists>r. lengthPrefixPointsTo index output = Returns r \<and> (\<forall>b l. r = Inr (b, l) \<longrightarrow> b + l \<le> length output)"
  by (auto simp: lengthPrefixPointsTo_def goSlice_def Let_def)

lemma toGoType_returns: "\<exists>r. toGoType index t output = Returns r"
proof (cases "index + 32 \<le> length output")
  case True
  obtain r where r: "lengthPrefixPointsTo index output = Returns r" "\<And>b l. r = Inr (b, l) \<Longrightarrow> b + l \<le> length output"
    using lengthPrefix_returns [OF True] by blast
  then show ?thesis
    using True by (cases r) (auto simp: toGoType_def goSlice_def split: prod.splits)
qed (simp add: toGoType_def)

lemma unpackFrom_returns: "\<exists>r. unpackFrom i ts data = Returns r"
proof (induction ts arbitrary: i)
  case (Cons t ts)
  obtain r where "toGoType (i * 32) t data = Returns r" using toGoType_returns by blast
  moreover obtain r' where "unpackFrom (Suc i) ts data = Returns r'" using Cons.IH by blast
  ultimately show ?case by (cases r; cases r') simp_all
qed simp

section \<open>Decoded values have their types\<close>

lemma SetBytes_bound: "SetBytes bs < 256 ^ length bs"
proof (induction bs rule: rev_induct)
  case (snoc b bs)
  have "unat b < 256" using unat_bound [of b] by simp
  then show ?case using snoc by (simp add: SetBytes_snoc)
qed (simp add: SetBytes_def)

lemma readInteger_fits:
  assumes "length b = 32"
  shows "fits (UintTy sz) (readInteger sz b)"
proof (cases "reflectIntKind sz")
  case (KUint w)
  have w: "w \<in> {8, 16, 32, 64}" using reflectIntKind_KUint [OF KUint] by simp
  have "SetBytes (drop (32 - w div 8) b) < 256 ^ (w div 8)"
    using SetBytes_bound [of "drop (32 - w div 8) b"] assms w by auto
  moreover have "(256 :: nat) ^ (w div 8) = 2 ^ w" using w by auto
  ultimately show ?thesis using KUint assms by (simp add: readInteger_def)
next
  case KPtr
  have "SetBytes b < 2 ^ 256"
    using SetBytes_bound [of b] assms by (simp add: power_mult [symmetric, of 2 8 32])
  then show ?thesis using KPtr by (simp add: readInteger_def)
qed (auto simp: reflectIntKind_def split: if_splits)

lemma goSlice_length: "goSlice xs a b = Some ys \<Longrightarrow> length ys = b - a"
  by (auto simp: goSlice_def split: if_splits)

lemma readBool_fits: "readBool b = Inr v \<Longrightarrow> fits BoolTy v"
  by (auto simp: readBool_def split: if_splits)

lemma toGoType_fits:
  assumes "toGoType index t output = Returns (Inr v)"
  shows "fits t v"
proof -
  have "fits t v" if "requiresLengthPrefix t"
    using that assms by (auto simp: toGoType_def requiresLengthPrefix_def
        split: if_splits option.splits outcome.splits sum.splits)
  moreover have "fits t v" if n: "\<not> requiresLengthPrefix t"
  proof -
    obtain w where w: "goSlice output index (index + 32) = Some w"
      using n assms by (auto simp: toGoType_def split: if_splits option.splits)
    then have "length w = 32" by (auto dest: goSlice_length)
    with w show ?thesis
      using n assms readInteger_fits [of w] readBool_fits [of w v]
      by (cases t) (auto simp: toGoType_def requiresLengthPrefix_def split: if_splits)
  qed
  ultimately show ?thesis by blast
qed

lemma unpackFrom_fits: "unpackFrom i ts data = Returns (Inr vs) \<Longrightarrow> list_all2 fits ts vs"
proof (induction ts arbitrary: i vs)
  case (Cons t ts)
  then show ?case
    by (auto dest!: toGoType_fits split: outcome.splits sum.splits)
qed simp

section \<open>Properties\<close>

lemma list_all2_allFit: "list_all2 fits ts vs \<Longrightarrow> allFit (zip ts vs) \<and> map fst (zip ts vs) = ts \<and> map snd (zip ts vs) = vs"
  by (auto simp: list_all2_iff allFit_def list_all_iff)

lemma Arguments_Pack_fits:
  assumes "list_all2 fits ts vs"
  shows "Arguments_Pack ts vs = Inr (heads (32 * length ts) (zip ts vs) @ tails (zip ts vs))"
  using packLoop_eq [of "zip ts vs" "32 * length ts" "[]" "[]"] list_all2_allFit [OF assms] list_all2_lengthD [OF assms]
  by (simp add: Arguments_Pack_def)

lemma UnpackValues_packed:
  assumes "list_all2 fits ts vs" "Arguments_Pack ts vs = Inr data" "length data < 2 ^ 63"
  shows "UnpackValues ts data = Returns (Inr vs)"
proof -
  note z = list_all2_allFit [OF assms(1)]
  have "data = heads (32 * length (zip ts vs)) (zip ts vs) @ tails (zip ts vs)"
    using assms(2) Arguments_Pack_fits [OF assms(1)] list_all2_lengthD [OF assms(1)] by simp
  then have "unpackFrom 0 (map fst (zip ts vs)) data = Returns (Inr (map snd (zip ts vs)))"
    using z assms(3) by (intro unpackFrom_packed [where ret = "[]" and var = "[]"]) simp_all
  then show ?thesis using z by (simp add: UnpackValues_def)
qed

text \<open>
  C18. The encoding of arguments is read back: values of the declared types and within their ranges are always
  packed, and unpacking the bytes with the same types gives the values again, whatever the mixture of static
  values in the head and of strings and byte slices behind it. The bound on the length is the one of Go's slices.
\<close>

theorem abi_roundtrip:
  assumes "list_all2 fits ts vs"
  shows "\<exists>data. Arguments_Pack ts vs = Inr data \<and>
    length data = 32 * length ts + length (tails (zip ts vs)) \<and>
    (length data < 2 ^ 63 \<longrightarrow> UnpackValues ts data = Returns (Inr vs))"
  using Arguments_Pack_fits [OF assms] UnpackValues_packed [OF assms] list_all2_allFit [OF assms]
    heads_length [of "zip ts vs"] list_all2_lengthD [OF assms]
  by simp

definition sampleArgs :: "abi_value list" where
  "sampleArgs = [VString ''pdx'', VBig 10000, VAddress (replicate 20 7), VBool True, VBytes [], VUint 8 255]"

definition sampleTypes :: "abi_type list" where
  "sampleTypes = [StringTy, UintTy 256, AddressTy, BoolTy, BytesTy, UintTy 8]"

theorem abi_roundtrip_witness:
  "\<exists>data. Arguments_Pack sampleTypes sampleArgs = Inr data \<and> length data = 288 \<and>
     UnpackValues sampleTypes data = Returns (Inr sampleArgs)"
proof -
  have f: "list_all2 fits sampleTypes sampleArgs" by code_simp
  have "32 * length sampleTypes + length (tails (zip sampleTypes sampleArgs)) = 288" by code_simp
  with abi_roundtrip [OF f] show ?thesis by auto
qed

text \<open>
  C22. Unpacking is safe on every input: for arbitrary bytes from a node it returns, no slice expression leaves the
  bounds of the data, and what it returns is an error or one value per type, each of its type and within the
  range of the type.
\<close>

theorem abi_unpack_sound:
  "\<exists>r. UnpackValues ts data = Returns r \<and> (case r of Inl e \<Rightarrow> True | Inr vs \<Rightarrow> list_all2 fits ts vs)"
  using unpackFrom_returns [of 0 ts data] unpackFrom_fits [of 0 ts data]
  by (auto simp: UnpackValues_def split: sum.splits)

end
