(* ===== verification/Bindings.thy ===== *)
theory Bindings
  imports Abi OneShot Crypto
begin

text \<open>
  Contracts behind Go bindings: the vendored \<^verbatim>\<open>accounts/abi/bind/base.go\<close>, the bindings that abigen generated
  (\<^verbatim>\<open>src/contract/HW.go\<close> for a token, \<^verbatim>\<open>src/cryptoSolidity/sol/Sol.go\<close> for a greeter) and the programs that use them,
  \<^verbatim>\<open>src/contract.go\<close>, \<^verbatim>\<open>src/cryptoSolidity/query.go\<close> and \<^verbatim>\<open>src/wasm/abi/abi.go\<close>. Contexts are left out.
\<close>

section \<open>Bound contracts\<close>

record CallOpts =
  coPending :: bool
  coFrom :: address

record TransactOpts =
  toFrom :: address
  toNonce :: "int option"
  toSigner :: "(signer \<Rightarrow> address \<Rightarrow> transaction \<Rightarrow> string + signedTx) option"
  toValue :: "int option"
  toGasPrice :: "int option"
  toGasLimit :: "64 word"
  toChainId :: "int option"

record BoundContract =
  bcAddress :: address
  bcAbi :: ABI

record callBackend =
  cbCallContract :: "callMsg \<Rightarrow> string + 8 word list"
  cbPendingCallContract :: "callMsg \<Rightarrow> string + 8 word list"
  cbCodeAt :: "address \<Rightarrow> string + 8 word list"
  cbPendingCodeAt :: "address \<Rightarrow> string + 8 word list"

type_synonym callResult = "(string + abi_value) outcome"

definition ErrNoCode :: string where "ErrNoCode = ''no contract code at given address''"

definition checkOutput :: "(address \<Rightarrow> string + 8 word list) \<Rightarrow> BoundContract \<Rightarrow> string + 8 word list \<Rightarrow> string + 8 word list" where
  "checkOutput codeAt c r =
     (case r of
        Inl e \<Rightarrow> Inl e
      | Inr output \<Rightarrow>
          if length output = 0 then
            (case codeAt (bcAddress c) of
               Inl e \<Rightarrow> Inl e | Inr code \<Rightarrow> if length code = 0 then Inl ErrNoCode else Inr output)
          else Inr output)"

definition BoundContract_Call ::
  "cryptolib \<Rightarrow> callBackend \<Rightarrow> BoundContract \<Rightarrow> CallOpts option \<Rightarrow> string \<Rightarrow> abi_value list \<Rightarrow> callResult" where
  "BoundContract_Call lib nd c opts meth params =
     (let o' = (case opts of None \<Rightarrow> \<lparr>coPending = False, coFrom = replicate 20 0\<rparr> | Some x \<Rightarrow> x) in
      case Pack lib (bcAbi c) meth params of
        Inl e \<Rightarrow> Returns (Inl e)
      | Inr input \<Rightarrow>
          (let msg = \<lparr>cmFrom = Some (coFrom o'), cmTo = Some (bcAddress c), cmValue = 0, cmData = input\<rparr>;
               r = (if coPending o' then checkOutput (cbPendingCodeAt nd) c (cbPendingCallContract nd msg)
                    else checkOutput (cbCodeAt nd) c (cbCallContract nd msg))
           in case r of Inl e \<Rightarrow> Returns (Inl e) | Inr output \<Rightarrow> Unpack (bcAbi c) meth output))"

text \<open>
  The two copies of the library choose the signer in different ways: \<^verbatim>\<open>go-ethereum\<close> always passes a Homestead signer, \<^verbatim>\<open>pdx-chain\<close> an EIP155
  signer for the chain of the options or of its configuration, and panics without one.
\<close>

datatype bindlib = GoEthereum | PdxChain "int option"

fun bindSigner :: "bindlib \<Rightarrow> int option \<Rightarrow> signer option" where
  "bindSigner GoEthereum chainId = Some HomesteadSigner"
| "bindSigner (PdxChain conf) chainId =
     (case chainId of Some i \<Rightarrow> Some (EIP155Signer i) | None \<Rightarrow> map_option EIP155Signer conf)"

definition resolveNonce :: "node \<Rightarrow> TransactOpts \<Rightarrow> (string + 64 word) script" where
  "resolveNonce nd opts =
     (case toNonce opts of
        None \<Rightarrow>
          do {
            r \<leftarrow> pendingNonceAt nd (toFrom opts);
            State_Monad.return (map_sum (\<lambda>e. ''failed to retrieve account nonce: '' @ e) id r)
          }
      | Some n \<Rightarrow> State_Monad.return (Inr (word_of_int \<bar>n\<bar>)))"

definition resolveGasPrice :: "node \<Rightarrow> TransactOpts \<Rightarrow> (string + int) script" where
  "resolveGasPrice nd opts =
     (case toGasPrice opts of
        None \<Rightarrow>
          do {
            r \<leftarrow> suggestGasPrice nd;
            State_Monad.return (map_sum (\<lambda>e. ''failed to suggest gas price: '' @ e) id r)
          }
      | Some p \<Rightarrow> State_Monad.return (Inr p))"

text \<open>\<open>code\<close> is the code at the address of the contract, from what has happened so far.\<close>

definition resolveGasLimit ::
  "node \<Rightarrow> (event list \<Rightarrow> string + 8 word list) \<Rightarrow> TransactOpts \<Rightarrow> address option \<Rightarrow> int \<Rightarrow> 8 word list \<Rightarrow>
     (string + 64 word) script" where
  "resolveGasLimit nd code opts to value input =
     (if toGasLimit opts \<noteq> 0 then State_Monad.return (Inr (toGasLimit opts))
      else do {
        h \<leftarrow> State_Monad.get;
        case (if to = None then Inr [1] else code h) of
          Inl e \<Rightarrow> State_Monad.return (Inl e)
        | Inr c \<Rightarrow>
            if length c = 0 then State_Monad.return (Inl ErrNoCode)
            else do {
              r \<leftarrow> estimateGas nd \<lparr>cmFrom = Some (toFrom opts), cmTo = to, cmValue = value, cmData = input\<rparr>;
              State_Monad.return (map_sum (\<lambda>e. ''failed to estimate gas needed: '' @ e) id r)
            }
      })"

definition bindOk :: "(string + 'a) script \<Rightarrow> ('a \<Rightarrow> (string + 'b) outcome script) \<Rightarrow> (string + 'b) outcome script" where
  "bindOk m k = do { r \<leftarrow> m; case r of Inl e \<Rightarrow> State_Monad.return (Returns (Inl e)) | Inr x \<Rightarrow> k x }"

definition signAndSend ::
  "bindlib \<Rightarrow> node \<Rightarrow> TransactOpts \<Rightarrow> transaction \<Rightarrow> (string + signedTx) outcome script" where
  "signAndSend bl nd opts rawTx =
     (case toSigner opts of
        None \<Rightarrow> State_Monad.return (Returns (Inl ''no signer to authorize the transaction with''))
      | Some Signer \<Rightarrow>
          (case bindSigner bl (toChainId opts) of
             None \<Rightarrow> State_Monad.return Panics
           | Some sg \<Rightarrow>
               (case Signer sg (toFrom opts) rawTx of
                  Inl e \<Rightarrow> State_Monad.return (Returns (Inl e))
                | Inr signedTx \<Rightarrow>
                    do {
                      r \<leftarrow> sendRaw nd (Some signedTx);
                      State_Monad.return (Returns (case r of Some e \<Rightarrow> Inl e | None \<Rightarrow> Inr signedTx))
                    })))"

definition transact ::
  "bindlib \<Rightarrow> node \<Rightarrow> (event list \<Rightarrow> string + 8 word list) \<Rightarrow> BoundContract \<Rightarrow> TransactOpts \<Rightarrow> address option \<Rightarrow>
     8 word list \<Rightarrow> (string + signedTx) outcome script" where
  "transact bl nd code c opts to input =
     (let value = (case toValue opts of None \<Rightarrow> 0 | Some v \<Rightarrow> v) in
      bindOk (resolveNonce nd opts) (\<lambda>nonce.
      bindOk (resolveGasPrice nd opts) (\<lambda>gasPrice.
      bindOk (resolveGasLimit nd code opts to value input) (\<lambda>gasLimit.
        signAndSend bl nd opts
          (if to = None then NewContractCreation nonce value gasLimit gasPrice input
           else NewTransaction nonce (bcAddress c) value gasLimit gasPrice input)))))"

definition BoundContract_Transact ::
  "cryptolib \<Rightarrow> bindlib \<Rightarrow> node \<Rightarrow> (event list \<Rightarrow> string + 8 word list) \<Rightarrow> BoundContract \<Rightarrow> TransactOpts \<Rightarrow> string \<Rightarrow>
     abi_value list \<Rightarrow> (string + signedTx) outcome script" where
  "BoundContract_Transact lib bl nd code c opts meth params =
     (case Pack lib (bcAbi c) meth params of
        Inl e \<Rightarrow> State_Monad.return (Returns (Inl e))
      | Inr input \<Rightarrow> transact bl nd code c opts (Some (bcAddress c)) input)"

definition BoundContract_Transfer ::
  "bindlib \<Rightarrow> node \<Rightarrow> (event list \<Rightarrow> string + 8 word list) \<Rightarrow> BoundContract \<Rightarrow> TransactOpts \<Rightarrow>
     (string + signedTx) outcome script" where
  "BoundContract_Transfer bl nd code c opts = transact bl nd code c opts (Some (bcAddress c)) []"

text \<open>\<^verbatim>\<open>bind.DeployContract\<close>; \<open>CreateAddress\<close> is the address of a contract from its creator and nonce.\<close>

definition bind_DeployContract ::
  "cryptolib \<Rightarrow> bindlib \<Rightarrow> node \<Rightarrow> (address \<Rightarrow> 64 word \<Rightarrow> address) \<Rightarrow> TransactOpts \<Rightarrow> ABI \<Rightarrow> 8 word list \<Rightarrow> abi_value list \<Rightarrow>
     (string + address \<times> signedTx \<times> BoundContract) outcome script" where
  "bind_DeployContract lib bl nd CreateAddress opts abi bytecode params =
     (let c = \<lparr>bcAddress = replicate 20 0, bcAbi = abi\<rparr> in
      case Pack lib abi '''' params of
        Inl e \<Rightarrow> State_Monad.return (Returns (Inl e))
      | Inr input \<Rightarrow>
          do {
            r \<leftarrow> transact bl nd (\<lambda>_. Inr []) c opts None (bytecode @ input);
            State_Monad.return
              (case r of
                 Returns (Inl e) \<Rightarrow> Returns (Inl e)
               | Returns (Inr tx) \<Rightarrow>
                   (let a = CreateAddress (toFrom opts) (txNonce (fst tx)) in
                    Returns (Inr (a, tx, c\<lparr>bcAddress := a\<rparr>)))
               | Blocks \<Rightarrow> Blocks
               | Panics \<Rightarrow> Panics)
          })"

text \<open>\<^verbatim>\<open>bind.NewKeyedTransactor\<close>\<close>

definition NewKeyedTransactor :: "cryptolib \<Rightarrow> privkey \<Rightarrow> TransactOpts" where
  "NewKeyedTransactor lib key =
     (let keyAddr = PubkeyToAddress lib key in
      \<lparr>toFrom = keyAddr, toNonce = None,
       toSigner = Some (\<lambda>sg a tx. if a \<noteq> keyAddr then Inl ''not authorized to sign this account'' else SignTx lib tx sg key),
       toValue = None, toGasPrice = None, toGasLimit = 0, toChainId = None\<rparr>)"

section \<open>The token, src/contract/HW.go\<close>

text \<open>The interface \<^verbatim>\<open>ContractABI\<close> as \<^verbatim>\<open>abi.JSON\<close> reads it.\<close>

definition meth :: "string \<Rightarrow> bool \<Rightarrow> abi_type list \<Rightarrow> abi_type list \<Rightarrow> string \<times> Method" where
  "meth name const ins outs = (name, \<lparr>mdName = name, mdConst = const, mdInputs = ins, mdOutputs = outs\<rparr>)"

definition ContractABI :: ABI where
  "ContractABI =
     \<lparr>abConstructor = [],
      abMethods = map_of
        [meth ''name'' True [] [StringTy],
         meth ''approve'' False [AddressTy, UintTy 256] [BoolTy],
         meth ''totalSupply'' True [] [UintTy 256],
         meth ''transferFrom'' False [AddressTy, AddressTy, UintTy 256] [BoolTy],
         meth ''balances'' True [AddressTy] [UintTy 256],
         meth ''decimals'' True [] [UintTy 8],
         meth ''allowed'' True [AddressTy, AddressTy] [UintTy 256],
         meth ''balanceOf'' True [AddressTy] [UintTy 256],
         meth ''symbol'' True [] [StringTy],
         meth ''transfer'' False [AddressTy, UintTy 256] [BoolTy],
         meth ''allowance'' True [AddressTy, AddressTy] [UintTy 256]]\<rparr>"

definition bindContract :: "address \<Rightarrow> BoundContract" where
  "bindContract a = \<lparr>bcAddress = a, bcAbi = ContractABI\<rparr>"

record ContractSession =
  snContract :: BoundContract
  snCallOpts :: CallOpts
  snTransactOpts :: TransactOpts

definition DeployContract ::
  "cryptolib \<Rightarrow> node \<Rightarrow> (address \<Rightarrow> 64 word \<Rightarrow> address) \<Rightarrow> 8 word list \<Rightarrow> TransactOpts \<Rightarrow>
     (string + address \<times> signedTx \<times> BoundContract) outcome script" where
  "DeployContract lib nd CreateAddress ContractBin auth =
     bind_DeployContract lib GoEthereum nd CreateAddress auth ContractABI ContractBin []"

definition ContractCaller_Allowance :: "cryptolib \<Rightarrow> callBackend \<Rightarrow> BoundContract \<Rightarrow> CallOpts option \<Rightarrow> address \<Rightarrow> address \<Rightarrow> callResult" where
  "ContractCaller_Allowance lib nd c opts owner spender = BoundContract_Call lib nd c opts ''allowance'' [VAddress owner, VAddress spender]"

definition ContractSession_Allowance :: "cryptolib \<Rightarrow> callBackend \<Rightarrow> ContractSession \<Rightarrow> address \<Rightarrow> address \<Rightarrow> callResult" where
  "ContractSession_Allowance lib nd s owner spender = ContractCaller_Allowance lib nd (snContract s) (Some (snCallOpts s)) owner spender"

definition ContractCaller_Allowed :: "cryptolib \<Rightarrow> callBackend \<Rightarrow> BoundContract \<Rightarrow> CallOpts option \<Rightarrow> address \<Rightarrow> address \<Rightarrow> callResult" where
  "ContractCaller_Allowed lib nd c opts arg0 arg1 = BoundContract_Call lib nd c opts ''allowed'' [VAddress arg0, VAddress arg1]"

definition ContractSession_Allowed :: "cryptolib \<Rightarrow> callBackend \<Rightarrow> ContractSession \<Rightarrow> address \<Rightarrow> address \<Rightarrow> callResult" where
  "ContractSession_Allowed lib nd s arg0 arg1 = ContractCaller_Allowed lib nd (snContract s) (Some (snCallOpts s)) arg0 arg1"

definition ContractCaller_BalanceOf :: "cryptolib \<Rightarrow> callBackend \<Rightarrow> BoundContract \<Rightarrow> CallOpts option \<Rightarrow> address \<Rightarrow> callResult" where
  "ContractCaller_BalanceOf lib nd c opts owner = BoundContract_Call lib nd c opts ''balanceOf'' [VAddress owner]"

definition ContractSession_BalanceOf :: "cryptolib \<Rightarrow> callBackend \<Rightarrow> ContractSession \<Rightarrow> address \<Rightarrow> callResult" where
  "ContractSession_BalanceOf lib nd s owner = ContractCaller_BalanceOf lib nd (snContract s) (Some (snCallOpts s)) owner"

definition ContractCaller_Balances :: "cryptolib \<Rightarrow> callBackend \<Rightarrow> BoundContract \<Rightarrow> CallOpts option \<Rightarrow> address \<Rightarrow> callResult" where
  "ContractCaller_Balances lib nd c opts arg0 = BoundContract_Call lib nd c opts ''balances'' [VAddress arg0]"

definition ContractSession_Balances :: "cryptolib \<Rightarrow> callBackend \<Rightarrow> ContractSession \<Rightarrow> address \<Rightarrow> callResult" where
  "ContractSession_Balances lib nd s arg0 = ContractCaller_Balances lib nd (snContract s) (Some (snCallOpts s)) arg0"

definition ContractCaller_Decimals :: "cryptolib \<Rightarrow> callBackend \<Rightarrow> BoundContract \<Rightarrow> CallOpts option \<Rightarrow> callResult" where
  "ContractCaller_Decimals lib nd c opts = BoundContract_Call lib nd c opts ''decimals'' []"

definition ContractSession_Decimals :: "cryptolib \<Rightarrow> callBackend \<Rightarrow> ContractSession \<Rightarrow> callResult" where
  "ContractSession_Decimals lib nd s = ContractCaller_Decimals lib nd (snContract s) (Some (snCallOpts s))"

definition ContractCaller_Name :: "cryptolib \<Rightarrow> callBackend \<Rightarrow> BoundContract \<Rightarrow> CallOpts option \<Rightarrow> callResult" where
  "ContractCaller_Name lib nd c opts = BoundContract_Call lib nd c opts ''name'' []"

definition ContractSession_Name :: "cryptolib \<Rightarrow> callBackend \<Rightarrow> ContractSession \<Rightarrow> callResult" where
  "ContractSession_Name lib nd s = ContractCaller_Name lib nd (snContract s) (Some (snCallOpts s))"

definition ContractCaller_Symbol :: "cryptolib \<Rightarrow> callBackend \<Rightarrow> BoundContract \<Rightarrow> CallOpts option \<Rightarrow> callResult" where
  "ContractCaller_Symbol lib nd c opts = BoundContract_Call lib nd c opts ''symbol'' []"

definition ContractSession_Symbol :: "cryptolib \<Rightarrow> callBackend \<Rightarrow> ContractSession \<Rightarrow> callResult" where
  "ContractSession_Symbol lib nd s = ContractCaller_Symbol lib nd (snContract s) (Some (snCallOpts s))"

definition ContractCaller_TotalSupply :: "cryptolib \<Rightarrow> callBackend \<Rightarrow> BoundContract \<Rightarrow> CallOpts option \<Rightarrow> callResult" where
  "ContractCaller_TotalSupply lib nd c opts = BoundContract_Call lib nd c opts ''totalSupply'' []"

definition ContractSession_TotalSupply :: "cryptolib \<Rightarrow> callBackend \<Rightarrow> ContractSession \<Rightarrow> callResult" where
  "ContractSession_TotalSupply lib nd s = ContractCaller_TotalSupply lib nd (snContract s) (Some (snCallOpts s))"

definition ContractTransactor_Approve ::
  "cryptolib \<Rightarrow> bindlib \<Rightarrow> node \<Rightarrow> (event list \<Rightarrow> string + 8 word list) \<Rightarrow> BoundContract \<Rightarrow> TransactOpts \<Rightarrow> address \<Rightarrow> int \<Rightarrow> 
     (string + signedTx) outcome script" where
  "ContractTransactor_Approve lib bl nd code c opts spender val = BoundContract_Transact lib bl nd code c opts ''approve'' [VAddress spender, VBig val]"

definition ContractSession_Approve ::
  "cryptolib \<Rightarrow> bindlib \<Rightarrow> node \<Rightarrow> (event list \<Rightarrow> string + 8 word list) \<Rightarrow> ContractSession \<Rightarrow> address \<Rightarrow> int \<Rightarrow> 
     (string + signedTx) outcome script" where
  "ContractSession_Approve lib bl nd code s spender val = ContractTransactor_Approve lib bl nd code (snContract s) (snTransactOpts s) spender val"

definition ContractTransactor_Transfer ::
  "cryptolib \<Rightarrow> bindlib \<Rightarrow> node \<Rightarrow> (event list \<Rightarrow> string + 8 word list) \<Rightarrow> BoundContract \<Rightarrow> TransactOpts \<Rightarrow> address \<Rightarrow> int \<Rightarrow> 
     (string + signedTx) outcome script" where
  "ContractTransactor_Transfer lib bl nd code c opts to val = BoundContract_Transact lib bl nd code c opts ''transfer'' [VAddress to, VBig val]"

definition ContractSession_Transfer ::
  "cryptolib \<Rightarrow> bindlib \<Rightarrow> node \<Rightarrow> (event list \<Rightarrow> string + 8 word list) \<Rightarrow> ContractSession \<Rightarrow> address \<Rightarrow> int \<Rightarrow> 
     (string + signedTx) outcome script" where
  "ContractSession_Transfer lib bl nd code s to val = ContractTransactor_Transfer lib bl nd code (snContract s) (snTransactOpts s) to val"

definition ContractTransactor_TransferFrom ::
  "cryptolib \<Rightarrow> bindlib \<Rightarrow> node \<Rightarrow> (event list \<Rightarrow> string + 8 word list) \<Rightarrow> BoundContract \<Rightarrow> TransactOpts \<Rightarrow> address \<Rightarrow> address \<Rightarrow> int \<Rightarrow> 
     (string + signedTx) outcome script" where
  "ContractTransactor_TransferFrom lib bl nd code c opts from to val = BoundContract_Transact lib bl nd code c opts ''transferFrom'' [VAddress from, VAddress to, VBig val]"

definition ContractSession_TransferFrom ::
  "cryptolib \<Rightarrow> bindlib \<Rightarrow> node \<Rightarrow> (event list \<Rightarrow> string + 8 word list) \<Rightarrow> ContractSession \<Rightarrow> address \<Rightarrow> address \<Rightarrow> int \<Rightarrow> 
     (string + signedTx) outcome script" where
  "ContractSession_TransferFrom lib bl nd code s from to val = ContractTransactor_TransferFrom lib bl nd code (snContract s) (snTransactOpts s) from to val"

section \<open>The greeter, src/cryptoSolidity/sol/Sol.go\<close>

definition ApinameABI :: ABI where
  "ApinameABI =
     \<lparr>abConstructor = [StringTy],
      abMethods = map_of
        [meth ''kill'' False [] [],
         meth ''setGreeting'' False [StringTy] [],
         meth ''greet'' True [] [StringTy]]\<rparr>"

definition bindApiname :: "address \<Rightarrow> BoundContract" where
  "bindApiname a = \<lparr>bcAddress = a, bcAbi = ApinameABI\<rparr>"

definition ApinameCaller_Greet :: "cryptolib \<Rightarrow> callBackend \<Rightarrow> BoundContract \<Rightarrow> CallOpts option \<Rightarrow> callResult" where
  "ApinameCaller_Greet lib nd c opts = BoundContract_Call lib nd c opts ''greet'' []"

definition ApinameSession_Greet :: "cryptolib \<Rightarrow> callBackend \<Rightarrow> ContractSession \<Rightarrow> callResult" where
  "ApinameSession_Greet lib nd s = ApinameCaller_Greet lib nd (snContract s) (Some (snCallOpts s))"

definition ApinameTransactor_Kill ::
  "cryptolib \<Rightarrow> bindlib \<Rightarrow> node \<Rightarrow> (event list \<Rightarrow> string + 8 word list) \<Rightarrow> BoundContract \<Rightarrow> TransactOpts \<Rightarrow> 
     (string + signedTx) outcome script" where
  "ApinameTransactor_Kill lib bl nd code c opts = BoundContract_Transact lib bl nd code c opts ''kill'' []"

definition ApinameSession_Kill ::
  "cryptolib \<Rightarrow> bindlib \<Rightarrow> node \<Rightarrow> (event list \<Rightarrow> string + 8 word list) \<Rightarrow> ContractSession \<Rightarrow> 
     (string + signedTx) outcome script" where
  "ApinameSession_Kill lib bl nd code s = ApinameTransactor_Kill lib bl nd code (snContract s) (snTransactOpts s)"

definition ApinameTransactor_SetGreeting ::
  "cryptolib \<Rightarrow> bindlib \<Rightarrow> node \<Rightarrow> (event list \<Rightarrow> string + 8 word list) \<Rightarrow> BoundContract \<Rightarrow> TransactOpts \<Rightarrow> string \<Rightarrow> 
     (string + signedTx) outcome script" where
  "ApinameTransactor_SetGreeting lib bl nd code c opts newgreeting = BoundContract_Transact lib bl nd code c opts ''setGreeting'' [VString newgreeting]"

definition ApinameSession_SetGreeting ::
  "cryptolib \<Rightarrow> bindlib \<Rightarrow> node \<Rightarrow> (event list \<Rightarrow> string + 8 word list) \<Rightarrow> ContractSession \<Rightarrow> string \<Rightarrow> 
     (string + signedTx) outcome script" where
  "ApinameSession_SetGreeting lib bl nd code s newgreeting = ApinameTransactor_SetGreeting lib bl nd code (snContract s) (snTransactOpts s) newgreeting"

section \<open>The programs\<close>

text \<open>\<^verbatim>\<open>contract.go\<close>: the options whose signer prefers the chain that was given.\<close>

definition makeTxOpts ::
  "cryptolib \<Rightarrow> address \<Rightarrow> int \<Rightarrow> int \<Rightarrow> int \<Rightarrow> 64 word \<Rightarrow> privkey \<Rightarrow> int \<Rightarrow> TransactOpts" where
  "makeTxOpts lib from nonce val gasPrice gasLimit privKey chainID =
     \<lparr>toFrom = from, toNonce = Some nonce,
      toSigner = Some (\<lambda>sg a tx. SignTx lib tx (if chainID \<noteq> 0 then EIP155Signer chainID else sg) privKey),
      toValue = Some val, toGasPrice = Some gasPrice, toGasLimit = gasLimit, toChainId = None\<rparr>"

text \<open>
  \<open>receipt\<close> gives the address in the receipt of the deployment, if there ever is one; \<open>gone\<close> says whether the goroutine that
  watches for events has ended the process by then, which it does after the first event or error.
  \<^term>\<open>Inl ()\<close> is a program that waits.
\<close>

definition contract_main ::
  "cryptolib \<Rightarrow> node \<Rightarrow> 8 word list \<Rightarrow> (event list \<Rightarrow> address option) \<Rightarrow> (event list \<Rightarrow> bool) \<Rightarrow> (unit + exit) script" where
  "contract_main lib nd ContractBin receipt gone =
     withAccount lib nd ''ws://localhost:8546''
       ''14c8e3bfacd31c7dddba84c0ba51a2d45fb1dd299bcb9772487232a7c3d18012'' Return Return
       (\<lambda>key from nonce.
          do {
            err \<leftarrow> sendRaw nd (orNil (SignTx lib (NewContractCreation nonce 0 4600000 1000000000 ContractBin) HomesteadSigner key));
            h \<leftarrow> State_Monad.get;
            case err of
              Some _ \<Rightarrow> State_Monad.return (Inr Return)
            | None \<Rightarrow>
                (case receipt h of
                   None \<Rightarrow> State_Monad.return (Inl ())
                 | Some a \<Rightarrow>
                     if gone h then State_Monad.return (Inr Return)
                     else do {
                       r \<leftarrow> ContractTransactor_Transfer lib GoEthereum nd (\<lambda>_. Inr []) (bindContract a)
                              (makeTxOpts lib from (sint (nonce + 1)) 0 1000000000 4600000 key 0)
                              (HexToAddress ''0x9b23a6a9a60b3846f86ebc451d11bef20ed07930'') 10000;
                       State_Monad.return (if r = Panics then Inr Panic else Inl ())
                     })
          })"

text \<open>
  \<^verbatim>\<open>cryptoSolidity/query.go\<close>: the errors of dialing, of the nonce and of the encryption are ignored; the encrypted text goes to the
  contract as a string. \<open>NewCipher\<close> is the SM4 cipher.
\<close>

definition query_contract :: address where
  "query_contract = HexToAddress ''0x137eB3207E55B4e96f092310696F1e854a93D5f9''"

definition Sm4Key :: "8 word list" where "Sm4Key = bytesOf ''1234567890abcdef''"

definition query_set ::
  "cryptolib \<Rightarrow> (8 word list \<Rightarrow> string + cipherBlock) \<Rightarrow> int option \<Rightarrow> node \<Rightarrow> string option \<Rightarrow> (unit + exit) script" where
  "query_set lib NewCipher conf nd dialErr =
     (case HexToECDSA lib ''5ca4829b9ad9ba68e74a747115e33ef3998f0f786f924e6f3b6ec2e56504ed15'' of
        Inl _ \<Rightarrow> State_Monad.return (Inr Panic)
      | Inr key \<Rightarrow>
          if dialErr \<noteq> None then State_Monad.return (Inr Panic)
          else do {
            r \<leftarrow> nonceAt nd (PubkeyToAddress lib key);
            let opts1 = (NewKeyedTransactor lib key)\<lparr>toChainId := Some 738, toNonce := Some (sint (orZero r)),
                  toGasPrice := Some 39000000000, toGasLimit := 4376600, toValue := Some 0\<rparr>;
            case Sm4Encrypt NewCipher Sm4Key (replicate BlockSize 0) (bytesOf ''liu'') of
              Panicked \<Rightarrow> State_Monad.return (Inr Panic)
            | enc \<Rightarrow>
                do {
                  x \<leftarrow> ApinameTransactor_SetGreeting lib (PdxChain conf) nd (\<lambda>_. Inr []) (bindApiname query_contract) opts1
                         (case enc of Done encrypt \<Rightarrow> stringOf encrypt | _ \<Rightarrow> '''');
                  State_Monad.return (Inr (if x = Panics then Panic else Return))
                }
          })"

definition query_main ::
  "cryptolib \<Rightarrow> (8 word list \<Rightarrow> string + cipherBlock) \<Rightarrow> int option \<Rightarrow> node \<Rightarrow> (unit + exit) script" where
  "query_main lib NewCipher conf nd =
     do { dialErr \<leftarrow> dial nd ''http://127.0.0.1:8546''; query_set lib NewCipher conf nd dialErr }"

definition query_get ::
  "cryptolib \<Rightarrow> (8 word list \<Rightarrow> string + cipherBlock) \<Rightarrow> callBackend \<Rightarrow> 8 word list computed" where
  "query_get lib NewCipher nd =
     (case ApinameCaller_Greet lib nd (bindApiname query_contract) (Some \<lparr>coPending = False, coFrom = replicate 20 0\<rparr>) of
        Returns (Inr (VString s)) \<Rightarrow> Sm4Decrypt NewCipher Sm4Key (replicate BlockSize 0) (bytesOf s)
      | Returns (Inl e) \<Rightarrow> Failed e
      | _ \<Rightarrow> Panicked)"

text \<open>\<^verbatim>\<open>wasm/abi/abi.go\<close>: errors are printed and the program goes on with what it has.\<close>

definition wasmABI :: ABI where
  "wasmABI =
     \<lparr>abConstructor = [],
      abMethods = map_of
        [meth ''put'' False [StringTy, StringTy] [],
         meth ''get'' True [StringTy] [StringTy],
         meth ''getcounter'' True [] [UintTy 256]]\<rparr>"

definition wasmAbi_main :: "cryptolib \<Rightarrow> node \<Rightarrow> (unit + exit) script" where
  "wasmAbi_main lib nd =
     do {
       err \<leftarrow> dial nd ''http://10.0.0.138:34321'';
       case HexToECDSA lib ''d29ce71545474451d8292838d4a0680a8444e6e4c14da018b4a08345fb2bbb84'' of
         Inl _ \<Rightarrow> State_Monad.return (Inr Panic)
       | Inr key \<Rightarrow>
           if err \<noteq> None then State_Monad.return (Inr Panic)
           else do {
             r \<leftarrow> pendingNonceAt nd (PubkeyToAddress lib key);
             sendOnce lib nd
               (NewTransaction (orZero r) (HexToAddress ''0x6e0d7af8a1291c55297378c085cb92731c4a52f9'') 0 900000 (18 * 10 ^ 9)
                 (case Pack lib wasmABI ''put'' [VString ''pdx'', VString ''123''] of Inl _ \<Rightarrow> [] | Inr abiBytes \<Rightarrow> abiBytes))
               (EIP155Signer 739) key
           }
     }"

section \<open>Calls return what the contract returns\<close>

text \<open>
  A node that runs a contract: a call whose data is the selector of a method with a result, followed by bytes that decode to arguments, is
  answered with the encoding of the value that the contract computes from them.
\<close>

definition runsContract ::
  "cryptolib \<Rightarrow> callBackend \<Rightarrow> BoundContract \<Rightarrow> (string \<Rightarrow> abi_value list \<Rightarrow> abi_value) \<Rightarrow> bool" where
  "runsContract lib nd c f \<longleftrightarrow>
     (\<forall>name md d vs fr. abMethods (bcAbi c) name = Some md \<and> length (mdOutputs md) = 1 \<and>
          UnpackValues (mdInputs md) d = Returns (Inr vs) \<longrightarrow>
        (let msg = \<lparr>cmFrom = fr, cmTo = Some (bcAddress c), cmValue = 0, cmData = Method_Id lib md @ d\<rparr> in
         cbCallContract nd msg = Arguments_Pack (mdOutputs md) [f name vs] \<and>
         cbPendingCallContract nd msg = Arguments_Pack (mdOutputs md) [f name vs]))"

text \<open>The encoding of a value fits into a Go slice.\<close>

definition smallValue :: "abi_value \<Rightarrow> bool" where
  "smallValue v \<longleftrightarrow> length (packElement v) < 2 ^ 60"

lemma packElement_aligned: "fits t v \<Longrightarrow> 32 dvd length (packElement v)"
  by (induction t v rule: fits.induct)
     (auto simp: packBytesSlice_def RightPad_prefix [OF round_up] LeftPadBytes_def AddressLength_def
        RightPad_prefix [of "bytesOf _", unfolded bytesOf_length, OF round_up] intro!: dvd_add)

lemma tails_small: "list_all smallValue (map snd tvs) \<Longrightarrow> length (tails tvs) \<le> length tvs * 2 ^ 60"
  by (induction tvs rule: tails.induct) (auto simp: smallValue_def)

lemma Arguments_Pack_small:
  assumes "list_all2 fits ts vs" "list_all smallValue vs" "length ts \<le> 3"
  shows "\<exists>d. Arguments_Pack ts vs = Inr d \<and> UnpackValues ts d = Returns (Inr vs) \<and> 32 * length ts \<le> length d"
proof -
  let ?z = "zip ts vs"
  have z: "allFit ?z" "map snd ?z = vs" "length ?z = length ts"
    using list_all2_allFit [OF assms(1)] list_all2_lengthD [OF assms(1)] by simp_all
  let ?d = "heads (32 * length ts) ?z @ tails ?z"
  have p: "Arguments_Pack ts vs = Inr ?d" by (rule Arguments_Pack_fits [OF assms(1)])
  have "length (tails ?z) \<le> length ?z * 2 ^ 60" using tails_small [of ?z] assms(2) z(2) by simp
  also have "\<dots> \<le> 3 * 2 ^ 60" using assms(3) z(3) by simp
  finally have "length ?d < 2 ^ 63" using heads_length [OF z(1), of "32 * length ts"] z(3) assms(3) by simp
  then show ?thesis using UnpackValues_packed [OF assms(1) p] p heads_length [OF z(1)] z(3) by simp
qed

lemma Unpack_value:
  assumes "abMethods abi name = Some md" "mdOutputs md = [t]" "fits t v" "smallValue v"
  shows "\<exists>out. Arguments_Pack (mdOutputs md) [v] = Inr out \<and> out \<noteq> [] \<and> Unpack abi name out = Returns (Inr v)"
proof -
  obtain out where out: "Arguments_Pack [t] [v] = Inr out" "UnpackValues [t] out = Returns (Inr [v])" "32 \<le> length out"
    using Arguments_Pack_small [of "[t]" "[v]"] assms(3,4) by auto
  have "out = heads 32 [(t, v)] @ tails [(t, v)]" using out(1) Arguments_Pack_fits [of "[t]" "[v]"] assms(3) by simp
  then have "32 dvd length out" using packElement_aligned [OF assms(3)] by (auto split: if_splits)
  then show ?thesis using out assms(1,2) by (auto simp: Unpack_def)
qed

lemma BoundContract_Call_returns:
  assumes "runsContract lib nd c f" "abMethods (bcAbi c) name = Some md" "name \<noteq> ''''"
    and "list_all2 fits (mdInputs md) args" "list_all smallValue args" "length (mdInputs md) \<le> 3"
    and "mdOutputs md = [t]" "fits t (f name args)" "smallValue (f name args)"
  shows "BoundContract_Call lib nd c opts name args = Returns (Inr (f name args))"
proof -
  obtain d where d: "Arguments_Pack (mdInputs md) args = Inr d" "UnpackValues (mdInputs md) d = Returns (Inr args)"
    using Arguments_Pack_small [OF assms(4-6)] by blast
  obtain out where out: "Arguments_Pack (mdOutputs md) [f name args] = Inr out" "out \<noteq> []"
      "Unpack (bcAbi c) name out = Returns (Inr (f name args))"
    using Unpack_value [OF assms(2,7-9)] by blast
  have "Pack lib (bcAbi c) name args = Inr (Method_Id lib md @ d)"
    using assms(2,3) d(1) by (simp add: Pack_def)
  moreover have "length (mdOutputs md) = 1" using assms(7) by simp
  ultimately show ?thesis
    using assms(1,2) d(2) out unfolding runsContract_def
    by (simp add: BoundContract_Call_def checkOutput_def Let_def)
qed

text \<open>The contract computes values of the declared types of results.\<close>

definition typedContract :: "ABI \<Rightarrow> (string \<Rightarrow> abi_value list \<Rightarrow> abi_value) \<Rightarrow> bool" where
  "typedContract abi f \<longleftrightarrow>
     (\<forall>name md t vs. abMethods abi name = Some md \<and> mdOutputs md = [t] \<longrightarrow> fits t (f name vs) \<and> smallValue (f name vs))"

lemma typed_call:
  assumes "runsContract lib nd c f" "typedContract (bcAbi c) f"
    and "abMethods (bcAbi c) name = Some md" "name \<noteq> ''''" "mdOutputs md = [t]"
    and "list_all2 fits (mdInputs md) args" "list_all smallValue args" "length (mdInputs md) \<le> 3"
  shows "BoundContract_Call lib nd c opts name args = Returns (Inr (f name args))"
  using assms BoundContract_Call_returns [OF assms(1,3,4,6-8,5)] unfolding typedContract_def by blast

lemma small_address: "length a = AddressLength \<Longrightarrow> smallValue (VAddress a)"
  by (simp add: smallValue_def LeftPadBytes_def AddressLength_def)

lemmas token_method = bindContract_def ContractABI_def meth_def small_address

text \<open>
  C19. The bindings of the token call the contract that is meant. When the node runs a contract with the interface that the
  bindings were generated from, each read method of \<^verbatim>\<open>HW.go\<close>, called for addresses of 20 bytes, on the last or on the pending
  state, returns exactly the value that the contract computes for these arguments: the name of the method and the order and types of
  its arguments fit the interface, the request is encoded and the answer decoded without loss.
\<close>

theorem token_calls_return:
  assumes "runsContract lib nd (bindContract a) f" "typedContract ContractABI f"
    and "length x = AddressLength" "length y = AddressLength"
  shows "ContractCaller_Allowance lib nd (bindContract a) opts x y = Returns (Inr (f ''allowance'' [VAddress x, VAddress y])) \<and>
    ContractCaller_Allowed lib nd (bindContract a) opts x y = Returns (Inr (f ''allowed'' [VAddress x, VAddress y])) \<and>
    ContractCaller_BalanceOf lib nd (bindContract a) opts x = Returns (Inr (f ''balanceOf'' [VAddress x])) \<and>
    ContractCaller_Balances lib nd (bindContract a) opts x = Returns (Inr (f ''balances'' [VAddress x])) \<and>
    ContractCaller_Decimals lib nd (bindContract a) opts = Returns (Inr (f ''decimals'' [])) \<and>
    ContractCaller_Name lib nd (bindContract a) opts = Returns (Inr (f ''name'' [])) \<and>
    ContractCaller_Symbol lib nd (bindContract a) opts = Returns (Inr (f ''symbol'' [])) \<and>
    ContractCaller_TotalSupply lib nd (bindContract a) opts = Returns (Inr (f ''totalSupply'' []))"
  using assms
  unfolding ContractCaller_Allowance_def ContractCaller_Allowed_def ContractCaller_BalanceOf_def ContractCaller_Balances_def
    ContractCaller_Decimals_def ContractCaller_Name_def ContractCaller_Symbol_def ContractCaller_TotalSupply_def
  by (auto intro!: typed_call simp: token_method)

text \<open>An instance: hashing keeps the length and the second byte of the signature, which tells the methods apart.\<close>

definition tokenLib :: cryptolib where
  "tokenLib = sampleLib\<lparr>Keccak256 := (\<lambda>b. [word_of_nat (length b), b ! 1] @ replicate 30 0)\<rparr>"

definition tokenMethods :: "(string \<times> Method) list" where
  "tokenMethods =
     [meth ''name'' True [] [StringTy],
      meth ''approve'' False [AddressTy, UintTy 256] [BoolTy],
      meth ''totalSupply'' True [] [UintTy 256],
      meth ''transferFrom'' False [AddressTy, AddressTy, UintTy 256] [BoolTy],
      meth ''balances'' True [AddressTy] [UintTy 256],
      meth ''decimals'' True [] [UintTy 8],
      meth ''allowed'' True [AddressTy, AddressTy] [UintTy 256],
      meth ''balanceOf'' True [AddressTy] [UintTy 256],
      meth ''symbol'' True [] [StringTy],
      meth ''transfer'' False [AddressTy, UintTy 256] [BoolTy],
      meth ''allowance'' True [AddressTy, AddressTy] [UintTy 256]]"

definition tokenValue :: "string \<Rightarrow> abi_value list \<Rightarrow> abi_value" where
  "tokenValue name vs =
     (if name \<in> {''name'', ''symbol''} then VString ''HW''
      else if name = ''decimals'' then VUint 8 18
      else if name \<in> {''approve'', ''transfer'', ''transferFrom''} then VBool True
      else VBig (10000 + int (length vs mod 4)))"

definition sampleSelector :: "8 word list \<Rightarrow> 8 word list" where
  "sampleSelector sig = take 4 ([word_of_nat (length sig), sig ! 1] @ replicate 30 0)"

definition tokenAnswer :: "callMsg \<Rightarrow> string + 8 word list" where
  "tokenAnswer msg =
     (case List.find (\<lambda>(n, md). sampleSelector (bytesOf (Sig md)) = take 4 (cmData msg)) tokenMethods of
        None \<Rightarrow> Inl ''execution reverted''
      | Some (n, md) \<Rightarrow>
          (case UnpackValues (mdInputs md) (drop 4 (cmData msg)) of
             Returns (Inr vs) \<Rightarrow> Arguments_Pack (mdOutputs md) [tokenValue n vs] | _ \<Rightarrow> Inl ''execution reverted''))"

definition tokenBackend :: callBackend where
  "tokenBackend =
     \<lparr>cbCallContract = tokenAnswer, cbPendingCallContract = tokenAnswer, cbCodeAt = (\<lambda>_. Inr [0]),
      cbPendingCodeAt = (\<lambda>_. Inr [0])\<rparr>"

lemma tokenLib_Id: "Method_Id tokenLib md = sampleSelector (bytesOf (Sig md))"
  by (simp add: Method_Id_def tokenLib_def sampleSelector_def)

lemma tokenMethods_found:
  "(name, md) \<in> set tokenMethods \<Longrightarrow>
   List.find (\<lambda>(n, md'). sampleSelector (bytesOf (Sig md')) = sampleSelector (bytesOf (Sig md))) tokenMethods = Some (name, md)"
proof -
  have "list_all (\<lambda>(name, md). List.find (\<lambda>(n, md'). sampleSelector (bytesOf (Sig md')) = sampleSelector (bytesOf (Sig md)))
      tokenMethods = Some (name, md)) tokenMethods"
    by code_simp
  then show "(name, md) \<in> set tokenMethods \<Longrightarrow> ?thesis" by (auto simp: list_all_iff)
qed

lemma tokenMethods_lookup: "abMethods ContractABI name = Some md \<Longrightarrow> (name, md) \<in> set tokenMethods"
  using map_of_SomeD [of tokenMethods name md] by (simp add: ContractABI_def tokenMethods_def)

lemma tokenBackend_runs: "runsContract tokenLib tokenBackend (bindContract a) tokenValue"
proof -
  have "tokenAnswer \<lparr>cmFrom = fr, cmTo = to, cmValue = 0, cmData = Method_Id tokenLib md @ d\<rparr> =
      Arguments_Pack (mdOutputs md) [tokenValue name vs]"
    if "abMethods ContractABI name = Some md" "UnpackValues (mdInputs md) d = Returns (Inr vs)" for name md d vs fr to
  proof -
    have "(name, md) \<in> set tokenMethods"
      by (rule tokenMethods_lookup [OF that(1)])
    from tokenMethods_found [OF this] show ?thesis
      using that(2) by (simp add: tokenAnswer_def tokenLib_Id) (simp add: sampleSelector_def)
  qed
  then show ?thesis by (simp add: runsContract_def tokenBackend_def bindContract_def Let_def)
qed

lemma tokenValue_typed: "typedContract ContractABI tokenValue"
proof -
  have "list_all (\<lambda>(name, md). list_all (\<lambda>t. fits t (tokenValue name vs) \<and> smallValue (tokenValue name vs)) (mdOutputs md))
      tokenMethods" for vs
  proof -
    have "int (length vs mod 4) < 4" by simp
    then have "10000 + int (length vs mod 4) < 2 ^ 256" by simp
    then show ?thesis
      by (simp add: tokenMethods_def meth_def tokenValue_def smallValue_def packBytesSlice_def RightPadBytes_def reflectIntKind_def)
  qed
  then show ?thesis
    unfolding typedContract_def by (fastforce simp: list_all_iff dest: tokenMethods_lookup)
qed

theorem token_calls_return_witness:
  "ContractCaller_BalanceOf tokenLib tokenBackend (bindContract []) None (replicate 20 1) = Returns (Inr (VBig 10001)) \<and>
   ContractCaller_Allowance tokenLib tokenBackend (bindContract []) None (replicate 20 1) (replicate 20 2) =
     Returns (Inr (VBig 10002)) \<and>
   ContractCaller_Name tokenLib tokenBackend (bindContract []) None = Returns (Inr (VString ''HW'')) \<and>
   ContractCaller_Decimals tokenLib tokenBackend (bindContract []) None = Returns (Inr (VUint 8 18))"
  using token_calls_return [OF tokenBackend_runs [of "[]"] tokenValue_typed, of "replicate 20 1" "replicate 20 2" None]
  by (simp add: AddressLength_def tokenValue_def)

section \<open>Transactions through bindings\<close>

lemma HexToAddress_fits [simp]: "fits AddressTy (VAddress (HexToAddress s))"
  by (simp add: HexToAddress_def)

text \<open>The data of a transfer of the token: the selector and the two arguments.\<close>

definition transferData :: "cryptolib \<Rightarrow> address \<Rightarrow> int \<Rightarrow> 8 word list" where
  "transferData lib to val = take 4 (Keccak256 lib (bytesOf ''transfer(address,uint256)'')) @ LeftPadBytes to 32 @ U256 val"

lemma Pack_transfer:
  assumes "length to = AddressLength" "0 \<le> val" "val < 2 ^ 256"
  shows "Pack lib ContractABI ''transfer'' [VAddress to, VBig val] = Inr (transferData lib to val)"
proof -
  have f: "list_all2 fits [AddressTy, UintTy 256] [VAddress to, VBig val]"
    using assms by (simp add: reflectIntKind_def)
  have "Sig (snd (meth ''transfer'' False [AddressTy, UintTy 256] [BoolTy])) = ''transfer(address,uint256)''" by code_simp
  with Arguments_Pack_fits [OF f] show ?thesis
    by (simp add: Pack_def ContractABI_def meth_def Method_Id_def transferData_def requiresLengthPrefix_def)
qed

lemma Pack_setGreeting:
  "\<exists>d. Pack lib ApinameABI ''setGreeting'' [VString s] =
     Inr (take 4 (Keccak256 lib (bytesOf ''setGreeting(string)'')) @ d) \<and> Arguments_Pack [StringTy] [VString s] = Inr d"
proof -
  have "Sig (snd (meth ''setGreeting'' False [StringTy] [])) = ''setGreeting(string)''" by code_simp
  then show ?thesis
    using Arguments_Pack_fits [of "[StringTy]" "[VString s]"]
    by (simp add: Pack_def ApinameABI_def meth_def Method_Id_def)
qed

lemmas bindings_run = transact_def bindOk_def resolveNonce_def resolveGasPrice_def resolveGasLimit_def signAndSend_def
  BoundContract_Transact_def run_script run_state_get

lemma word_of_sint: "unat (n :: 64 word) < 2 ^ 63 \<Longrightarrow> word_of_int \<bar>sint n\<bar> = n"
proof -
  assume "unat n < 2 ^ 63"
  then have le: "uint n < 2 ^ 63" by (metis nat_less_iff of_nat_numeral of_nat_power uint_nat zless_nat_conj of_nat_less_iff)
  have "- (2 ^ 63) \<le> (0 :: int)" by simp
  also have "0 \<le> uint n" by simp
  finally have "sint n = uint n" using signed_take_bit_int_eq_self [OF _ le] by (simp add: sint_uint)
  then show "word_of_int \<bar>sint n\<bar> = n" by simp
qed

text \<open>The events of a transfer with the options of \<^verbatim>\<open>contract.go\<close>: one transaction is sent.\<close>

lemma transfer_events:
  assumes "signs lib" "length to = AddressLength" "0 \<le> val" "val < 2 ^ 256" "gl \<noteq> 0"
  shows "\<exists>r. run_state (ContractTransactor_Transfer lib GoEthereum nd code (bindContract a)
      (makeTxOpts lib from n v gp gl key 0) to val) h =
    (Returns r, h @ [EvSend (Some (NewTransaction (word_of_int \<bar>n\<bar>) a v gl gp (transferData lib to val), HomesteadSigner, key))
       (ndSend nd h (Some (NewTransaction (word_of_int \<bar>n\<bar>) a v gl gp (transferData lib to val), HomesteadSigner, key)))])"
  using assms Pack_transfer [OF assms(2-4), of lib]
  by (simp add: ContractTransactor_Transfer_def bindings_run makeTxOpts_def bindContract_def)

definition smallNonces :: "node \<Rightarrow> bool" where
  "smallNonces nd \<longleftrightarrow> (\<forall>h a n. ndNonceAt nd h a = Inr n \<longrightarrow> unat n + 1 < 2 ^ 63)"

lemma smallNoncesD: "smallNonces nd \<Longrightarrow> ndNonceAt nd h a = Inr n \<Longrightarrow> word_of_int \<bar>sint (n + 1)\<bar> = n + 1"
proof (rule word_of_sint)
  assume "smallNonces nd" "ndNonceAt nd h a = Inr n"
  then have "unat n + 1 < 2 ^ 63" by (auto simp: smallNonces_def)
  then show "unat (n + 1) < 2 ^ 63"
    using unat_word_ariths(1) [of n 1] mod_less_eq_dividend [of "unat n + 1" "2 ^ 64"] by simp
qed

text \<open>The two transactions of \<^verbatim>\<open>contract.go\<close>.\<close>

definition deployTx :: "8 word list \<Rightarrow> 64 word \<Rightarrow> privkey \<Rightarrow> signedTx" where
  "deployTx bin n key = (NewContractCreation n 0 4600000 1000000000 bin, HomesteadSigner, key)"

definition tokenTx :: "cryptolib \<Rightarrow> address \<Rightarrow> 64 word \<Rightarrow> privkey \<Rightarrow> signedTx" where
  "tokenTx lib a n key =
     (NewTransaction n a 0 4600000 1000000000
        (transferData lib (HexToAddress ''0x9b23a6a9a60b3846f86ebc451d11bef20ed07930'') 10000), HomesteadSigner, key)"

lemma contract_main_run:
  assumes "signs lib" "smallNonces nd"
  shows "\<exists>h0 hs. events (contract_main lib nd bin receipt gone) = h0 @ hs \<and> submitted h0 = [] \<and>
    (hs = [] \<and> disciplined h0 \<or>
     (\<exists>key n r. expected h0 = Next n \<and> hs = [EvSend (Some (deployTx bin n key)) r]) \<or>
     (\<exists>key n a r' h'. expected h0 = Next n \<and> receipt h' = Some a \<and>
        hs = [EvSend (Some (deployTx bin n key)) None, EvSend (Some (tokenTx lib a (n + 1) key)) r']))"
proof -
  let ?host = "''ws://localhost:8546''"
  let ?m = "events (contract_main lib nd bin receipt gone)"
  let ?hex = "''14c8e3bfacd31c7dddba84c0ba51a2d45fb1dd299bcb9772487232a7c3d18012''"
  let ?h1 = "[EvDial ?host (ndDial nd [] ?host)]"
  note run = contract_main_def withAccount_def events_def run_script disciplined_def expected_def
  show ?thesis
  proof (cases "ndDial nd [] ?host = None \<and> (\<exists>key n. HexToECDSA lib ?hex = Inr key \<and>
      ndNonceAt nd ?h1 (PubkeyToAddress lib key) = Inr n)")
    case False
    then have "submitted ?m = [] \<and> disciplined ?m"
      by (cases "ndDial nd [] ?host"; cases "HexToECDSA lib ?hex"; cases "ndNonceAt nd ?h1 (PubkeyToAddress lib (projr (HexToECDSA lib ?hex)))")
         (simp_all add: run)
    then show ?thesis by (intro exI [of _ ?m] exI [of _ "[]"]) simp
  next
    case True
    then obtain key n where kn: "ndDial nd [] ?host = None" "HexToECDSA lib ?hex = Inr key"
      "ndNonceAt nd ?h1 (PubkeyToAddress lib key) = Inr n" by blast
    let ?h0 = "?h1 @ [EvNonceAt (PubkeyToAddress lib key) (Inr n)]"
    let ?st = "Some (deployTx bin n key)"
    let ?h2 = "?h0 @ [EvSend ?st (ndSend nd ?h0 ?st)]"
    have h0: "expected ?h0 = Next n" "submitted ?h0 = []" by (simp_all add: expected_def)
    show ?thesis
    proof (cases "ndSend nd ?h0 ?st = None \<and> (\<exists>a. receipt ?h2 = Some a) \<and> \<not> gone ?h2")
      case False
      then have "?m = ?h0 @ [EvSend ?st (ndSend nd ?h0 ?st)]"
        using kn assms(1)
        by (auto simp: contract_main_def withAccount_def events_def run_script deployTx_def split: option.splits)
      with h0 show ?thesis by blast
    next
      case True
      then obtain a where a: "receipt ?h2 = Some a" by blast
      let ?t = "Some (tokenTx lib a (n + 1) key)"
      have len: "length (HexToAddress ''0x9b23a6a9a60b3846f86ebc451d11bef20ed07930'') = AddressLength"
        by (simp add: HexToAddress_def)
      obtain r where t: "run_state (ContractTransactor_Transfer lib GoEthereum nd (\<lambda>_. Inr []) (bindContract a)
          (makeTxOpts lib (PubkeyToAddress lib key) (sint (n + 1)) 0 1000000000 4600000 key 0)
          (HexToAddress ''0x9b23a6a9a60b3846f86ebc451d11bef20ed07930'') 10000) ?h2 =
          (Returns r, ?h2 @ [EvSend ?t (ndSend nd ?h2 ?t)])"
        using transfer_events [OF assms(1) len, of 10000 4600000 nd "\<lambda>_. Inr []" a
            "PubkeyToAddress lib key" "sint (n + 1)" 0 1000000000 key ?h2] smallNoncesD [OF assms(2) kn(3)]
        unfolding tokenTx_def by auto
      from True have sg: "ndSend nd ?h0 ?st = None" "\<not> gone ?h2" by blast+
      then have "?m = ?h2 @ [EvSend ?t (ndSend nd ?h2 ?t)]"
        using kn assms(1) a t
        by (simp add: contract_main_def withAccount_def events_def run_script deployTx_def)
      then have m: "?m = ?h0 @ [EvSend ?st None, EvSend ?t (ndSend nd ?h2 ?t)]" using sg(1) by simp
      have "\<exists>key' n' a' r' h'. expected ?h0 = Next n' \<and> receipt h' = Some a' \<and>
          [EvSend ?st None, EvSend ?t (ndSend nd ?h2 ?t)] =
            [EvSend (Some (deployTx bin n' key')) None, EvSend (Some (tokenTx lib a' (n' + 1) key')) r']"
        using h0(1) a by (intro exI [of _ key] exI [of _ n] exI [of _ a] exI [of _ "ndSend nd ?h2 ?t"] exI [of _ ?h2]) simp
      with m h0(2) show ?thesis
        by - (rule exI [of _ ?h0], rule exI [of _ "[EvSend ?st None, EvSend ?t (ndSend nd ?h2 ?t)]"],
            intro conjI, assumption, assumption, rule disjI2, rule disjI2, assumption)
    qed
  qed
qed

lemma query_main_run:
  assumes "ndDial nd [] ''http://127.0.0.1:8546'' = None"
    and "HexToECDSA lib ''5ca4829b9ad9ba68e74a747115e33ef3998f0f786f924e6f3b6ec2e56504ed15'' = Inr key"
    and "signs lib" "Sm4Encrypt NewCipher Sm4Key (replicate BlockSize 0) (bytesOf ''liu'') = Done ct"
    and "Pack lib ApinameABI ''setGreeting'' [VString (stringOf ct)] = Inr data"
  shows "let h = [EvDial ''http://127.0.0.1:8546'' None]; a = PubkeyToAddress lib key; r = ndNonceAt nd h a;
       st = (NewTransaction (word_of_int \<bar>sint (orZero r)\<bar>) query_contract 0 4376600 39000000000 data, EIP155Signer 738, key)
    in \<exists>x. events (query_main lib NewCipher conf nd) = h @ [EvNonceAt a r, EvSend (Some st) x]"
  using assms
  by (simp add: query_main_def query_set_def ApinameTransactor_SetGreeting_def bindApiname_def bindings_run events_def
      NewKeyedTransactor_def Let_def)

text \<open>
  C27. The token program keeps the discipline of nonces, whatever node, receipts and events it meets: it sends nothing, or only the
  deployment with the nonce that the node told, or after an accepted deployment, when its receipt has come, also one transfer of
  the token with the following nonce, to the contract at the address of the receipt, with the data that calls
  \<^verbatim>\<open>transfer\<close>.
\<close>

theorem contract_main_nonces:
  assumes "signs lib" "smallNonces nd"
  shows "disciplined (events (contract_main lib nd bin receipt gone)) \<and>
    (submitted (events (contract_main lib nd bin receipt gone)) = [] \<or>
     (\<exists>key n. submitted (events (contract_main lib nd bin receipt gone)) = [deployTx bin n key]) \<or>
     (\<exists>key n a h'. receipt h' = Some a \<and>
        submitted (events (contract_main lib nd bin receipt gone)) = [deployTx bin n key, tokenTx lib a (n + 1) key]))"
proof -
  have sub: "submitted (h @ h') = submitted h @ submitted h'" for h h'
    by (induction h rule: submitted.induct) auto
  have exp: "expected (h @ h') = foldl ns_step (expected h) h'" for h h' by (simp add: expected_def)
  have "txNonce (fst (deployTx bin n key)) = n" "txNonce (fst (tokenTx lib a n key)) = n" for n key a
    by (simp_all add: deployTx_def tokenTx_def)
  then show ?thesis
    using contract_main_run [OF assms, of bin receipt gone]
    by (elim exE conjE disjE) (auto simp: sub exp disciplined_def split: option.splits)
qed

text \<open>An instance: the nonce of every account is seven.\<close>

definition sevenNode :: node where
  "sevenNode = (sampleNode 0)\<lparr>ndNonceAt := (\<lambda>_ _. Inr 7)\<rparr>"

lemma sevenNode_small: "smallNonces sevenNode"
  by (simp add: smallNonces_def sevenNode_def)

lemma tokenLib_signs: "signs tokenLib"
  by (simp add: tokenLib_def signs_def sampleLib_def)

theorem contract_main_nonces_witness:
  "disciplined (events (contract_main tokenLib sevenNode [0x60] (\<lambda>_. Some (replicate 20 1)) (\<lambda>_. False))) \<and>
   length (submitted (events (contract_main tokenLib sevenNode [0x60] (\<lambda>_. Some (replicate 20 1)) (\<lambda>_. False)))) \<le> 2"
  using contract_main_nonces [OF tokenLib_signs sevenNode_small, of "[0x60]" "\<lambda>_. Some (replicate 20 1)" "\<lambda>_. False"]
  by auto



end
