(* ===== verification/LogEvents.thy ===== *)
theory LogEvents
  imports Bindings
begin

text \<open>
  The events of the token, \<^verbatim>\<open>src/contract/HW.go\<close> over \<^verbatim>\<open>accounts/abi/bind\<close> (\<^verbatim>\<open>FilterLogs\<close>, \<^verbatim>\<open>UnpackLog\<close>, \<^verbatim>\<open>topics.go\<close>): queries for
  past events, the iterators over their result, whose logs a goroutine feeds through a bounded channel, and the
  goroutines that watch for new events.
\<close>

section \<open>Logs and events\<close>

text \<open>Of a log, its topics (hashes of 32 bytes) and its data.\<close>

record log =
  lgTopics :: "8 word list list"
  lgData :: "8 word list"

definition HashLength :: nat where "HashLength = 32"

text \<open>
  \<^verbatim>\<open>UnpackLog\<close> with \<^verbatim>\<open>parseTopics\<close> for the two events, which have two indexed addresses and a number that is not indexed and
  keeps nil when there is no data. Slicing the topics of a log without topics is a panic.
\<close>

definition topicAddress :: "8 word list \<Rightarrow> address" where
  "topicAddress topic = drop (HashLength - AddressLength) topic"

definition parseTopics :: "8 word list list \<Rightarrow> string + address \<times> address" where
  "parseTopics topics =
     (case topics of
        [t1, t2] \<Rightarrow> Inr (topicAddress t1, topicAddress t2)
      | _ \<Rightarrow> Inl ''topic/field count mismatch'')"

definition UnpackLog :: "log \<Rightarrow> (string + address \<times> address \<times> int option) outcome" where
  "UnpackLog l =
     (let parse = (\<lambda>n. if lgTopics l = [] then Panics
            else Returns (map_sum id (\<lambda>(a, b). (a, b, n)) (parseTopics (tl (lgTopics l)))))
      in if length (lgData l) = 0 then parse None
         else case UnpackValues [UintTy 256] (lgData l) of
           Returns (Inl e) \<Rightarrow> Returns (Inl e)
         | Returns (Inr vs) \<Rightarrow> parse (case vs of [VBig n] \<Rightarrow> Some n | _ \<Rightarrow> None)
         | Blocks \<Rightarrow> Blocks
         | Panics \<Rightarrow> Panics)"

record ContractTransfer =
  ctFrom :: address
  ctTo :: address
  ctValue :: "int option"
  ctRaw :: log

record ContractApproval =
  caOwner :: address
  caSpender :: address
  caValue :: "int option"
  caRaw :: log

definition unpackTransfer :: "log \<Rightarrow> (string + ContractTransfer) outcome" where
  "unpackTransfer l =
     (case UnpackLog l of
        Returns (Inl e) \<Rightarrow> Returns (Inl e)
      | Returns (Inr (a, b, n)) \<Rightarrow> Returns (Inr \<lparr>ctFrom = a, ctTo = b, ctValue = n, ctRaw = l\<rparr>)
      | Blocks \<Rightarrow> Blocks
      | Panics \<Rightarrow> Panics)"

definition unpackApproval :: "log \<Rightarrow> (string + ContractApproval) outcome" where
  "unpackApproval l =
     (case UnpackLog l of
        Returns (Inl e) \<Rightarrow> Returns (Inl e)
      | Returns (Inr (a, b, n)) \<Rightarrow> Returns (Inr \<lparr>caOwner = a, caSpender = b, caValue = n, caRaw = l\<rparr>)
      | Blocks \<Rightarrow> Blocks
      | Panics \<Rightarrow> Panics)"

section \<open>Queries\<close>

record FilterOpts =
  foStart :: "64 word"
  foEnd :: "64 word option"

record FilterQuery =
  fqAddress :: address
  fqTopics :: "8 word list list list"
  fqFromBlock :: "64 word"
  fqToBlock :: "64 word option"

definition addressTopic :: "address \<Rightarrow> 8 word list" where
  "addressTopic a = replicate (HashLength - AddressLength) 0 @ a"

definition makeTopics :: "8 word list \<Rightarrow> address list list \<Rightarrow> 8 word list list list" where
  "makeTopics selector query = [selector] # map (map addressTopic) query"

definition eventId :: "cryptolib \<Rightarrow> string \<Rightarrow> 8 word list" where
  "eventId lib sig = Keccak256 lib (bytesOf sig)"

definition FilterLogs ::
  "cryptolib \<Rightarrow> (FilterQuery \<Rightarrow> string + log list) \<Rightarrow> BoundContract \<Rightarrow> FilterOpts option \<Rightarrow> string \<Rightarrow> address list list \<Rightarrow>
     string + log list" where
  "FilterLogs lib filterer c opts sig query =
     (let o' = (case opts of None \<Rightarrow> \<lparr>foStart = 0, foEnd = None\<rparr> | Some x \<Rightarrow> x) in
      filterer \<lparr>fqAddress = bcAddress c, fqTopics = makeTopics (eventId lib sig) query,
        fqFromBlock = foStart o', fqToBlock = foEnd o'\<rparr>)"

section \<open>Iterators\<close>

text \<open>
  The iterator, the channel, and the goroutine that sends the logs: what it has still to send, whether it has returned (which
  closes the error channel of the subscription) and whether it was told to quit. \<open>fsGot\<close> and \<open>fsLast\<close> record the events for which
  \<^verbatim>\<open>Next\<close> has returned true, and its last result.
\<close>

record 'e iterator =
  itEvent :: "'e option"
  itDone :: bool
  itFail :: "string option"

record 'e filter_state =
  fsBuff :: "log list"
  fsLogs :: "log list"
  fsEnd :: bool
  fsQuit :: bool
  fsIter :: "'e iterator"
  fsGot :: "'e list"
  fsLast :: "bool option"

definition logCap :: nat where "logCap = 128"

definition startFilter :: "log list \<Rightarrow> 'e filter_state" where
  "startFilter buff =
     \<lparr>fsBuff = buff, fsLogs = [], fsEnd = False, fsQuit = False,
      fsIter = \<lparr>itEvent = None, itDone = False, itFail = None\<rparr>, fsGot = [], fsLast = None\<rparr>"

text \<open>A log is received: the event is set, or the error. The event after an error is left out (\<^term>\<open>None\<close>).\<close>

definition takeLog ::
  "(log \<Rightarrow> (string + 'e) outcome) \<Rightarrow> log \<Rightarrow> log list \<Rightarrow> 'e filter_state \<Rightarrow> (bool \<times> 'e filter_state) outcome" where
  "takeLog unpack l ls s =
     (case unpack l of
        Returns (Inl e) \<Rightarrow>
          Returns (False, s\<lparr>fsLogs := ls, fsIter := (fsIter s)\<lparr>itEvent := None, itFail := Some e\<rparr>\<rparr>)
      | Returns (Inr ev) \<Rightarrow> Returns (True, s\<lparr>fsLogs := ls, fsIter := (fsIter s)\<lparr>itEvent := Some ev\<rparr>\<rparr>)
      | Blocks \<Rightarrow> Blocks
      | Panics \<Rightarrow> Panics)"

text \<open>
  \<^verbatim>\<open>Next\<close>; \<open>pickErr\<close> is the choice of the select statement when a log and the end are both ready. The error channel is
  closed without a value, so that the error received is nil.
\<close>

definition deliverRest ::
  "(log \<Rightarrow> (string + 'e) outcome) \<Rightarrow> 'e filter_state \<Rightarrow> (bool \<times> 'e filter_state) outcome" where
  "deliverRest unpack s = (case fsLogs s of [] \<Rightarrow> Returns (False, s) | l # ls \<Rightarrow> takeLog unpack l ls s)"

definition Next ::
  "(log \<Rightarrow> (string + 'e) outcome) \<Rightarrow> bool \<Rightarrow> 'e filter_state \<Rightarrow> (bool \<times> 'e filter_state) outcome" where
  "Next unpack pickErr s =
     (if itFail (fsIter s) \<noteq> None then Returns (False, s)
      else if itDone (fsIter s) then deliverRest unpack s
      else if fsEnd s \<and> (pickErr \<or> fsLogs s = []) then
        deliverRest unpack (s\<lparr>fsIter := (fsIter s)\<lparr>itDone := True, itFail := None\<rparr>\<rparr>)
      else case fsLogs s of [] \<Rightarrow> Blocks | l # ls \<Rightarrow> takeLog unpack l ls s)"

definition ContractTransferIterator_Next ::
  "bool \<Rightarrow> ContractTransfer filter_state \<Rightarrow> (bool \<times> ContractTransfer filter_state) outcome" where
  "ContractTransferIterator_Next = Next unpackTransfer"

definition ContractApprovalIterator_Next ::
  "bool \<Rightarrow> ContractApproval filter_state \<Rightarrow> (bool \<times> ContractApproval filter_state) outcome" where
  "ContractApprovalIterator_Next = Next unpackApproval"

definition recordNext :: "bool \<Rightarrow> 'e filter_state \<Rightarrow> 'e filter_state" where
  "recordNext b s =
     s\<lparr>fsGot := fsGot s @ (if b then [the (itEvent (fsIter s))] else []), fsLast := Some b\<rparr>"

text \<open>
  The steps of the goroutine and of the caller. \<^verbatim>\<open>Close\<close> tells the goroutine to quit and waits until it has, so
  that \<^verbatim>\<open>Next\<close> is not called in between.
\<close>

inductive filter_step :: "(log \<Rightarrow> (string + 'e) outcome) \<Rightarrow> 'e filter_state \<Rightarrow> 'e filter_state \<Rightarrow> bool"
  for unpack where
  send: "fsBuff s = l # ls \<Longrightarrow> \<not> fsEnd s \<Longrightarrow> length (fsLogs s) < logCap \<Longrightarrow>
    filter_step unpack s (s\<lparr>fsBuff := ls, fsLogs := fsLogs s @ [l]\<rparr>)"
| sent: "fsBuff s = [] \<Longrightarrow> \<not> fsEnd s \<Longrightarrow> filter_step unpack s (s\<lparr>fsEnd := True\<rparr>)"
| quit: "fsQuit s \<Longrightarrow> \<not> fsEnd s \<Longrightarrow> filter_step unpack s (s\<lparr>fsEnd := True\<rparr>)"
| call_next: "(fsQuit s \<longrightarrow> fsEnd s) \<Longrightarrow> Next unpack pickErr s = Returns (b, s') \<Longrightarrow>
    filter_step unpack s (recordNext b s')"
| call_close: "filter_step unpack s (s\<lparr>fsQuit := True\<rparr>)"

inductive_cases filter_stepE: "filter_step unpack s t"

definition FilterTransfer ::
  "cryptolib \<Rightarrow> (FilterQuery \<Rightarrow> string + log list) \<Rightarrow> BoundContract \<Rightarrow> FilterOpts option \<Rightarrow> address list \<Rightarrow> address list \<Rightarrow>
     string + ContractTransfer filter_state" where
  "FilterTransfer lib filterer c opts from to =
     map_sum id startFilter (FilterLogs lib filterer c opts ''Transfer(address,address,uint256)'' [from, to])"

definition FilterApproval ::
  "cryptolib \<Rightarrow> (FilterQuery \<Rightarrow> string + log list) \<Rightarrow> BoundContract \<Rightarrow> FilterOpts option \<Rightarrow> address list \<Rightarrow> address list \<Rightarrow>
     string + ContractApproval filter_state" where
  "FilterApproval lib filterer c opts owner spender =
     map_sum id startFilter (FilterLogs lib filterer c opts ''Approval(address,address,uint256)'' [owner, spender])"

section \<open>Watching\<close>

text \<open>
  The goroutine of \<^verbatim>\<open>WatchTransfer\<close> and \<^verbatim>\<open>WatchApproval\<close>: it waits for a log, then for the sink to take the event; in both places the
  subscription may fail and the caller may quit. A choice that is not possible where the goroutine is has no
  successor.
\<close>

datatype 'e watch_pc = Waiting | Sending 'e | Ended "string option" | Crashed

datatype watch_choice = GotLog log | SinkTakes | SubErr "string option" | QuitWatch

fun watchStep ::
  "(log \<Rightarrow> (string + 'e) outcome) \<Rightarrow> 'e watch_pc \<Rightarrow> watch_choice \<Rightarrow> ('e watch_pc \<times> 'e list) option" where
  "watchStep unpack Waiting (GotLog l) =
     (case unpack l of
        Returns (Inl e) \<Rightarrow> Some (Ended (Some e), [])
      | Returns (Inr ev) \<Rightarrow> Some (Sending ev, [])
      | Panics \<Rightarrow> Some (Crashed, [])
      | Blocks \<Rightarrow> None)"
| "watchStep unpack Waiting (SubErr e) = Some (Ended e, [])"
| "watchStep unpack Waiting QuitWatch = Some (Ended None, [])"
| "watchStep unpack (Sending ev) SinkTakes = Some (Waiting, [ev])"
| "watchStep unpack (Sending ev) (SubErr e) = Some (Ended e, [])"
| "watchStep unpack (Sending ev) QuitWatch = Some (Ended None, [])"
| "watchStep unpack _ _ = None"

fun watchRun ::
  "(log \<Rightarrow> (string + 'e) outcome) \<Rightarrow> 'e watch_pc \<Rightarrow> watch_choice list \<Rightarrow> ('e watch_pc \<times> 'e list) option" where
  "watchRun unpack pc [] = Some (pc, [])"
| "watchRun unpack pc (c # cs) =
     (case watchStep unpack pc c of
        None \<Rightarrow> None
      | Some (pc', es) \<Rightarrow> map_option (\<lambda>(pc'', es'). (pc'', es @ es')) (watchRun unpack pc' cs))"

definition WatchTransfer :: "watch_choice list \<Rightarrow> (ContractTransfer watch_pc \<times> ContractTransfer list) option" where
  "WatchTransfer = watchRun unpackTransfer Waiting"

definition WatchApproval :: "watch_choice list \<Rightarrow> (ContractApproval watch_pc \<times> ContractApproval list) option" where
  "WatchApproval = watchRun unpackApproval Waiting"

section \<open>The invariant of an iteration\<close>

definition unpacks :: "(log \<Rightarrow> (string + 'e) outcome) \<Rightarrow> log list \<Rightarrow> 'e list \<Rightarrow> bool" where
  "unpacks unpack ls es \<longleftrightarrow> list_all2 (\<lambda>l e. unpack l = Returns (Inr e)) ls es"

lemma unpacks_simps [simp]:
  "unpacks unpack [] es \<longleftrightarrow> es = []" "unpacks unpack ls [] \<longleftrightarrow> ls = []"
  by (simp_all add: unpacks_def)

lemma unpacks_snoc [simp]:
  "unpacks unpack (ls @ [l]) (es @ [e]) \<longleftrightarrow> unpacks unpack ls es \<and> unpack l = Returns (Inr e)"
  unfolding unpacks_def by (subst list_all2_rev [symmetric]) auto

text \<open>
  \<open>taken\<close> are the logs received so far: they were unpacked to the events returned, up to the one that failed, if one
  did.
\<close>

definition takenOk :: "(log \<Rightarrow> (string + 'e) outcome) \<Rightarrow> log list \<Rightarrow> 'e filter_state \<Rightarrow> bool" where
  "takenOk unpack taken s \<longleftrightarrow>
     (case itFail (fsIter s) of
        None \<Rightarrow> unpacks unpack taken (fsGot s)
      | Some e \<Rightarrow> taken \<noteq> [] \<and> unpacks unpack (butlast taken) (fsGot s) \<and> unpack (last taken) = Returns (Inl e) \<and>
          fsLast s = Some False)"

definition filter_inv :: "(log \<Rightarrow> (string + 'e) outcome) \<Rightarrow> log list \<Rightarrow> 'e filter_state \<Rightarrow> bool" where
  "filter_inv unpack buff s \<longleftrightarrow>
     (\<exists>taken. buff = taken @ fsLogs s @ fsBuff s \<and> takenOk unpack taken s) \<and>
     (itDone (fsIter s) \<longrightarrow> fsEnd s) \<and>
     (fsEnd s \<and> \<not> fsQuit s \<longrightarrow> fsBuff s = []) \<and>
     (fsLast s = Some False \<and> itFail (fsIter s) = None \<longrightarrow> itDone (fsIter s) \<and> fsLogs s = [])"

lemma filter_inv_start: "filter_inv unpack buff (startFilter buff)"
  by (simp add: filter_inv_def startFilter_def takenOk_def)

text \<open>Receiving a log keeps the invariant, from a state whose last result may be any.\<close>

lemma takeLog_inv:
  assumes "buff = taken @ (l # ls) @ fsBuff s" "unpacks unpack taken (fsGot s)" "itFail (fsIter s) = None"
    and "itDone (fsIter s) \<longrightarrow> fsEnd s" "fsEnd s \<and> \<not> fsQuit s \<longrightarrow> fsBuff s = []"
    and "takeLog unpack l ls s = Returns (b, s')"
  shows "filter_inv unpack buff (recordNext b s')"
proof -
  have "buff = (taken @ [l]) @ ls @ fsBuff s" using assms(1) by simp
  then show ?thesis
    using assms(2-6)
    by (auto simp: filter_inv_def takeLog_def takenOk_def recordNext_def intro!: exI [of _ "taken @ [l]"]
        split: outcome.splits sum.splits)
qed

lemma deliverRest_inv:
  assumes "buff = taken @ fsLogs s @ fsBuff s" "unpacks unpack taken (fsGot s)" "itFail (fsIter s) = None"
    and "itDone (fsIter s)" "fsEnd s" "fsEnd s \<and> \<not> fsQuit s \<longrightarrow> fsBuff s = []"
    and "deliverRest unpack s = Returns (b, s')"
  shows "filter_inv unpack buff (recordNext b s')"
proof (cases "fsLogs s")
  case Nil
  then show ?thesis
    using assms by (auto simp: deliverRest_def filter_inv_def takenOk_def recordNext_def)
next
  case (Cons l ls)
  then show ?thesis
    using assms by (intro takeLog_inv [where taken = taken and l = l and ls = ls and s = s]) (simp_all add: deliverRest_def)
qed

lemma Next_inv:
  assumes "filter_inv unpack buff s" "Next unpack pickErr s = Returns (b, s')"
  shows "filter_inv unpack buff (recordNext b s')"
proof -
  obtain taken where t: "buff = taken @ fsLogs s @ fsBuff s" "takenOk unpack taken s"
    using assms(1) by (auto simp: filter_inv_def)
  have inv: "itDone (fsIter s) \<longrightarrow> fsEnd s" "fsEnd s \<and> \<not> fsQuit s \<longrightarrow> fsBuff s = []"
    using assms(1) by (auto simp: filter_inv_def)
  show ?thesis
  proof (cases "itFail (fsIter s)")
    case (Some e)
    then have "b = False" "s' = s" using assms(2) by (simp_all add: Next_def)
    then show ?thesis using assms(1) Some t by (auto simp: filter_inv_def recordNext_def takenOk_def)
  next
    case None
    have u: "unpacks unpack taken (fsGot s)" using t(2) None by (simp add: takenOk_def)
    let ?s = "s\<lparr>fsIter := (fsIter s)\<lparr>itDone := True, itFail := None\<rparr>\<rparr>"
    consider (drain) "itDone (fsIter s)" "deliverRest unpack s = Returns (b, s')"
      | (fin) "fsEnd s" "deliverRest unpack ?s = Returns (b, s')"
      | (live) l ls where "fsLogs s = l # ls" "takeLog unpack l ls s = Returns (b, s')"
      using assms(2) None by (auto simp: Next_def split: if_splits list.splits)
    then show ?thesis
    proof cases
      case drain
      then show ?thesis using deliverRest_inv [OF t(1) u None] inv by simp
    next
      case fin
      show ?thesis by (rule deliverRest_inv [of _ taken ?s]) (use t(1) u fin inv in simp_all)
    next
      case live
      show ?thesis by (rule takeLog_inv [of _ taken l ls s]) (use t(1) u None live inv in simp_all)
    qed
  qed
qed

lemma filter_step_inv:
  assumes "filter_step unpack s t" "filter_inv unpack buff s"
  shows "filter_inv unpack buff t"
  using assms(1)
proof cases
  case (call_next pickErr b s')
  then show ?thesis using Next_inv [OF assms(2)] by blast
qed (use assms(2) in \<open>auto simp: filter_inv_def takenOk_def split: option.splits\<close>)

lemma filter_run_inv: "(filter_step unpack)\<^sup>*\<^sup>* (startFilter buff) s \<Longrightarrow> filter_inv unpack buff s"
  by (induction rule: rtranclp_induct) (auto intro: filter_inv_start filter_step_inv)

section \<open>Iterations are complete\<close>

lemma unpacks_map: "unpacks unpack ls es \<Longrightarrow> length ls = length es"
  by (auto simp: unpacks_def dest: list_all2_lengthD)

lemma takenOk_got:
  assumes "takenOk unpack taken s"
  shows "unpacks unpack (take (length (fsGot s)) taken) (fsGot s)" "length (fsGot s) \<le> length taken"
    "itFail (fsIter s) = Some e \<Longrightarrow> length (fsGot s) < length taken \<and> unpack (taken ! length (fsGot s)) = Returns (Inl e)"
proof -
  consider (ok) "itFail (fsIter s) = None" "unpacks unpack taken (fsGot s)" "length taken = length (fsGot s)"
    | (bad) e' ts t where "itFail (fsIter s) = Some e'" "taken = ts @ [t]" "unpacks unpack ts (fsGot s)"
      "length ts = length (fsGot s)" "unpack t = Returns (Inl e')"
    using assms by (cases taken rule: rev_cases) (auto simp: takenOk_def split: option.splits dest: unpacks_map)
  then have "unpacks unpack (take (length (fsGot s)) taken) (fsGot s) \<and> length (fsGot s) \<le> length taken \<and>
      (itFail (fsIter s) = Some e \<longrightarrow> length (fsGot s) < length taken \<and> unpack (taken ! length (fsGot s)) = Returns (Inl e))"
    by cases (auto simp: nth_append)
  then show "unpacks unpack (take (length (fsGot s)) taken) (fsGot s)" "length (fsGot s) \<le> length taken"
    "itFail (fsIter s) = Some e \<Longrightarrow> length (fsGot s) < length taken \<and> unpack (taken ! length (fsGot s)) = Returns (Inl e)"
    by blast+
qed

lemma filter_run_prefix:
  assumes "(filter_step unpack)\<^sup>*\<^sup>* (startFilter buff) s"
  shows "unpacks unpack (take (length (fsGot s)) buff) (fsGot s)" "length (fsGot s) \<le> length buff"
    "itFail (fsIter s) = Some e \<Longrightarrow> length (fsGot s) < length buff \<and> unpack (buff ! length (fsGot s)) = Returns (Inl e)"
proof -
  obtain taken where t: "buff = taken @ fsLogs s @ fsBuff s" "takenOk unpack taken s"
    using filter_run_inv [OF assms] by (auto simp: filter_inv_def)
  note got = takenOk_got [OF t(2)]
  show "unpacks unpack (take (length (fsGot s)) buff) (fsGot s)" "length (fsGot s) \<le> length buff"
    using got(1,2) by (simp_all add: t(1))
  show "length (fsGot s) < length buff \<and> unpack (buff ! length (fsGot s)) = Returns (Inl e)"
    if "itFail (fsIter s) = Some e"
    using got(3) [OF that] by (simp add: t(1) nth_append)
qed

lemma filter_run_all:
  assumes "(filter_step unpack)\<^sup>*\<^sup>* (startFilter buff) s"
    and "fsLast s = Some False" "itFail (fsIter s) = None" "\<not> fsQuit s"
  shows "unpacks unpack buff (fsGot s)"
  using filter_run_inv [OF assms(1)] assms(2-) by (auto simp: filter_inv_def takenOk_def)

lemma Next_progress:
  assumes "Next unpack pickErr s = Blocks" "\<And>l. unpack l \<noteq> Blocks"
  shows "\<exists>t. filter_step unpack s t \<and> fsGot t = fsGot s \<and>
    (length (fsBuff t) < length (fsBuff s) \<or> \<not> fsEnd s \<and> fsEnd t)"
proof -
  have t: "takeLog unpack l ls s' \<noteq> Blocks" for l ls s'
    using assms(2) by (auto simp: takeLog_def split: outcome.splits sum.splits)
  then have "fsLogs s = []" "\<not> fsEnd s"
    using assms(1) by (auto simp: Next_def deliverRest_def split: if_splits list.splits)
  show ?thesis
  proof (cases "fsBuff s")
    case Nil
    then show ?thesis using filter_step.sent [of s unpack] \<open>\<not> fsEnd s\<close> by (intro exI [of _ "s\<lparr>fsEnd := True\<rparr>"]) simp
  next
    case (Cons l ls)
    then have "filter_step unpack s (s\<lparr>fsBuff := ls, fsLogs := fsLogs s @ [l]\<rparr>)"
      using \<open>fsLogs s = []\<close> \<open>\<not> fsEnd s\<close> by (intro filter_step.send) (simp_all add: logCap_def)
    then show ?thesis using Cons by (intro exI [of _ "s\<lparr>fsBuff := ls, fsLogs := fsLogs s @ [l]\<rparr>"]) simp
  qed
qed

text \<open>
  C21. However the goroutine that sends the logs and the calls of \<^verbatim>\<open>Next\<close> and \<^verbatim>\<open>Close\<close> interleave, the events for which \<^verbatim>\<open>Next\<close> has
  returned true are the logs of the answer in their order, none lost and none twice, up to the current one. When \<^verbatim>\<open>Next\<close>
  returns false without an error and the iterator has not been closed, they are all the logs: an iteration does not
  end while logs are left in the channel. When it fails, the log after the returned ones is the one that could not be unpacked. And
  \<^verbatim>\<open>Next\<close> never waits for ever: when it blocks, the goroutine can send a log or end.
\<close>

theorem iterator_complete:
  assumes "(filter_step unpack)\<^sup>*\<^sup>* (startFilter buff) s" "\<And>l. unpack l \<noteq> Blocks"
  shows "list_all2 (\<lambda>l e. unpack l = Returns (Inr e)) (take (length (fsGot s)) buff) (fsGot s) \<and>
    (fsLast s = Some False \<and> itFail (fsIter s) = None \<and> \<not> fsQuit s \<longrightarrow> length (fsGot s) = length buff) \<and>
    (\<forall>e. itFail (fsIter s) = Some e \<longrightarrow>
       length (fsGot s) < length buff \<and> unpack (buff ! length (fsGot s)) = Returns (Inl e)) \<and>
    (\<forall>pickErr. Next unpack pickErr s = Blocks \<longrightarrow>
       (\<exists>t. filter_step unpack s t \<and> fsGot t = fsGot s \<and>
          (length (fsBuff t) < length (fsBuff s) \<or> \<not> fsEnd s \<and> fsEnd t)))"
  using filter_run_prefix [OF assms(1)] unpacks_map [OF filter_run_all [OF assms(1)]] Next_progress [OF _ assms(2)]
  by (simp add: unpacks_def)

text \<open>A transfer as the token emits it.\<close>

definition emitLog :: "8 word list \<Rightarrow> address \<times> address \<times> int \<Rightarrow> log" where
  "emitLog sig = (\<lambda>(a, b, n). \<lparr>lgTopics = [sig, addressTopic a, addressTopic b], lgData = U256 n\<rparr>)"

definition goodEvent :: "address \<times> address \<times> int \<Rightarrow> bool" where
  "goodEvent = (\<lambda>(a, b, n). length a = AddressLength \<and> length b = AddressLength \<and> 0 \<le> n \<and> n < 2 ^ 256)"

lemma UnpackLog_emit:
  assumes "goodEvent (a, b, n)"
  shows "UnpackLog (emitLog sig (a, b, n)) = Returns (Inr (a, b, Some n))"
proof -
  have "toGoType 0 (UintTy 256) (U256 n) = Returns (Inr (VBig n))"
    using toGoType_static [of "UintTy 256" "VBig n" "[]" "[]"] assms
    by (simp add: goodEvent_def requiresLengthPrefix_def reflectIntKind_def)
  then show ?thesis
    using assms
    by (simp add: UnpackLog_def emitLog_def UnpackValues_def parseTopics_def topicAddress_def addressTopic_def goodEvent_def
        HashLength_def AddressLength_def Let_def)
qed

lemma unpackTransfer_delivered:
  "goodEvent (a, b, n) \<Longrightarrow>
    \<exists>e. unpackTransfer (emitLog sig (a, b, n)) = Returns (Inr e) \<and> (ctFrom e, ctTo e, ctValue e) = (a, b, Some n)"
  by (simp add: unpackTransfer_def UnpackLog_emit)

lemma unpackApproval_delivered:
  "goodEvent (a, b, n) \<Longrightarrow>
    \<exists>e. unpackApproval (emitLog sig (a, b, n)) = Returns (Inr e) \<and> (caOwner e, caSpender e, caValue e) = (a, b, Some n)"
  by (simp add: unpackApproval_def UnpackLog_emit)

lemma UnpackLog_returns: "UnpackLog l \<noteq> Blocks"
  using unpackFrom_returns [of 0 "[UintTy 256]" "lgData l"]
  by (auto simp: UnpackLog_def UnpackValues_def Let_def simp del: unpackFrom.simps split: sum.splits if_splits)

lemma unpackTransfer_returns: "unpackTransfer l \<noteq> Blocks"
  using UnpackLog_returns [of l] by (auto simp: unpackTransfer_def split: outcome.splits sum.splits)

lemma unpackApproval_returns: "unpackApproval l \<noteq> Blocks"
  using UnpackLog_returns [of l] by (auto simp: unpackApproval_def split: outcome.splits sum.splits)


text \<open>An iteration over one log.\<close>

lemma four_steps: "r a b \<Longrightarrow> r b c \<Longrightarrow> r c d \<Longrightarrow> r d e \<Longrightarrow> r\<^sup>*\<^sup>* a e"
  by (erule converse_rtranclp_into_rtranclp)+ (rule rtranclp.rtrancl_refl)

lemma one_log_run:
  fixes l :: log and ev :: 'e
  assumes "unpack l = Returns (Inr ev)"
  shows "\<exists>s. (filter_step unpack)\<^sup>*\<^sup>* (startFilter [l]) s \<and> fsGot s = [ev] \<and> fsLast s = Some False \<and>
    itFail (fsIter s) = None \<and> \<not> fsQuit s"
proof -
  let ?s0 = "startFilter [l] :: 'e filter_state"
  let ?s1 = "?s0\<lparr>fsBuff := [], fsLogs := fsLogs ?s0 @ [l]\<rparr>"
  let ?r2 = "?s1\<lparr>fsLogs := [], fsIter := (fsIter ?s1)\<lparr>itEvent := Some ev\<rparr>\<rparr>"
  let ?s2 = "recordNext True ?r2"
  let ?s3 = "?s2\<lparr>fsEnd := True\<rparr>"
  let ?r4 = "?s3\<lparr>fsIter := (fsIter ?s3)\<lparr>itDone := True, itFail := None\<rparr>\<rparr>"
  have "filter_step unpack ?s0 ?s1" by (rule filter_step.send) (simp_all add: startFilter_def logCap_def)
  moreover have "filter_step unpack ?s1 ?s2"
    by (rule filter_step.call_next [where pickErr = False])
      (simp_all add: startFilter_def Next_def takeLog_def assms)
  moreover have "filter_step unpack ?s2 ?s3" by (rule filter_step.sent) (simp_all add: startFilter_def recordNext_def)
  moreover have "filter_step unpack ?s3 (recordNext False ?r4)"
    by (rule filter_step.call_next [where pickErr = False])
      (simp_all add: startFilter_def recordNext_def Next_def deliverRest_def)
  ultimately have "(filter_step unpack)\<^sup>*\<^sup>* ?s0 (recordNext False ?r4)" by (rule four_steps)
  then show ?thesis by (intro exI [of _ "recordNext False ?r4"]) (simp add: recordNext_def startFilter_def)
qed

theorem iterator_complete_witness:
  "\<exists>s. (filter_step unpackTransfer)\<^sup>*\<^sup>* (startFilter [emitLog [1] (replicate 20 7, replicate 20 8, 5)]) s \<and>
     fsLast s = Some False \<and> length (fsGot s) = 1"
proof -
  have "goodEvent (replicate 20 7, replicate 20 8, 5)" by (simp add: goodEvent_def AddressLength_def)
  from unpackTransfer_delivered [OF this, of "[1]"]
  obtain ev where "unpackTransfer (emitLog [1] (replicate 20 7, replicate 20 8, 5)) = Returns (Inr ev)"
    by (elim exE conjE)
  from one_log_run [of unpackTransfer, OF this] obtain s where s: "(filter_step unpackTransfer)\<^sup>*\<^sup>* (startFilter [emitLog [1] (replicate 20 7, replicate 20 8, 5)]) s"
    "fsLast s = Some False" "itFail (fsIter s) = None" "\<not> fsQuit s"
    by (elim exE conjE)
  then show ?thesis using iterator_complete [OF s(1) unpackTransfer_returns] by auto
qed

section \<open>From the chain to the caller\<close>

text \<open>What a node answers: of the logs of the contract and the blocks, those with the topics, where no topic is any.\<close>

definition matches :: "8 word list list list \<Rightarrow> 8 word list list \<Rightarrow> bool" where
  "matches query topics \<longleftrightarrow>
     length query \<le> length topics \<and> list_all2 (\<lambda>q t. q = [] \<or> t \<in> set q) query (take (length query) topics)"

definition honestNode :: "(address \<Rightarrow> log list) \<Rightarrow> (FilterQuery \<Rightarrow> string + log list) \<Rightarrow> bool" where
  "honestNode chain filterer \<longleftrightarrow>
     (\<forall>q. fqFromBlock q = 0 \<and> fqToBlock q = None \<longrightarrow>
        filterer q = Inr (filter (\<lambda>l. matches (fqTopics q) (lgTopics l)) (chain (fqAddress q))))"

definition wanted :: "address list \<Rightarrow> address list \<Rightarrow> address \<times> address \<times> int \<Rightarrow> bool" where
  "wanted senders to = (\<lambda>(a, b, n). (senders = [] \<or> a \<in> set senders) \<and> (to = [] \<or> b \<in> set to))"

lemma addressTopic_inject [simp]: "addressTopic a = addressTopic b \<longleftrightarrow> a = b"
  by (simp add: addressTopic_def)

lemma matches_emit:
  "matches (makeTopics sig [senders, to]) (lgTopics (emitLog sig' v)) \<longleftrightarrow> sig' = sig \<and> wanted senders to v"
  by (cases v) (auto simp: matches_def makeTopics_def emitLog_def wanted_def)

text \<open>The logs of the token, each with the identifier of its event.\<close>

definition tokenLogs :: "(8 word list \<times> address \<times> address \<times> int) list \<Rightarrow> log list" where
  "tokenLogs evs = map (\<lambda>(sig, v). emitLog sig v) evs"

definition eventsOf :: "8 word list \<Rightarrow> (8 word list \<times> address \<times> address \<times> int) list \<Rightarrow> (address \<times> address \<times> int) list" where
  "eventsOf sig evs = map snd (filter (\<lambda>(s, v). s = sig) evs)"

lemma token_answer:
  "filter (\<lambda>l. matches (makeTopics sig [senders, to]) (lgTopics l)) (tokenLogs evs) =
     map (emitLog sig) (filter (wanted senders to) (eventsOf sig evs))"
  by (induction evs) (auto simp: tokenLogs_def eventsOf_def matches_emit)

lemma FilterLogs_token:
  assumes "honestNode chain filterer" "chain (bcAddress c) = tokenLogs evs"
  shows "FilterLogs lib filterer c None sig [senders, to] =
    Inr (map (emitLog (eventId lib sig)) (filter (wanted senders to) (eventsOf (eventId lib sig) evs)))"
  using assms by (simp add: FilterLogs_def honestNode_def token_answer)

text \<open>
  What the two events have in common: \<open>unpack\<close> reads every event that the contract emits, and \<open>view\<close> gives its fields.
\<close>

locale log_event =
  fixes unpack :: "log \<Rightarrow> (string + 'e) outcome"
    and view :: "'e \<Rightarrow> address \<times> address \<times> int option"
  assumes delivered: "goodEvent (a, b, n) \<Longrightarrow>
      \<exists>e. unpack (emitLog sig (a, b, n)) = Returns (Inr e) \<and> view e = (a, b, Some n)"
begin

definition fields :: "address \<times> address \<times> int \<Rightarrow> address \<times> address \<times> int option" where
  "fields = (\<lambda>(a, b, n). (a, b, Some n))"

lemma unpacks_view:
  "unpacks unpack (map (emitLog sig) vs) es \<Longrightarrow> list_all goodEvent vs \<Longrightarrow> map view es = map fields vs"
proof (induction vs arbitrary: es)
  case (Cons v vs)
  obtain a b n where v: "v = (a, b, n)" by (cases v)
  obtain e es' where es: "es = e # es'" "unpack (emitLog sig v) = Returns (Inr e)"
    "unpacks unpack (map (emitLog sig) vs) es'"
    using Cons.prems(1) by (cases es) (auto simp: unpacks_def)
  have "view e = fields v" using delivered [of a b n sig] Cons.prems(2) es(2) by (auto simp: v fields_def)
  then show ?case using Cons es by simp
qed simp

lemma emitted_unpack:
  assumes "l \<in> set (map (emitLog sig) vs)" "list_all goodEvent vs"
  shows "\<exists>e. unpack l = Returns (Inr e)"
proof -
  obtain a b n where "l = emitLog sig (a, b, n)" "goodEvent (a, b, n)" using assms by (auto simp: list_all_iff)
  then show ?thesis using delivered by blast
qed

lemma iterate:
  assumes "(filter_step unpack)\<^sup>*\<^sup>* (startFilter (map (emitLog sig) vs)) s" "list_all goodEvent vs"
    and "fsLast s = Some False" "\<not> fsQuit s"
  shows "itFail (fsIter s) = None \<and> map view (fsGot s) = map fields vs"
proof -
  have ok: "itFail (fsIter s) = None"
  proof (cases "itFail (fsIter s)")
    case (Some e)
    then have "length (fsGot s) < length vs" "unpack (map (emitLog sig) vs ! length (fsGot s)) = Returns (Inl e)"
      using filter_run_prefix(3) [OF assms(1)] by auto
    moreover from this(1) have "map (emitLog sig) vs ! length (fsGot s) \<in> set (map (emitLog sig) vs)"
      by (intro nth_mem) simp
    ultimately show ?thesis using emitted_unpack [OF _ assms(2)] by fastforce
  qed simp
  then show ?thesis using unpacks_view [OF filter_run_all [OF assms(1)]] assms by simp
qed

end

interpretation transfers: log_event unpackTransfer "\<lambda>e. (ctFrom e, ctTo e, ctValue e)"
  by unfold_locales (rule unpackTransfer_delivered)

interpretation approvals: log_event unpackApproval "\<lambda>e. (caOwner e, caSpender e, caValue e)"
  by unfold_locales (rule unpackApproval_delivered)

text \<open>
  C20. Reading the past events of the token through its binding: on a node that answers a filter with the matching
  logs, a caller that iterates until \<^verbatim>\<open>Next\<close> returns false has got exactly the transfers (approvals) of the contract with a sender in
  the first list and a recipient in the second, where an empty list is any, with their amounts, in the order of the chain, and
  there is no error. The two kinds are told apart by the identifiers of the events.
\<close>

theorem events_delivered:
  assumes "honestNode chain filterer" "chain (bcAddress c) = tokenLogs evs" "list_all (\<lambda>(sig, v). goodEvent v) evs"
  shows "\<exists>s0 t0. FilterTransfer lib filterer c None senders to = Inr s0 \<and> FilterApproval lib filterer c None senders to = Inr t0 \<and>
    (\<forall>s. (filter_step unpackTransfer)\<^sup>*\<^sup>* s0 s \<and> fsLast s = Some False \<and> \<not> fsQuit s \<longrightarrow> itFail (fsIter s) = None \<and>
       map (\<lambda>e. (ctFrom e, ctTo e, ctValue e)) (fsGot s) =
         [(a, b, Some n). (a, b, n) \<leftarrow> eventsOf (eventId lib ''Transfer(address,address,uint256)'') evs, wanted senders to (a, b, n)]) \<and>
    (\<forall>t. (filter_step unpackApproval)\<^sup>*\<^sup>* t0 t \<and> fsLast t = Some False \<and> \<not> fsQuit t \<longrightarrow> itFail (fsIter t) = None \<and>
       map (\<lambda>e. (caOwner e, caSpender e, caValue e)) (fsGot t) =
         [(a, b, Some n). (a, b, n) \<leftarrow> eventsOf (eventId lib ''Approval(address,address,uint256)'') evs, wanted senders to (a, b, n)])"
proof -
  have good: "list_all goodEvent (filter (wanted senders to) (eventsOf sig evs))" for sig
    using assms(3) by (auto simp: list_all_iff eventsOf_def)
  have comp: "map (\<lambda>(a, b, n). (a, b, Some n)) (filter (wanted senders to) vs) =
      [(a, b, Some n). (a, b, n) \<leftarrow> vs, wanted senders to (a, b, n)]" for vs
    by (induction vs) auto
  note ans = FilterLogs_token [OF assms(1,2)]
  let ?T = "eventId lib ''Transfer(address,address,uint256)''"
  let ?A = "eventId lib ''Approval(address,address,uint256)''"
  show ?thesis
    unfolding FilterTransfer_def FilterApproval_def ans
    using transfers.iterate [OF _ good [of ?T], of ?T] approvals.iterate [OF _ good [of ?A], of ?A]
    unfolding transfers.fields_def approvals.fields_def comp
    by (intro exI conjI; (simp; fail)?) blast+
qed

definition sampleEvents :: "(8 word list \<times> address \<times> address \<times> int) list" where
  "sampleEvents =
     [(eventId tokenLib ''Approval(address,address,uint256)'', replicate 20 7, replicate 20 9, 3),
      (eventId tokenLib ''Transfer(address,address,uint256)'', replicate 20 7, replicate 20 8, 5),
      (eventId tokenLib ''Transfer(address,address,uint256)'', replicate 20 9, replicate 20 8, 6)]"

definition sampleFilterer :: "FilterQuery \<Rightarrow> string + log list" where
  "sampleFilterer q = Inr (filter (\<lambda>l. matches (fqTopics q) (lgTopics l)) (tokenLogs sampleEvents))"

lemma sample_transfers:
  "filter (wanted [replicate 20 7] []) (eventsOf (eventId tokenLib ''Transfer(address,address,uint256)'') sampleEvents) =
     [(replicate 20 7, replicate 20 8, 5)]"
  by code_simp

lemma sampleEvents_good: "list_all (\<lambda>(sig, v). goodEvent v) sampleEvents"
  by code_simp

theorem events_delivered_witness:
  "\<exists>s0 s. FilterTransfer tokenLib sampleFilterer (bindContract []) None [replicate 20 7] [] = Inr s0 \<and>
     (filter_step unpackTransfer)\<^sup>*\<^sup>* s0 s \<and> fsLast s = Some False \<and>
     map (\<lambda>e. (ctFrom e, ctTo e, ctValue e)) (fsGot s) = [(replicate 20 7, replicate 20 8, Some 5)]"
proof -
  let ?c = "bindContract []"
  let ?l = "emitLog (eventId tokenLib ''Transfer(address,address,uint256)'') (replicate 20 7, replicate 20 8, 5)"
  have node: "honestNode (\<lambda>_. tokenLogs sampleEvents) sampleFilterer"
    by (simp add: honestNode_def sampleFilterer_def)
  have "FilterTransfer tokenLib sampleFilterer ?c None [replicate 20 7] [] = Inr (startFilter [?l])"
    using FilterLogs_token [OF node, where c = ?c and evs = sampleEvents and lib = tokenLib
        and senders = "[replicate 20 7]" and to = "[]"]
    by (simp add: FilterTransfer_def sample_transfers)
  moreover obtain ev where "unpackTransfer ?l = Returns (Inr ev)"
    using unpackTransfer_delivered [of "replicate 20 7" "replicate 20 8" 5] unfolding goodEvent_def AddressLength_def by auto
  from one_log_run [of unpackTransfer, OF this]
  obtain s where s: "(filter_step unpackTransfer)\<^sup>*\<^sup>* (startFilter [?l]) s" "fsLast s = Some False" "\<not> fsQuit s"
    by (elim exE conjE)
  have "[(a, b, Some n). (a, b, n) \<leftarrow> eventsOf (eventId tokenLib ''Transfer(address,address,uint256)'') sampleEvents,
      wanted [replicate 20 7] [] (a, b, n)] = [(replicate 20 7, replicate 20 8, Some 5)]"
    by code_simp
  ultimately show ?thesis
    using events_delivered [OF node _ sampleEvents_good, where c = ?c and lib = tokenLib and senders = "[replicate 20 7]" and to = "[]"] s
    by (intro exI [of _ "startFilter [?l]"] exI [of _ s]) auto
qed

section \<open>What the sink gets\<close>

definition logsOf :: "watch_choice list \<Rightarrow> log list" where
  "logsOf cs = concat (map (\<lambda>c. case c of GotLog l \<Rightarrow> [l] | _ \<Rightarrow> []) cs)"

lemma logsOf_simps [simp]:
  "logsOf [] = []" "logsOf (GotLog l # cs) = l # logsOf cs" "logsOf (SinkTakes # cs) = logsOf cs"
  "logsOf (SubErr e # cs) = logsOf cs" "logsOf (QuitWatch # cs) = logsOf cs"
  by (simp_all add: logsOf_def)

fun held :: "'e watch_pc \<Rightarrow> 'e list" where
  "held (Sending ev) = [ev]"
| "held _ = []"

fun watching :: "'e watch_pc \<Rightarrow> bool" where
  "watching (Ended e) = False"
| "watching Crashed = False"
| "watching _ = True"

lemma unpacks_Cons: "unpacks unpack ls es \<Longrightarrow> unpack l = Returns (Inr e) \<Longrightarrow> unpacks unpack (l # ls) (e # es)"
  by (simp add: unpacks_def)

lemma watchRun_over: "\<not> watching pc \<Longrightarrow> watchRun unpack pc cs = Some r \<Longrightarrow> cs = [] \<and> r = (pc, [])"
  by (cases pc; cases cs; auto)

text \<open>
  While the goroutine runs, the events that the sink has taken and the one it holds are all the logs received, unpacked and in their
  order.
\<close>

lemma watch_forwards:
  "watchRun unpack pc cs = Some (pc', es) \<Longrightarrow> watching pc' \<Longrightarrow>
    \<exists>us. unpacks unpack (logsOf cs) us \<and> held pc @ us = es @ held pc'"
proof (induction unpack pc cs arbitrary: es rule: watchRun.induct)
  case (2 unpack pc c cs)
  obtain q ys es' where s: "watchStep unpack pc c = Some (q, ys)" "watchRun unpack q cs = Some (pc', es')" "es = ys @ es'"
    using 2(2) by (auto split: option.splits)
  then obtain us where us: "unpacks unpack (logsOf cs) us" "held q @ us = es' @ held pc'"
    using 2(1) 2(3) by blast
  have "watching q" using watchRun_over [of q] s(2) 2(3) by (metis prod.sel(1))
  then consider (got) l ev where "pc = Waiting" "c = GotLog l" "unpack l = Returns (Inr ev)" "q = Sending ev" "ys = []"
    | (taken) ev where "pc = Sending ev" "c = SinkTakes" "q = Waiting" "ys = [ev]"
    using s(1) by (cases pc; cases c) (auto split: outcome.splits sum.splits)
  then show ?case
  proof cases
    case got
    then show ?thesis using us s(3) unpacks_Cons [OF us(1), of l ev] by (intro exI [of _ "ev # us"] conjI) simp_all
  next
    case taken
    then show ?thesis using us s(3) by auto
  qed
qed auto

end
