(* ===== verification/SolPrograms.thy ===== *)
theory SolPrograms
  imports LogEvents
begin

text \<open>
  The programs that call contracts through the abi library without bindings, with the library of \<open>Abi\<close> in place of the parameter:
  \<^verbatim>\<open>src/callsol/sol/callsol.go\<close> and \<^verbatim>\<open>src/callsol/fuwuqi/solidityfuwuqi.go\<close> store a text in a contract,
  \<^verbatim>\<open>src/callsol/sol/getSol.go\<close> reads it, and \<^verbatim>\<open>src/solsum.go\<close> lets a contract add two numbers.
\<close>

section \<open>Interfaces\<close>

text \<open>The same interface is written in three of the programs.\<close>

definition MyContractAbi :: ABI where
  "MyContractAbi =
     \<lparr>abConstructor = [],
      abMethods = map_of [meth ''get1'' False [] [StringTy], meth ''put1'' False [StringTy] []]\<rparr>"

definition solsumAbi :: ABI where
  "solsumAbi =
     \<lparr>abConstructor = [StringTy],
      abMethods = map_of
        [meth ''kill'' False [] [],
         meth ''setGreeting'' False [StringTy] [],
         meth ''greet'' True [] [StringTy],
         meth ''sum'' True [UintTy 8, UintTy 8] [UintTy 8]]\<rparr>"

section \<open>The programs\<close>

text \<open>Results are unpacked into a string and into a \<^verbatim>\<open>uint8\<close>; values of other types are no results of these methods.\<close>

definition unpackString :: "ABI \<Rightarrow> string \<Rightarrow> 8 word list \<Rightarrow> string + string" where
  "unpackString abi name result =
     (case Unpack abi name result of
        Returns (Inl e) \<Rightarrow> Inl e | Returns (Inr (VString r)) \<Rightarrow> Inr r | _ \<Rightarrow> Inl '''')"

definition unpackUint8 :: "ABI \<Rightarrow> string \<Rightarrow> 8 word list \<Rightarrow> string + 8 word" where
  "unpackUint8 abi name result =
     (case Unpack abi name result of
        Returns (Inl e) \<Rightarrow> Inl e | Returns (Inr (VUint w r)) \<Rightarrow> Inr (word_of_nat r) | _ \<Rightarrow> Inl '''')"

definition getSol :: "cryptolib \<Rightarrow> ethnode \<Rightarrow> (string + string) outcome" where
  "getSol lib nd =
     getSol_main (\<lambda>name. Pack lib MyContractAbi name []) (unpackString MyContractAbi ''get1'') nd"

definition solsum :: "cryptolib \<Rightarrow> ethnode \<Rightarrow> (string + 8 word) outcome" where
  "solsum lib nd =
     solsum_main (\<lambda>name args. Pack lib solsumAbi name (map (\<lambda>b. VUint 8 (unat b)) args)) (unpackUint8 solsumAbi ''sum'') nd"

text \<open>\<^verbatim>\<open>creatAbi\<close> of \<^verbatim>\<open>solidityfuwuqi.go\<close>; an error ends the program.\<close>

definition creatAbi :: "cryptolib \<Rightarrow> string + 8 word list" where
  "creatAbi lib = Pack lib MyContractAbi ''put1'' [VString ''111'']"

definition callsol :: "cryptolib \<Rightarrow> node \<Rightarrow> (unit + exit) script" where
  "callsol lib nd =
     (case Pack lib MyContractAbi ''put1'' [VString ''111''] of
        Inl _ \<Rightarrow> State_Monad.return (Inr Fatal)
      | Inr abiBuf \<Rightarrow> callsolOnce_main lib nd abiBuf)"

section \<open>What is stored and what is read\<close>

text \<open>
  The node answers a call without a sender, to the contract at \<open>a\<close>, as the contract computes; the call is the selector of a
  method with a result and bytes that decode to arguments.
\<close>

definition answersContract ::
  "cryptolib \<Rightarrow> ABI \<Rightarrow> address \<Rightarrow> (string \<Rightarrow> abi_value list \<Rightarrow> abi_value) \<Rightarrow> ethnode \<Rightarrow> bool" where
  "answersContract lib abi a f nd \<longleftrightarrow>
     (\<forall>name md d vs. abMethods abi name = Some md \<and> length (mdOutputs md) = 1 \<and>
        UnpackValues (mdInputs md) d = Returns (Inr vs) \<longrightarrow>
        enCallContract nd (callMessage a (Method_Id lib md @ d)) = Arguments_Pack (mdOutputs md) [f name vs])"

lemma contract_answer:
  assumes "answersContract lib abi a f nd" "abMethods abi name = Some md" "name \<noteq> ''''"
    and "list_all2 fits (mdInputs md) args" "list_all smallValue args" "length (mdInputs md) \<le> 3"
    and "mdOutputs md = [t]" "fits t (f name args)" "smallValue (f name args)"
  shows "\<exists>buf result. Pack lib abi name args = Inr buf \<and> enCallContract nd (callMessage a buf) = Inr result \<and>
    Unpack abi name result = Returns (Inr (f name args))"
proof -
  obtain d where d: "Arguments_Pack (mdInputs md) args = Inr d" "UnpackValues (mdInputs md) d = Returns (Inr args)"
    using Arguments_Pack_small [OF assms(4-6)] by blast
  obtain out where "Arguments_Pack (mdOutputs md) [f name args] = Inr out" "Unpack abi name out = Returns (Inr (f name args))"
    using Unpack_value [OF assms(2,7-9)] by blast
  moreover have "Pack lib abi name args = Inr (Method_Id lib md @ d)"
    using assms(2,3) d(1) by (simp add: Pack_def)
  ultimately show ?thesis
    using assms(1,2,7) d(2) unfolding answersContract_def by (metis One_nat_def length_Cons list.size(3))
qed

lemma getSol_reads:
  assumes "answersContract lib MyContractAbi (HexToAddress ''0xDd1588125971b4Ca7a876A4Ea7Ae177e69bf436C'') f nd"
    and "enDial nd ''http://127.0.0.1:8547'' = None" "f ''get1'' [] = VString s" "smallValue (VString s)"
  shows "getSol lib nd = Returns (Inr s)"
proof -
  obtain buf result where "Pack lib MyContractAbi ''get1'' [] = Inr buf"
    "enCallContract nd (callMessage (HexToAddress ''0xDd1588125971b4Ca7a876A4Ea7Ae177e69bf436C'') buf) = Inr result"
    "Unpack MyContractAbi ''get1'' result = Returns (Inr (f ''get1'' []))"
    using contract_answer [OF assms(1), of "''get1''" _ "[]" StringTy] assms(3,4)
    by (auto simp: MyContractAbi_def meth_def)
  then show ?thesis
    using assms(2,3) by (simp add: getSol_def getSol_main_def callUnchecked_def unpackString_def)
qed

lemma small_uint8: "smallValue (VUint 8 n)"
  by (simp add: smallValue_def)

lemma solsum_reads:
  assumes "answersContract lib solsumAbi (HexToAddress ''0xfE4f5525b519d74A780aC539464f071600F62A36'') f nd"
    and "enDial nd ''http://39.100.94.15:8545'' = None" "f ''sum'' [VUint 8 88, VUint 8 11] = VUint 8 n" "n < 256"
  shows "solsum lib nd = Returns (Inr (word_of_nat n))"
proof -
  obtain buf result where "Pack lib solsumAbi ''sum'' [VUint 8 88, VUint 8 11] = Inr buf"
    "enCallContract nd (callMessage (HexToAddress ''0xfE4f5525b519d74A780aC539464f071600F62A36'') buf) = Inr result"
    "Unpack solsumAbi ''sum'' result = Returns (Inr (f ''sum'' [VUint 8 88, VUint 8 11]))"
    using contract_answer [OF assms(1), of "''sum''" _ "[VUint 8 88, VUint 8 11]" "UintTy 8"] assms(3,4)
    by (auto simp: solsumAbi_def meth_def reflectIntKind_def small_uint8)
  then show ?thesis
    using assms(2,3) by (simp add: solsum_def solsum_main_def connectTo_def unpackUint8_def)
qed

definition put1Data :: "cryptolib \<Rightarrow> 8 word list \<Rightarrow> bool" where
  "put1Data lib data \<longleftrightarrow>
     (\<exists>d. data = take 4 (Keccak256 lib (bytesOf ''put1(string)'')) @ d \<and> UnpackValues [StringTy] d = Returns (Inr [VString ''111'']))"

lemma creatAbi_calls: "\<exists>data. creatAbi lib = Inr data \<and> put1Data lib data"
proof -
  have small: "smallValue (VString ''111'')"
    by (simp add: smallValue_def packBytesSlice_def RightPadBytes_def)
  obtain d where d: "Arguments_Pack [StringTy] [VString ''111''] = Inr d" "UnpackValues [StringTy] d = Returns (Inr [VString ''111''])"
    using Arguments_Pack_small [of "[StringTy]" "[VString ''111'']"] small by auto
  then show ?thesis
    by (simp add: creatAbi_def Pack_def MyContractAbi_def meth_def Method_Id_def Sig_def put1Data_def)
qed

lemma callsol_sends:
  assumes "st \<in> set (submitted (events (callsol lib nd)))"
  shows "put1Data lib (txData (fst st)) \<and> txTo (fst st) = Some (HexToAddress ''0xDd1588125971b4Ca7a876A4Ea7Ae177e69bf436C'')"
proof -
  obtain data where data: "creatAbi lib = Inr data" "put1Data lib data" using creatAbi_calls by blast
  have "\<forall>st \<in> set (submitted (events (callsolOnce_main lib nd data))).
      txData (fst st) = data \<and> txTo (fst st) = Some (HexToAddress ''0xDd1588125971b4Ca7a876A4Ea7Ae177e69bf436C'')"
    by (simp add: callsolOnce_main_def one_shot NewTransaction_def split: option.splits sum.splits)
  then show ?thesis using assms data by (simp add: callsol_def creatAbi_def)
qed

text \<open>
  C29. The programs and their contracts agree, whatever the hash function and the node are otherwise. Against a node that runs the two contracts,
  \<^verbatim>\<open>getSol.go\<close> ends with exactly the text that \<^verbatim>\<open>get1\<close> returns and \<^verbatim>\<open>solsum.go\<close> with the sum of its two numbers as the contract computes it; every
  transaction that \<^verbatim>\<open>callsol.go\<close> sends goes to the contract that \<^verbatim>\<open>getSol.go\<close> reads, and like the calls of \<^verbatim>\<open>solidityfuwuqi.go\<close>, whose
  \<^verbatim>\<open>creatAbi\<close> never fails, it carries the selector of \<^verbatim>\<open>put1\<close> and bytes that decode to the text \<^verbatim>\<open>111\<close>.
\<close>

theorem sol_programs_agree:
  assumes "answersContract lib MyContractAbi (HexToAddress ''0xDd1588125971b4Ca7a876A4Ea7Ae177e69bf436C'') f nd"
    and "enDial nd ''http://127.0.0.1:8547'' = None" "f ''get1'' [] = VString s" "smallValue (VString s)"
    and "answersContract lib solsumAbi (HexToAddress ''0xfE4f5525b519d74A780aC539464f071600F62A36'') g nd"
    and "enDial nd ''http://39.100.94.15:8545'' = None" "g ''sum'' [VUint 8 88, VUint 8 11] = VUint 8 n" "n < 256"
  shows "getSol lib nd = Returns (Inr s) \<and> solsum lib nd = Returns (Inr (word_of_nat n)) \<and>
    (\<exists>data. creatAbi lib = Inr data \<and> put1Data lib data) \<and>
    (\<forall>st \<in> set (submitted (events (callsol lib chain))).
       put1Data lib (txData (fst st)) \<and> txTo (fst st) = Some (HexToAddress ''0xDd1588125971b4Ca7a876A4Ea7Ae177e69bf436C''))"
  using getSol_reads [OF assms(1-4)] solsum_reads [OF assms(5-8)] creatAbi_calls callsol_sends by blast

text \<open>An instance: one node with both contracts.\<close>

definition sampleValue :: "string \<Rightarrow> abi_value list \<Rightarrow> abi_value" where
  "sampleValue name vs = (if name = ''sum'' then VUint 8 99 else VString ''111'')"

definition solAnswer :: "callMsg \<Rightarrow> string + 8 word list" where
  "solAnswer msg =
     (if take 4 (cmData msg) = sampleSelector (bytesOf ''sum(uint8,uint8)'') then Arguments_Pack [UintTy 8] [VUint 8 99]
      else Arguments_Pack [StringTy] [VString ''111''])"

definition solNode :: ethnode where
  "solNode = \<lparr>enDial = (\<lambda>_. None), enBalanceAt = (\<lambda>_. Inr 0), enNonceAt = (\<lambda>_. Inr 7),
     enTransactionByHash = (\<lambda>_. (None, False)), enReceipt = (\<lambda>_ _. None), enCallContract = solAnswer\<rparr>"

lemma sol_selectors:
  "sampleSelector (bytesOf ''get1()'') \<noteq> sampleSelector (bytesOf ''sum(uint8,uint8)'')"
  "sampleSelector (bytesOf ''greet()'') \<noteq> sampleSelector (bytesOf ''sum(uint8,uint8)'')"
  by code_simp+

lemma selector_length [simp]: "length (sampleSelector b) = 4"
  by (simp add: sampleSelector_def)

lemma itoa_8 [simp]: "itoa 8 = ''8''"
  by code_simp

lemma solNode_answers:
  "answersContract tokenLib MyContractAbi a sampleValue solNode" "answersContract tokenLib solsumAbi a sampleValue solNode"
  using sol_selectors
  by (auto simp: answersContract_def MyContractAbi_def solsumAbi_def meth_def tokenLib_Id Sig_def callMessage_def solNode_def
      solAnswer_def sampleValue_def split: if_splits)

theorem sol_programs_agree_witness:
  "getSol tokenLib solNode = Returns (Inr ''111'') \<and> solsum tokenLib solNode = Returns (Inr 99)"
  using sol_programs_agree [OF solNode_answers(1) _ _ _ solNode_answers(2), of "''111''" 99]
  by (simp add: solNode_def sampleValue_def smallValue_def packBytesSlice_def RightPadBytes_def)

end
