(* ===== verification/Spec2Isabelle.thy ===== *)
theory Spec2Isabelle
  imports BlockNumber Json_Laws Reflect Codec Subscription Server Serve ClientMsg Client ClientCall Net Http Endpoints
    Transport ClientSend ClientQuit SenderLaws Payouts
    TxSend EthClient Crypto OneShot Chaincode Tokens MultiSend ClientSub CallTyping Queries LogEvents SolPrograms
begin

text \<open>
  A verification development for the transaction SDK under \<^verbatim>\<open>src/\<close>.

  \<^bold>\<open>The program.\<close> The repository has two parts. The first is \<^verbatim>\<open>src/rpc\<close>, a JSON-RPC 2.0 library with a
  server (services found by reflection, requests and batches, subscriptions), a client (calls, batches,
  subscriptions, reconnecting) and transports (HTTP, websocket, IPC, in-process, standard I/O). The second is a
  collection of programs that send transactions to a chain through the typed client \<^verbatim>\<open>src/eth1/eth.go\<close>: senders
  that run in a loop, programs that pay lists of recipients, a load generator, programs that deploy and call
  contracts and chaincode, programs that query a node, and the encryption, tokens and protocol buffers they use.

  \<^bold>\<open>The RPC library.\<close>
    \<^item> \<open>Errors\<close> (\<^verbatim>\<open>errors.go\<close>), \<open>Hexutil\<close> (the vendored \<^verbatim>\<open>hexutil.go\<close>, \<^verbatim>\<open>bytes.go\<close>, \<^verbatim>\<open>types.go\<close> as far as they are
      called), \<open>BlockNumber\<close> (\<^verbatim>\<open>types.go\<close>): error codes and texts, quantities and byte strings with their round
      trips, block numbers.
    \<^item> \<open>Json\<close> and \<open>Json_Laws\<close>: the part of \<^verbatim>\<open>encoding/json\<close> that the code relies on, a scanner for values with
      their raw text, objects and arrays, and its laws. JSON values are kept as raw text, as the code does
      with \<^verbatim>\<open>json.RawMessage\<close>; what decoding a raw value to a Go type gives is the parameter \<open>jsonlib\<close>.
    \<^item> \<open>Reflect\<close> (\<^verbatim>\<open>utils.go\<close>): which methods of an object become callbacks and subscriptions, and subscription
      identifiers. \<open>Codec\<close> (\<^verbatim>\<open>json.go\<close>): parsing requests, batches and arguments, building and writing
      responses. \<open>Subscription\<close> (\<^verbatim>\<open>subscription.go\<close>): the notifier. \<open>Server\<close> (\<^verbatim>\<open>server.go\<close>): the registry,
      verification and execution of requests. \<open>Serve\<close> (\<^verbatim>\<open>server.go\<close>): a connection served by concurrent
      goroutines, as a step relation with one step per atomic action.
    \<^item> \<open>ClientMsg\<close>, \<open>Client\<close>, \<open>ClientCall\<close> (\<^verbatim>\<open>client.go\<close>): messages and identifiers, the dispatch loop with its
      tables, calls and batches and the buffering of notifications. \<open>ClientSend\<close>: the concurrent senders and the
      write lock. \<open>ClientQuit\<close>: the end of a subscription against the dispatch loop. \<open>ClientSub\<close>: the methods on a
      connection that stays open (\<^verbatim>\<open>Subscribe\<close>, \<^verbatim>\<open>requestUnsubscribe\<close>, \<^verbatim>\<open>CallContext\<close>, \<^verbatim>\<open>read\<close>), composed with the server.
    \<^item> \<open>CallTyping\<close>: the typing of what passes between the registry, the argument parser and the calls by
      reflection in \<^verbatim>\<open>server.go\<close>.
    \<^item> \<open>Net\<close>, \<open>Http\<close> (\<^verbatim>\<open>http.go\<close>): media types and hosts, the HTTP server and client; \<open>Http\<close> composes client,
      transport and server. \<open>Endpoints\<close> (\<^verbatim>\<open>endpoints.go\<close>): which methods an endpoint offers. \<open>Transport\<close>
      (\<^verbatim>\<open>websocket.go\<close>, \<^verbatim>\<open>ipc.go\<close>, \<^verbatim>\<open>inproc.go\<close>, \<^verbatim>\<open>stdio.go\<close> and dialing in \<^verbatim>\<open>client.go\<close>): origins, addresses and the
      choice of the transport.

  \<^bold>\<open>The programs.\<close>
    \<^item> \<open>Script\<close>: transactions, the node and the events a program has with it in the state monad, and the discipline of
      nonces, the abstract specification of a sender. The node is a record of functions that choose each
      reply from the events so far, so statements for every node cover every behaviour of network,
      chain and clock. The locale \<open>sender\<close> is the contract of one turn of a sender's loop.
    \<^item> \<open>Senders\<close> (\<^verbatim>\<open>transfer\<close>, \<^verbatim>\<open>callsol\<close>, \<^verbatim>\<open>callsol/sol/callsol2.go\<close>, \<^verbatim>\<open>callsol/fuwuqi\<close>) and \<open>ContractSenders\<close>
      (\<^verbatim>\<open>cc.go\<close>, \<^verbatim>\<open>solidityAndCC.go\<close>, \<^verbatim>\<open>doublesolidity\<close>, \<^verbatim>\<open>solidity.go\<close>, \<^verbatim>\<open>solidity2.go\<close>, \<^verbatim>\<open>cryptoSolidity\<close>, \<^verbatim>\<open>safe\<close>):
      one definition per turn of a loop, per function and per \<^verbatim>\<open>main\<close>; the locale is interpreted for each of them.
      \<open>SenderLaws\<close>: what whole runs do. \<open>Payouts\<close> (\<^verbatim>\<open>transferadder\<close>, \<^verbatim>\<open>generateKey/transfer.go\<close>, \<^verbatim>\<open>zhiya\<close>): who is
      paid. \<open>OneShot\<close>: the programs with a fixed number of transactions. \<open>MultiSend\<close>: all goroutines of a sender
      (\<^verbatim>\<open>callsol/fuwuqi\<close>, \<^verbatim>\<open>transfer2\<close>) in every interleaving of their turns.
    \<^item> \<open>TxSend\<close> (\<^verbatim>\<open>tool\<close>): the load generator, whose two goroutines are a step relation. \<open>EthClient\<close>
      (\<^verbatim>\<open>eth1/eth.go\<close>): the typed client over \<open>Http\<close>, and the polling for receipts. \<open>Crypto\<close>
      (\<^verbatim>\<open>cryptoSolidity\<close>): SM4 and AES with modes and padding. \<open>Tokens\<close> (\<^verbatim>\<open>jwt\<close>, \<^verbatim>\<open>safe/jwt.go\<close>): making and checking tokens.
    \<^item> \<open>Protobuf\<close> and \<open>ProtobufLaws\<close> (the vendored \<^verbatim>\<open>golang/protobuf\<close> and the generated \<^verbatim>\<open>baap_transaction.pb.go\<close>): the wire
      format of the three messages of a chaincode call, and its laws. \<open>Chaincode\<close> (\<^verbatim>\<open>ccRan\<close>): the payloads of the
      chaincode programs on the wire. \<open>Queries\<close>: the programs that ask a node and print the answer, and those that
      make keys.
    \<^item> \<open>Abi\<close> (the vendored \<^verbatim>\<open>accounts/abi\<close>): the encoding of the arguments and results of contracts. \<open>Bindings\<close> (the vendored
      \<^verbatim>\<open>accounts/abi/bind\<close>, the generated \<^verbatim>\<open>contract/HW.go\<close> and \<^verbatim>\<open>cryptoSolidity/sol/Sol.go\<close>, and over them \<^verbatim>\<open>contract.go\<close>,
      \<^verbatim>\<open>cryptoSolidity/query.go\<close> and \<^verbatim>\<open>wasm/abi/abi.go\<close>): calls and transactions of contracts. \<open>LogEvents\<close> (\<^verbatim>\<open>contract/HW.go\<close>): the
      events of the token; the goroutine that feeds an iterator and the caller of its \<^verbatim>\<open>Next\<close> are a step relation, and the locale
      \<open>log_event\<close> is what the two kinds of events have in common. \<open>SolPrograms\<close>: the programs that pack calls from an interface
      written in them (\<^verbatim>\<open>callsol/sol\<close>, \<^verbatim>\<open>solidityfuwuqi.go\<close>, \<^verbatim>\<open>solsum.go\<close>), with \<open>Abi\<close> for the parameter of \<open>OneShot\<close> and \<open>Queries\<close>.

  \<^bold>\<open>What is shown.\<close> Composition: a call over HTTP returns what the callback returned, and fails with the documented
  text for unknown methods; a subscription delivers what its callback sends, in order, until it is ended. Typing: no
  request, whatever its text, makes a call by reflection panic. Concurrency of the server: each request is answered once, no notification
  overtakes the response that announces it, and the goroutines refine the sequential execution. The client: the
  dispatch loop neither panics nor blocks and routes responses, waiting operations are unblocked when the
  connection is lost, writes exclude each other, the notifications are a bounded queue. Programs: the senders keep
  the discipline of nonces and stop at their limits in every run, also as interleaved goroutines, payouts pay nobody twice,
  the programs with one transaction use the nonce of their account. Wire formats: varints and messages are read
  back, decoding returns on every input, chaincode payloads arrive as the calls that were meant. Tokens: exactly which are
  accepted. Contracts: arguments are read back from their encoding, whatever bytes are unpacked no bound is left, the bindings of
  the token return what the contract computes, past events are delivered completely and in order in every interleaving, and what is encrypted and
  stored in the greeter can be read back; the programs with interfaces of their own end with what their contracts return. Where the code departs from its documentation or from what
  it is for, a theorem says when exactly: deadlocks of the unsubscription and of the load generator,
  overwritten and skipped nonces, payloads cut by a blank, origins and addresses that do not fit, optional
  arguments and null messages, tokens that vouch for themselves, answers read in the wrong encoding or not checked for
  their absence.

  \<^bold>\<open>Bounds.\<close> Machine integers are words where wrap-around matters (identifiers, nonces, block numbers). Loops without
  an end are modelled by their first \<open>k\<close> turns, and the theorems hold for every \<open>k\<close>; loops over lists and
  fixed counts are recursive functions; polling is a \<^theory_text>\<open>partial_function\<close> whose value is proved to exist exactly when
  the poll succeeds. The loops of the protocol buffer decoder have the length of their input as fuel, and
  \<open>Unmarshal_returns\<close> shows that it is enough. The scanner of JSON has twice the length of the text as fuel,
  which \<open>scan_enough\<close> shows to be enough. There is no other fuel.

  \<^bold>\<open>Not modelled.\<close> Sockets, files, websocket frames, the CORS handler, timers (a timer may fire at any time), printing;
  cryptographic primitives, RLP, the token library and the gogo variant of the protocol buffers, which
  are parameters; arrays, signed numbers and the JSON of interfaces in \<open>Abi\<close>; the byte
  code of contracts; key stores; lists of keys, which are arguments
  of the programs that have thousands of them; tests and prints of constants.

  \<^bold>\<open>Open ends.\<close> Further theories could take the codec of websocket messages, several subscriptions of one client at once, and the
  arrays of \<open>Abi\<close>.
\<close>

end
